(* ===== verification/Prelude.thy ===== *)
theory Prelude
  imports Main "HOL-Library.Word" "HOL-Library.Multiset"
begin

text \<open>
  What every other theory shares: the widths of the machine integers, the ways a C++ call can fail
  to return, the sequencing of fallible calls, vectors of nullable pointers, and the association
  lists that stand for \<^verbatim>\<open>std::unordered_map\<close>.
\<close>

unbundle bit_operations_syntax

section \<open>Machine integers\<close>

text \<open>
  \<^verbatim>\<open>size_t\<close> and \<^verbatim>\<open>unsigned long long\<close> have 64 bits on both targets, \<^verbatim>\<open>int\<close> has 32. Process ids are
  plain integers: the code only compares, stores and prints them.
\<close>

type_synonym u64 = "64 word"
type_synonym u32 = "32 word"
type_synonym pid = int

text \<open>The casts \<^verbatim>\<open>(int) x\<close> and \<^verbatim>\<open>(ssize_t) x\<close> of a 64-bit register.\<close>

definition as_int :: "u64 \<Rightarrow> int" where
  "as_int w = sint (ucast w :: u32)"

definition as_ssize :: "u64 \<Rightarrow> int" where
  "as_ssize w = sint w"

section \<open>Calls that may not return\<close>

text \<open>
  \<^verbatim>\<open>assert\<close> is live (the Makefile does not define \<^verbatim>\<open>NDEBUG\<close>), so a failed one aborts the tracer;
  \<^verbatim>\<open>exit(n)\<close> ends it; an access outside a buffer or a vector is undefined behaviour. Each is a
  value of \<open>failure\<close>, and a call that may end so returns \<open>failure + 'a\<close>.
\<close>

datatype failure =
    Assertion string
  | Exit int
  | Undefined string

named_theorems outcome_simps \<open>evaluation of fallible calls\<close>

definition bindR :: "failure + 'a \<Rightarrow> ('a \<Rightarrow> failure + 'b) \<Rightarrow> failure + 'b" where
  "bindR r f = (case r of Inl e \<Rightarrow> Inl e | Inr x \<Rightarrow> f x)"

lemma bindR_Inl [simp, outcome_simps]: "bindR (Inl e) f = Inl e"
  by (simp add: bindR_def)

lemma bindR_Inr [simp, outcome_simps]: "bindR (Inr x) f = f x"
  by (simp add: bindR_def)

lemma bindR_eq_Inr_iff: "bindR r f = Inr y \<longleftrightarrow> (\<exists>x. r = Inr x \<and> f x = Inr y)"
  by (cases r) simp_all

lemma bindR_InrE:
  assumes "bindR r f = Inr y"
  obtains x where "r = Inr x" and "f x = Inr y"
  using assms by (auto simp: bindR_eq_Inr_iff)

lemma bindR_assoc: "bindR (bindR r f) g = bindR r (\<lambda>x. bindR (f x) g)"
  by (cases r) simp_all

definition assertR :: "string \<Rightarrow> bool \<Rightarrow> failure + unit" where
  "assertR what b = (if b then Inr () else Inl (Assertion what))"

lemma assertR_True [simp, outcome_simps]: "assertR what True = Inr ()"
  by (simp add: assertR_def)

lemma assertR_False [simp, outcome_simps]: "assertR what False = Inl (Assertion what)"
  by (simp add: assertR_def)

lemma assertR_eq_Inr [simp]: "assertR what b = Inr u \<longleftrightarrow> b"
  by (simp add: assertR_def)

section \<open>Vectors of nullable pointers\<close>

text \<open>
  A \<^verbatim>\<open>std::vector<std::shared_ptr<T>>\<close> is a list of optional addresses. \<open>slot v i\<close> is the pointer
  that the test \<^verbatim>\<open>i < v.size() && !!v[i]\<close> lets through; \<open>vec_resize\<close> is \<^verbatim>\<open>v.resize(n)\<close>, which cuts
  the vector or pads it with null pointers.
\<close>

definition slot :: "'a option list \<Rightarrow> nat \<Rightarrow> 'a option" where
  "slot v i = (if i < length v then v ! i else None)"

definition vec_resize :: "nat \<Rightarrow> 'a option list \<Rightarrow> 'a option list" where
  "vec_resize n v = take n v @ replicate (n - length v) None"

lemma length_vec_resize [simp]: "length (vec_resize n v) = n"
  by (simp add: vec_resize_def min_def)

lemma slot_vec_resize: "slot (vec_resize n v) i = (if i < n then slot v i else None)"
  by (auto simp: slot_def vec_resize_def nth_append min_def)

lemma slot_update: "i < length v \<Longrightarrow> slot (v[i := x]) j = (if j = i then x else slot v j)"
  by (simp add: slot_def nth_list_update)

lemma slot_SomeD: "slot v i = Some a \<Longrightarrow> i < length v \<and> v ! i = Some a"
  by (simp add: slot_def split: if_splits)

lemma slot_in_set: "Some a \<in> set v \<longleftrightarrow> (\<exists>i. slot v i = Some a)"
  by (auto simp: slot_def in_set_conv_nth)

lemma slot_Nil [simp]: "slot [] i = None"
  by (simp add: slot_def)

lemma set_vec_resize_Some: "Some a \<in> set (vec_resize n v) \<longleftrightarrow> Some a \<in> set (take n v)"
  by (auto simp: vec_resize_def)

text \<open>The addresses a vector holds.\<close>

definition addrs :: "'a option list \<Rightarrow> 'a set" where
  "addrs v = {a. Some a \<in> set v}"

lemma finite_addrs [simp]: "finite (addrs v)"
proof -
  have "addrs v \<subseteq> the ` set v"
    by (force simp: addrs_def)
  then show ?thesis
    by (rule finite_subset) simp
qed

lemma addrs_slot: "addrs v = {a. \<exists>i. slot v i = Some a}"
  by (simp add: addrs_def slot_in_set)

lemma addrs_Nil [simp]: "addrs [] = {}"
  by (simp add: addrs_def)

lemma addrs_Cons: "addrs (x # v) = (case x of None \<Rightarrow> addrs v | Some a \<Rightarrow> insert a (addrs v))"
  by (auto simp: addrs_def split: option.splits)

lemma addrs_append: "addrs (v @ w) = addrs v \<union> addrs w"
  by (auto simp: addrs_def)

lemma addrs_replicate_None [simp]: "addrs (replicate n None) = {}"
  by (auto simp: addrs_def)

lemma addrs_empty_iff: "addrs v = {} \<longleftrightarrow> (\<forall>i. slot v i = None)"
  by (auto simp: addrs_slot) (metis not_Some_eq)

end
