(* ===== verification/FileState.thy ===== *)
theory FileState
  imports Prelude
begin

text \<open>
  \<^verbatim>\<open>TFileState\<close> of \<^verbatim>\<open>types.h\<close> and \<^verbatim>\<open>types.cpp\<close>: what the tracer remembers of one open file. The
  operations are the class's member functions, on 64-bit words. \<open>GetFileLength\<close> of \<^verbatim>\<open>utils.cpp\<close>
  stands here because the constructors call it; its argument \<open>stat\<close> is the system call, \<open>None\<close> when
  it fails. The abstract counterpart is a pair of natural numbers, the file offset and the highest
  position written; the refinement lemmas say when the words are exactly those numbers.
\<close>

section \<open>Flags and file length\<close>

definition O_WRONLY :: u64 where "O_WRONLY = 0x1"
definition O_RDWR :: u64 where "O_RDWR = 0x2"
definition O_APPEND :: u64 where "O_APPEND = 0x400"
definition O_CLOEXEC :: u64 where "O_CLOEXEC = 0x80000"
definition FD_CLOEXEC :: u64 where "FD_CLOEXEC = 0x1"

lemmas open_flag_defs = O_WRONLY_def O_RDWR_def O_APPEND_def O_CLOEXEC_def FD_CLOEXEC_def

definition GetFileLength :: "(string \<Rightarrow> u64 option) \<Rightarrow> string \<Rightarrow> u64" where
  "GetFileLength stat filename = (case stat filename of Some st_size \<Rightarrow> st_size | None \<Rightarrow> 0)"

section \<open>The class TFileState\<close>

record file_state =
  MaxPos :: u64
  CurrPos :: u64
  Flags :: u64
  InitSize :: u64
  Filename :: string

definition IsAppendSet :: "file_state \<Rightarrow> bool" where
  "IsAppendSet s \<longleftrightarrow> Flags s AND O_APPEND \<noteq> 0"

definition IsCloexecSet :: "file_state \<Rightarrow> bool" where
  "IsCloexecSet s \<longleftrightarrow> Flags s AND O_CLOEXEC \<noteq> 0"

definition NewFileState :: "(string \<Rightarrow> u64 option) \<Rightarrow> string \<Rightarrow> u64 \<Rightarrow> file_state" where
  "NewFileState stat filename flags =
     (let s = \<lparr>MaxPos = 0, CurrPos = 0, Flags = flags,
               InitSize = GetFileLength stat filename, Filename = filename\<rparr>
      in if IsAppendSet s then s\<lparr>CurrPos := InitSize s\<rparr> else s\<lparr>CurrPos := 0\<rparr>)"

definition CopyFileState :: "(string \<Rightarrow> u64 option) \<Rightarrow> file_state \<Rightarrow> file_state" where
  "CopyFileState stat s =
     \<lparr>MaxPos = MaxPos s, CurrPos = CurrPos s, Flags = Flags s,
      InitSize = GetFileLength stat (Filename s), Filename = Filename s\<rparr>"

definition SetFlags :: "u64 \<Rightarrow> file_state \<Rightarrow> file_state" where
  "SetFlags flags s = s\<lparr>Flags := flags\<rparr>"

definition GetOutputSize :: "file_state \<Rightarrow> u64" where
  "GetOutputSize s = (if MaxPos s > InitSize s then MaxPos s - InitSize s else 0)"

definition SetCurrPos :: "u64 \<Rightarrow> file_state \<Rightarrow> file_state" where
  "SetCurrPos pos s = s\<lparr>CurrPos := pos\<rparr>"

definition Enroll :: "u64 \<Rightarrow> file_state \<Rightarrow> file_state" where
  "Enroll nbytes s =
     (let s' = s\<lparr>CurrPos := CurrPos s + nbytes\<rparr>
      in if CurrPos s' > MaxPos s' then s'\<lparr>MaxPos := CurrPos s'\<rparr> else s')"

definition EnrollNoShift :: "u64 \<Rightarrow> u64 \<Rightarrow> file_state \<Rightarrow> file_state" where
  "EnrollNoShift nbytes offset s =
     (if offset + nbytes > MaxPos s then s\<lparr>MaxPos := offset + nbytes\<rparr> else s)"

definition SetCloexecFlag :: "bool \<Rightarrow> file_state \<Rightarrow> file_state" where
  "SetCloexecFlag on s =
     (if on then s\<lparr>Flags := Flags s OR O_CLOEXEC\<rparr>
      else s\<lparr>Flags := Flags s AND NOT O_CLOEXEC\<rparr>)"

section \<open>Frame facts\<close>

lemma file_ops_InitSize [simp]:
  "InitSize (Enroll n s) = InitSize s"
  "InitSize (EnrollNoShift n off s) = InitSize s"
  "InitSize (SetCurrPos pos s) = InitSize s"
  "InitSize (SetFlags fl s) = InitSize s"
  "InitSize (SetCloexecFlag on s) = InitSize s"
  by (simp_all add: Enroll_def EnrollNoShift_def SetCurrPos_def SetFlags_def SetCloexecFlag_def Let_def)

lemma file_ops_Filename [simp]:
  "Filename (Enroll n s) = Filename s"
  "Filename (EnrollNoShift n off s) = Filename s"
  "Filename (SetCurrPos pos s) = Filename s"
  "Filename (SetFlags fl s) = Filename s"
  "Filename (SetCloexecFlag on s) = Filename s"
  by (simp_all add: Enroll_def EnrollNoShift_def SetCurrPos_def SetFlags_def SetCloexecFlag_def Let_def)

lemma file_ops_Flags [simp]:
  "Flags (Enroll n s) = Flags s"
  "Flags (EnrollNoShift n off s) = Flags s"
  "Flags (SetCurrPos pos s) = Flags s"
  by (simp_all add: Enroll_def EnrollNoShift_def SetCurrPos_def Let_def)

lemma file_ops_output [simp]:
  "GetOutputSize (SetCurrPos pos s) = GetOutputSize s"
  "GetOutputSize (SetFlags fl s) = GetOutputSize s"
  "GetOutputSize (SetCloexecFlag on s) = GetOutputSize s"
  by (simp_all add: GetOutputSize_def SetCurrPos_def SetFlags_def SetCloexecFlag_def)

lemma NewFileState_output [simp]: "GetOutputSize (NewFileState stat f fl) = 0"
  by (simp add: GetOutputSize_def NewFileState_def Let_def)

lemma CopyFileState_simps [simp]:
  "MaxPos (CopyFileState stat s) = MaxPos s"
  "CurrPos (CopyFileState stat s) = CurrPos s"
  "Flags (CopyFileState stat s) = Flags s"
  "Filename (CopyFileState stat s) = Filename s"
  "InitSize (CopyFileState stat s) = GetFileLength stat (Filename s)"
  by (simp_all add: CopyFileState_def)

section \<open>The close-on-exec and append flags\<close>

lemma IsAppendSet_bit: "IsAppendSet s \<longleftrightarrow> bit (Flags s) 10"
  using and_exp_eq_0_iff_not_bit [of "Flags s" 10] by (simp add: IsAppendSet_def O_APPEND_def)

lemma IsCloexecSet_bit: "IsCloexecSet s \<longleftrightarrow> bit (Flags s) 19"
  using and_exp_eq_0_iff_not_bit [of "Flags s" 19] by (simp add: IsCloexecSet_def O_CLOEXEC_def)

lemma bit_O_CLOEXEC: "bit O_CLOEXEC k \<longleftrightarrow> k = 19"
proof -
  have e: "O_CLOEXEC = 2 ^ 19"
    by (simp add: O_CLOEXEC_def)
  show ?thesis
    unfolding e bit_exp_iff by auto
qed

lemma SetCloexecFlag_bit:
  "bit (Flags (SetCloexecFlag on s)) k \<longleftrightarrow> (if k = 19 then on else bit (Flags s) k)"
  by (auto simp: SetCloexecFlag_def bit_simps bit_O_CLOEXEC dest: bit_imp_le_length)

text \<open>
  The descriptor flag \<^verbatim>\<open>FD_CLOEXEC\<close> is not the open flag \<^verbatim>\<open>O_CLOEXEC\<close>: a descriptor whose flags are
  stored as \<^verbatim>\<open>fcntl(fd, F_GETFD)\<close> returns them is never seen as close-on-exec, nor as append.
\<close>

lemma SetFlags_descriptor_flags:
  "\<not> IsCloexecSet (SetFlags FD_CLOEXEC s)" "\<not> IsAppendSet (SetFlags FD_CLOEXEC s)"
  by (simp_all add: IsCloexecSet_def IsAppendSet_def SetFlags_def open_flag_defs)

section \<open>Abstract cursor and refinement\<close>

text \<open>
  The four ways a traced call moves a \<^verbatim>\<open>TFileState\<close> (\<^verbatim>\<open>OpWriteChangeOffset\<close>, \<^verbatim>\<open>OpWriteNoOffsetChange\<close>,
  \<^verbatim>\<open>OpResize\<close> and \<^verbatim>\<open>OpSeek\<close> of \<^verbatim>\<open>context.cpp\<close>), and what they do to a pair of natural numbers:
  the offset of the open file and the end of the highest byte written.
\<close>

datatype file_op = WriteOp u64 | PWriteOp u64 u64 | ResizeOp u64 | SeekOp u64

fun file_step :: "file_op \<Rightarrow> file_state \<Rightarrow> file_state" where
  "file_step (WriteOp n) s = Enroll n s"
| "file_step (PWriteOp n off) s = EnrollNoShift n off s"
| "file_step (ResizeOp n) s = EnrollNoShift n 0 s"
| "file_step (SeekOp pos) s = SetCurrPos pos s"

definition file_run :: "file_op list \<Rightarrow> file_state \<Rightarrow> file_state" where
  "file_run ops s = fold file_step ops s"

type_synonym cursor = "nat \<times> nat"

fun cursor_step :: "file_op \<Rightarrow> cursor \<Rightarrow> cursor" where
  "cursor_step (WriteOp n) (p, h) = (p + unat n, max h (p + unat n))"
| "cursor_step (PWriteOp n off) (p, h) = (p, max h (unat off + unat n))"
| "cursor_step (ResizeOp n) (p, h) = (p, max h (unat n))"
| "cursor_step (SeekOp pos) (p, h) = (unat pos, h)"

definition cursor_run :: "file_op list \<Rightarrow> cursor \<Rightarrow> cursor" where
  "cursor_run ops c = fold cursor_step ops c"

text \<open>No operation reaches beyond the largest 64-bit offset.\<close>

fun op_fits :: "file_op \<Rightarrow> cursor \<Rightarrow> bool" where
  "op_fits (WriteOp n) (p, h) \<longleftrightarrow> p + unat n < 2 ^ 64"
| "op_fits (PWriteOp n off) (p, h) \<longleftrightarrow> unat off + unat n < 2 ^ 64"
| "op_fits (ResizeOp n) (p, h) \<longleftrightarrow> True"
| "op_fits (SeekOp pos) (p, h) \<longleftrightarrow> True"

fun ops_fit :: "file_op list \<Rightarrow> cursor \<Rightarrow> bool" where
  "ops_fit [] c \<longleftrightarrow> True"
| "ops_fit (x # xs) c \<longleftrightarrow> op_fits x c \<and> ops_fit xs (cursor_step x c)"

definition abs_cursor :: "file_state \<Rightarrow> cursor" where
  "abs_cursor s = (unat (CurrPos s), unat (MaxPos s))"

lemma unat_add_fits: "unat (a::u64) + unat b < 2 ^ 64 \<Longrightarrow> unat (a + b) = unat a + unat b"
  using unat_add_lem [of a b] by simp

lemma file_step_refines:
  assumes "op_fits x (abs_cursor s)"
  shows "abs_cursor (file_step x s) = cursor_step x (abs_cursor s)"
  using assms
  by (cases x)
    (auto simp: abs_cursor_def Enroll_def EnrollNoShift_def SetCurrPos_def Let_def
      unat_add_fits word_less_nat_alt max_def add.commute)

lemma file_step_InitSize [simp]: "InitSize (file_step x s) = InitSize s"
  by (cases x) simp_all

lemma file_run_InitSize [simp]: "InitSize (file_run ops s) = InitSize s"
  unfolding file_run_def by (induction ops arbitrary: s) simp_all

lemma file_run_refines:
  "ops_fit ops (abs_cursor s) \<Longrightarrow> abs_cursor (file_run ops s) = cursor_run ops (abs_cursor s)"
  unfolding file_run_def cursor_run_def
  by (induction ops arbitrary: s) (simp_all add: file_step_refines)

lemma unat_GetOutputSize: "unat (GetOutputSize s) = unat (MaxPos s) - unat (InitSize s)"
  by (auto simp: GetOutputSize_def word_less_nat_alt unat_sub word_le_nat_alt)

text \<open>The output size of a run is the growth of the file in the abstract cursor.\<close>

lemma file_run_output:
  assumes "ops_fit ops (abs_cursor s)"
  shows "unat (GetOutputSize (file_run ops s)) =
    snd (cursor_run ops (abs_cursor s)) - unat (InitSize s)"
  using file_run_refines [OF assms] by (simp add: unat_GetOutputSize abs_cursor_def prod_eq_iff)

subsection \<open>Sequential writers\<close>

lemma cursor_run_writes:
  "p \<le> h \<or> ns \<noteq> [] \<Longrightarrow> cursor_run (map WriteOp ns) (p, h)
    = (p + sum_list (map unat ns), max h (p + sum_list (map unat ns)))"
  unfolding cursor_run_def
  by (induction ns arbitrary: p h) (auto simp: max_def)

lemma ops_fit_writes:
  "p + sum_list (map unat ns) < 2 ^ 64 \<Longrightarrow> ops_fit (map WriteOp ns) (p, h)"
  by (induction ns arbitrary: p h) (auto simp: add.assoc)

lemma NewFileState_cursor:
  "abs_cursor (NewFileState stat f fl) =
    (if IsAppendSet (NewFileState stat f fl) then unat (GetFileLength stat f) else 0, 0)"
  by (simp add: NewFileState_def abs_cursor_def IsAppendSet_def Let_def)

lemma NewFileState_simps [simp]:
  "InitSize (NewFileState stat f fl) = GetFileLength stat f"
  "Filename (NewFileState stat f fl) = f"
  "Flags (NewFileState stat f fl) = fl"
  by (simp_all add: NewFileState_def Let_def)

lemma writes_output:
  assumes fit: "unat (CurrPos s) + sum_list (map unat ns) < 2 ^ 64" and "ns \<noteq> []"
  shows "unat (GetOutputSize (file_run (map WriteOp ns) s))
    = max (unat (MaxPos s)) (unat (CurrPos s) + sum_list (map unat ns)) - unat (InitSize s)"
  using file_run_output [of "map WriteOp ns" s] ops_fit_writes [OF fit] assms
  by (simp add: abs_cursor_def cursor_run_writes)

end
