(* ===== verification/PriorityQueue.thy ===== *)
theory PriorityQueue
  imports Prelude
begin

text \<open>
  \<^verbatim>\<open>std::priority_queue\<close> over a vector, as \<^verbatim>\<open>storage.h\<close> instantiates it: a binary heap with the
  smallest key in front, \<^verbatim>\<open>push\<close> appending and sifting up, \<^verbatim>\<open>pop\<close> moving the last element to the
  front and sifting down. The locale \<open>min_queue\<close> is the interface the storage relies on: the
  multiset of elements, and a front element with the least key. Which of several least elements is
  in front is left open by the interface, as it is by the C++ standard.
\<close>

section \<open>The heap\<close>

definition swap_at :: "nat \<Rightarrow> nat \<Rightarrow> 'a list \<Rightarrow> 'a list" where
  "swap_at i j xs = xs[i := xs ! j, j := xs ! i]"

definition heap_parent :: "nat \<Rightarrow> nat" where
  "heap_parent i = (i - 1) div 2"

lemma length_swap_at [simp]: "length (swap_at i j xs) = length xs"
  by (simp add: swap_at_def)

lemma mset_swap_at [simp]: "i < length xs \<Longrightarrow> j < length xs \<Longrightarrow> mset (swap_at i j xs) = mset xs"
  unfolding swap_at_def by (rule mset_swap)

lemma nth_swap_at:
  "i < length xs \<Longrightarrow> j < length xs \<Longrightarrow> k < length xs \<Longrightarrow>
    swap_at i j xs ! k = (if k = i then xs ! j else if k = j then xs ! i else xs ! k)"
  by (auto simp: swap_at_def nth_list_update)

lemma heap_parent_less [simp]: "0 < i \<Longrightarrow> heap_parent i < i"
  by (auto simp: heap_parent_def)

lemma heap_parent_eq_iff: "0 < j \<Longrightarrow> heap_parent j = i \<longleftrightarrow> j = 2 * i + 1 \<or> j = 2 * i + 2"
  by (auto simp: heap_parent_def)

function sift_up :: "('a \<Rightarrow> 'k::linorder) \<Rightarrow> 'a list \<Rightarrow> nat \<Rightarrow> 'a list" where
  "sift_up key xs i =
     (if 0 < i \<and> key (xs ! i) < key (xs ! heap_parent i)
      then sift_up key (swap_at i (heap_parent i) xs) (heap_parent i) else xs)"
  by pat_completeness auto
termination
  by (relation "measure (\<lambda>(key, xs, i). i)") auto

definition smaller_child :: "('a \<Rightarrow> 'k::linorder) \<Rightarrow> 'a list \<Rightarrow> nat \<Rightarrow> nat" where
  "smaller_child key xs i =
     (let l = 2 * i + 1; r = 2 * i + 2;
          m = (if l < length xs \<and> key (xs ! l) < key (xs ! i) then l else i)
      in if r < length xs \<and> key (xs ! r) < key (xs ! m) then r else m)"

lemma smaller_child_cases:
  "smaller_child key xs i = i \<or> i < smaller_child key xs i \<and> smaller_child key xs i < length xs"
  by (auto simp: smaller_child_def Let_def)

function sift_down :: "('a \<Rightarrow> 'k::linorder) \<Rightarrow> 'a list \<Rightarrow> nat \<Rightarrow> 'a list" where
  "sift_down key xs i =
     (let m = smaller_child key xs i
      in if m = i then xs else sift_down key (swap_at i m xs) m)"
  by pat_completeness auto
termination
proof (relation "measure (\<lambda>(key, xs, i). length xs - i)", goal_cases)
  case (2 key xs i m)
  then show ?case
    using smaller_child_cases [of key xs i] by auto
qed simp

declare sift_up.simps [simp del] sift_down.simps [simp del]

definition heap_push :: "('a \<Rightarrow> 'k::linorder) \<Rightarrow> 'a \<Rightarrow> 'a list \<Rightarrow> 'a list" where
  "heap_push key x xs = sift_up key (xs @ [x]) (length xs)"

definition heap_pop :: "('a \<Rightarrow> 'k::linorder) \<Rightarrow> 'a list \<Rightarrow> 'a list" where
  "heap_pop key xs =
     (if length xs \<le> 1 then [] else sift_down key ((last xs) # tl (butlast xs)) 0)"

definition heap_top :: "'a list \<Rightarrow> 'a" where
  "heap_top xs = xs ! 0"

definition is_heap :: "('a \<Rightarrow> 'k::linorder) \<Rightarrow> 'a list \<Rightarrow> bool" where
  "is_heap key xs \<longleftrightarrow> (\<forall>j<length xs. 0 < j \<longrightarrow> key (xs ! heap_parent j) \<le> key (xs ! j))"

section \<open>Elements\<close>

lemma sift_up_mset: "i < length xs \<Longrightarrow> mset (sift_up key xs i) = mset xs"
proof (induction key xs i rule: sift_up.induct)
  case (1 key xs i)
  show ?case
  proof (cases "0 < i \<and> key (xs ! i) < key (xs ! heap_parent i)")
    case True
    then have "heap_parent i < length xs"
      using "1.prems" heap_parent_less [of i] by linarith
    with 1 True show ?thesis
      by (simp add: sift_up.simps [of key xs i])
  next
    case False
    then show ?thesis
      by (subst sift_up.simps) auto
  qed
qed

lemma sift_down_mset: "i < length xs \<Longrightarrow> mset (sift_down key xs i) = mset xs"
proof (induction key xs i rule: sift_down.induct)
  case (1 key xs i)
  then show ?case
    using smaller_child_cases [of key xs i]
    by (auto simp: sift_down.simps [of key xs i] Let_def)
qed

lemma length_sift_down: "i < length xs \<Longrightarrow> length (sift_down key xs i) = length xs"
  by (metis sift_down_mset size_mset)

lemma mset_heap_push: "mset (heap_push key x xs) = add_mset x (mset xs)"
  by (simp add: heap_push_def sift_up_mset)

lemma mset_heap_pop: "xs \<noteq> [] \<Longrightarrow> mset (heap_pop key xs) = mset xs - {#heap_top xs#}"
proof (cases xs)
  case (Cons y ys)
  show ?thesis
  proof (cases "ys = []")
    case True
    with Cons show ?thesis
      by (simp add: heap_pop_def heap_top_def)
  next
    case False
    then have "mset ys = add_mset (last ys) (mset (butlast ys))"
      by (metis append_butlast_last_id mset.simps(2) mset_append add_mset_add_single mset.simps(1))
    with Cons False show ?thesis
      by (simp add: heap_pop_def heap_top_def sift_down_mset Suc_le_eq)
  qed
qed simp

section \<open>The heap order\<close>

text \<open>The heap with one element out of place, above (while sifting up) or below (sifting down).\<close>

definition heap_but_up :: "('a \<Rightarrow> 'k::linorder) \<Rightarrow> 'a list \<Rightarrow> nat \<Rightarrow> bool" where
  "heap_but_up key xs i \<longleftrightarrow>
     (\<forall>j<length xs. 0 < j \<and> j \<noteq> i \<longrightarrow> key (xs ! heap_parent j) \<le> key (xs ! j)) \<and>
     (0 < i \<longrightarrow> (\<forall>j<length xs. 0 < j \<and> heap_parent j = i \<longrightarrow> key (xs ! heap_parent i) \<le> key (xs ! j)))"

definition heap_but_down :: "('a \<Rightarrow> 'k::linorder) \<Rightarrow> 'a list \<Rightarrow> nat \<Rightarrow> bool" where
  "heap_but_down key xs i \<longleftrightarrow>
     (\<forall>j<length xs. 0 < j \<and> heap_parent j \<noteq> i \<longrightarrow> key (xs ! heap_parent j) \<le> key (xs ! j)) \<and>
     (0 < i \<longrightarrow> (\<forall>j<length xs. 0 < j \<and> heap_parent j = i \<longrightarrow> key (xs ! heap_parent i) \<le> key (xs ! j)))"

lemma heap_but_up_step:
  assumes inv: "heap_but_up key xs i" and i: "0 < i" "i < length xs"
    and less: "key (xs ! i) < key (xs ! heap_parent i)"
  shows "heap_but_up key (swap_at i (heap_parent i) xs) (heap_parent i)"
proof -
  let ?p = "heap_parent i" and ?ys = "swap_at i (heap_parent i) xs"
  have p: "?p < length xs" "?p \<noteq> i"
    using i heap_parent_less [of i] by linarith+
  have nth: "k < length xs \<Longrightarrow> ?ys ! k = (if k = i then xs ! ?p else if k = ?p then xs ! i else xs ! k)"
    for k using nth_swap_at [OF i(2) p(1)] by simp
  have up: "key (xs ! heap_parent j) \<le> key (xs ! j)" if "j < length xs" "0 < j" "j \<noteq> i" for j
    using inv that by (simp add: heap_but_up_def)
  have down: "key (xs ! ?p) \<le> key (xs ! j)" if "j < length xs" "0 < j" "heap_parent j = i" for j
    using inv that i by (simp add: heap_but_up_def)
  have first: "key (?ys ! heap_parent j) \<le> key (?ys ! j)" if j: "j < length xs" "0 < j" "j \<noteq> ?p" for j
  proof -
    have pj: "heap_parent j < length xs"
      using j heap_parent_less [of j] by linarith
    consider "j = i" | "j \<noteq> i" "heap_parent j = ?p" | "j \<noteq> i" "heap_parent j = i" | "j \<noteq> i" "heap_parent j \<noteq> ?p" "heap_parent j \<noteq> i"
      by blast
    then show ?thesis
    proof cases
      case 2
      have "key (xs ! ?p) \<le> key (xs ! j)"
        using up [OF j(1,2) 2(1)] 2(2) by simp
      with less have "key (xs ! i) \<le> key (xs ! j)"
        by simp
      with 2 j pj p show ?thesis
        by (simp add: nth)
    qed (use j pj p less up down in \<open>simp_all add: nth less_imp_le\<close>)
  qed
  have second: "key (?ys ! heap_parent ?p) \<le> key (?ys ! j)"
    if j: "j < length xs" "0 < j" "heap_parent j = ?p" and pp: "0 < ?p" for j
  proof -
    have q: "heap_parent ?p < length xs" "heap_parent ?p \<noteq> ?p" "heap_parent ?p \<noteq> i"
      using pp heap_parent_less [of ?p] heap_parent_less [of i] i p by linarith+
    have a: "key (xs ! heap_parent ?p) \<le> key (xs ! ?p)"
      using up p pp by blast
    have "key (xs ! ?p) \<le> key (xs ! j)" if "j \<noteq> i"
      using up [OF j(1,2) that] j(3) by simp
    with a q j p show ?thesis
      by (auto simp: nth intro: order_trans)
  qed
  show ?thesis
    unfolding heap_but_up_def using first second by simp
qed

lemma sift_up_heap: "heap_but_up key xs i \<Longrightarrow> i < length xs \<Longrightarrow> is_heap key (sift_up key xs i)"
proof (induction key xs i rule: sift_up.induct)
  case (1 key xs i)
  show ?case
  proof (cases "0 < i \<and> key (xs ! i) < key (xs ! heap_parent i)")
    case True
    then have "heap_parent i < length xs"
      using "1.prems" heap_parent_less [of i] by linarith
    moreover have "heap_but_up key (swap_at i (heap_parent i) xs) (heap_parent i)"
      using heap_but_up_step [OF "1.prems"(1) _ "1.prems"(2)] True by simp
    ultimately show ?thesis
      using "1.IH" True by (simp add: sift_up.simps [of key xs i])
  next
    case False
    then have "sift_up key xs i = xs"
      by (subst sift_up.simps) auto
    moreover have "key (xs ! heap_parent j) \<le> key (xs ! j)" if "j < length xs" "0 < j" for j
      using "1.prems"(1) False that by (cases "j = i") (auto simp: heap_but_up_def)
    ultimately show ?thesis
      by (simp add: is_heap_def)
  qed
qed

lemma smaller_child_le:
  assumes "j < length xs" "0 < j" "heap_parent j = i"
  shows "key (xs ! smaller_child key xs i) \<le> key (xs ! j)"
  using assms by (auto simp: smaller_child_def Let_def heap_parent_eq_iff)

lemma smaller_child_eqD:
  assumes "smaller_child key xs i \<noteq> i"
  shows "heap_parent (smaller_child key xs i) = i" "key (xs ! smaller_child key xs i) < key (xs ! i)"
  using assms by (auto simp: smaller_child_def Let_def heap_parent_def split: if_splits)

lemma heap_but_down_step:
  assumes inv: "heap_but_down key xs i" and i: "i < length xs"
    and m: "m = smaller_child key xs i" "m \<noteq> i"
  shows "heap_but_down key (swap_at i m xs) m"
proof -
  let ?ys = "swap_at i m xs"
  have mi: "i < m" "m < length xs"
    using smaller_child_cases [of key xs i] m by auto
  have pm: "heap_parent m = i" and less: "key (xs ! m) < key (xs ! i)"
    using smaller_child_eqD m by blast+
  have nth: "k < length xs \<Longrightarrow> ?ys ! k = (if k = i then xs ! m else if k = m then xs ! i else xs ! k)"
    for k using nth_swap_at [OF i mi(2)] by simp
  have up: "key (xs ! heap_parent j) \<le> key (xs ! j)" if "j < length xs" "0 < j" "heap_parent j \<noteq> i" for j
    using inv that by (simp add: heap_but_down_def)
  have down: "key (xs ! heap_parent i) \<le> key (xs ! j)" if "j < length xs" "0 < j" "heap_parent j = i" "0 < i" for j
    using inv that by (simp add: heap_but_down_def)
  have small: "key (xs ! m) \<le> key (xs ! j)" if "j < length xs" "0 < j" "heap_parent j = i" for j
    using smaller_child_le that m by blast
  have first: "key (?ys ! heap_parent j) \<le> key (?ys ! j)" if j: "j < length xs" "0 < j" "heap_parent j \<noteq> m" for j
  proof -
    have pj: "heap_parent j < length xs"
      using j heap_parent_less [of j] by linarith
    consider "j = m" | "j = i" | "j \<noteq> m" "j \<noteq> i" "heap_parent j = i" | "j \<noteq> m" "j \<noteq> i" "heap_parent j \<noteq> i"
      by blast
    then show ?thesis
    proof cases
      case 1
      with pm mi i less show ?thesis
        by (simp add: nth)
    next
      case 2
      have "heap_parent i < i"
        using 2 j by simp
      then have "heap_parent i \<noteq> i" "key (xs ! heap_parent i) \<le> key (xs ! m)"
        using 2 down [OF mi(2) _ pm] mi by (simp_all del: heap_parent_less)
      with 2 j pj mi show ?thesis
        by (simp add: nth)
    next
      case 3
      then show ?thesis
        using small [OF j(1,2)] j pj mi by (simp add: nth)
    next
      case 4
      then show ?thesis
        using up j pj by (simp add: nth)
    qed
  qed
  have second: "key (?ys ! heap_parent m) \<le> key (?ys ! j)" if j: "j < length xs" "0 < j" "heap_parent j = m" for j
  proof -
    have "j \<noteq> i" "j \<noteq> m"
      using j mi heap_parent_less [of j] by auto
    moreover have "key (xs ! m) \<le> key (xs ! j)"
      using up [OF j(1,2)] j mi by simp
    ultimately show ?thesis
      using j pm i mi by (simp add: nth)
  qed
  show ?thesis
    unfolding heap_but_down_def using first second by simp
qed

lemma sift_down_heap: "heap_but_down key xs i \<Longrightarrow> i < length xs \<Longrightarrow> is_heap key (sift_down key xs i)"
proof (induction key xs i rule: sift_down.induct)
  case (1 key xs i)
  let ?m = "smaller_child key xs i"
  show ?case
  proof (cases "?m = i")
    case True
    have "key (xs ! heap_parent j) \<le> key (xs ! j)" if "j < length xs" "0 < j" for j
      using "1.prems"(1) True that smaller_child_le [of j xs i key]
      by (cases "heap_parent j = i") (auto simp: heap_but_down_def)
    then show ?thesis
      using True by (simp add: sift_down.simps [of key xs i] is_heap_def)
  next
    case False
    have "heap_but_down key (swap_at i ?m xs) ?m"
      using heap_but_down_step [OF "1.prems" refl False] .
    moreover have "?m < length (swap_at i ?m xs)"
      using smaller_child_cases [of key xs i] False by auto
    ultimately show ?thesis
      using "1.IH" [OF refl] False by (simp add: sift_down.simps [of key xs i] Let_def)
  qed
qed

lemma heap_push_heap:
  assumes "is_heap key xs"
  shows "is_heap key (heap_push key x xs)"
proof -
  have "heap_but_up key (xs @ [x]) (length xs)"
    unfolding heap_but_up_def
  proof (intro conjI allI impI, goal_cases)
    case (1 j)
    then have "j < length xs" and "heap_parent j < j"
      by auto
    moreover from this have "heap_parent j < length xs"
      by simp
    ultimately have "j < length xs" "heap_parent j < length xs"
      by simp_all
    with 1 assms show ?case
      by (simp add: is_heap_def nth_append)
  next
    case (2 j)
    then show ?case
      using heap_parent_less [of j] by simp
  qed
  then show ?thesis
    by (simp add: heap_push_def sift_up_heap)
qed

lemma heap_pop_heap:
  assumes h: "is_heap key xs"
  shows "is_heap key (heap_pop key xs)"
proof (cases "length xs \<le> 1")
  case True
  then show ?thesis
    by (simp add: heap_pop_def is_heap_def)
next
  case False
  let ?ys = "last xs # tl (butlast xs)"
  have len: "length ?ys = length xs - 1"
    using False by simp
  have nth: "?ys ! j = xs ! j" if "0 < j" "j < length xs - 1" for j
    using that by (cases j) (simp_all add: nth_tl nth_butlast)
  have "heap_but_down key ?ys 0"
    unfolding heap_but_down_def
  proof (intro conjI allI impI, goal_cases)
    case (1 j)
    then have "heap_parent j < j" "0 < heap_parent j" "j < length xs - 1"
      using len by auto
    moreover from this have "heap_parent j < length xs - 1"
      by linarith
    moreover have "key (xs ! heap_parent j) \<le> key (xs ! j)"
      using h 1 \<open>j < length xs - 1\<close> by (simp add: is_heap_def)
    ultimately show ?case
      using 1 nth [of j] nth [of "heap_parent j"] by simp
  qed simp
  then show ?thesis
    using False by (simp add: heap_pop_def sift_down_heap)
qed

lemma heap_top_least:
  assumes h: "is_heap key xs"
  shows "j < length xs \<Longrightarrow> key (heap_top xs) \<le> key (xs ! j)"
proof (induction j rule: less_induct)
  case (less j)
  show ?case
  proof (cases "j = 0")
    case False
    then have "heap_parent j < j"
      by simp
    moreover from this have "key (heap_top xs) \<le> key (xs ! heap_parent j)"
      using less by simp
    moreover have "key (xs ! heap_parent j) \<le> key (xs ! j)"
      using h less.prems False by (simp add: is_heap_def)
    ultimately show ?thesis
      by simp
  qed (simp add: heap_top_def)
qed

section \<open>The interface\<close>

text \<open>
  A queue ordered by \<open>key\<close>: \<open>elems\<close> abstracts it to a multiset and \<open>ok\<close> is its representation
  invariant. \<open>drain_with\<close> empties a queue of \<open>n\<close> elements from the front, putting each element
  before the ones taken earlier, as the loop of \<^verbatim>\<open>GetLargestFiles\<close> fills its result from the last
  position to the first.
\<close>

fun drain_with :: "('q \<Rightarrow> 'a) \<Rightarrow> ('q \<Rightarrow> 'q) \<Rightarrow> nat \<Rightarrow> 'q \<Rightarrow> 'a list \<Rightarrow> 'a list" where
  "drain_with front pop 0 q res = res"
| "drain_with front pop (Suc n) q res = drain_with front pop n (pop q) (front q # res)"

locale min_queue =
  fixes key :: "'a \<Rightarrow> 'k::linorder"
    and push :: "'a \<Rightarrow> 'q \<Rightarrow> 'q"
    and pop :: "'q \<Rightarrow> 'q"
    and front :: "'q \<Rightarrow> 'a"
    and elems :: "'q \<Rightarrow> 'a multiset"
    and ok :: "'q \<Rightarrow> bool"
  assumes elems_push: "ok q \<Longrightarrow> elems (push x q) = add_mset x (elems q)"
    and elems_pop: "ok q \<Longrightarrow> elems q \<noteq> {#} \<Longrightarrow> elems (pop q) = elems q - {#front q#}"
    and front_in: "ok q \<Longrightarrow> elems q \<noteq> {#} \<Longrightarrow> front q \<in># elems q"
    and front_least: "ok q \<Longrightarrow> x \<in># elems q \<Longrightarrow> key (front q) \<le> key x"
    and ok_push: "ok q \<Longrightarrow> ok (push x q)"
    and ok_pop: "ok q \<Longrightarrow> elems q \<noteq> {#} \<Longrightarrow> ok (pop q)"
begin

lemma elems_replace:
  assumes "ok q" and "elems q \<noteq> {#}"
  shows "elems (push x (pop q)) = add_mset x (elems q - {#front q#})" and "ok (push x (pop q))"
  using assms by (simp_all add: elems_push elems_pop ok_push ok_pop)

lemma key_top_Min:
  assumes "ok q" and "elems q \<noteq> {#}"
  shows "key (front q) = Min (key ` set_mset (elems q))"
  using assms front_in front_least by (intro Min_eqI [symmetric]) auto

lemma drain_mset:
  "ok q \<Longrightarrow> size (elems q) = n \<Longrightarrow> mset (drain_with front pop n q res) = elems q + mset res"
proof (induction n arbitrary: q res)
  case (Suc n)
  then have ne: "elems q \<noteq> {#}"
    by auto
  then have "elems q = add_mset (front q) (elems (pop q))"
    using Suc.prems(1) front_in elems_pop by simp
  moreover have "size (elems (pop q)) = n" "ok (pop q)"
    using Suc.prems ne by (simp_all add: elems_pop front_in size_Diff_singleton ok_pop)
  ultimately show ?case
    using Suc.IH by simp
qed simp

lemma drain_sorted:
  "ok q \<Longrightarrow> size (elems q) = n \<Longrightarrow> sorted_wrt (\<lambda>x y. key y \<le> key x) res \<Longrightarrow>
    (\<forall>x\<in>#elems q. \<forall>y\<in>set res. key y \<le> key x) \<Longrightarrow>
    sorted_wrt (\<lambda>x y. key y \<le> key x) (drain_with front pop n q res)"
proof (induction n arbitrary: q res)
  case (Suc n)
  then have ne: "elems q \<noteq> {#}"
    by auto
  have el: "elems (pop q) = elems q - {#front q#}"
    using Suc.prems(1) ne by (rule elems_pop)
  have "size (elems (pop q)) = n" "ok (pop q)"
    using Suc.prems ne by (simp_all add: elems_pop front_in size_Diff_singleton ok_pop)
  moreover have "sorted_wrt (\<lambda>x y. key y \<le> key x) (front q # res)"
    using Suc.prems ne front_in by auto
  moreover have "key y \<le> key x" if "x \<in># elems (pop q)" "y \<in> set (front q # res)" for x y
  proof -
    have "x \<in># elems q"
      using that(1) unfolding el by (rule in_diffD)
    then show ?thesis
      using that(2) Suc.prems(4) front_least [OF Suc.prems(1)] by auto
  qed
  ultimately show ?case
    using Suc.IH by simp
qed simp

end

interpretation heap: min_queue key "heap_push key" "heap_pop key" heap_top mset "is_heap key"
  for key :: "'a \<Rightarrow> 'k::linorder"
proof (unfold_locales, goal_cases)
  case (3 q)
  then show ?case
    by (simp add: heap_top_def)
next
  case (4 q x)
  then show ?case
    by (metis heap_top_least in_set_conv_nth set_mset_mset)
qed (simp_all add: mset_heap_push mset_heap_pop heap_push_heap heap_pop_heap)

end
