(* ===== verification/Storage.thy ===== *)
theory Storage
  imports FileState PriorityQueue
begin

text \<open>
  \<^verbatim>\<open>TProcInfo\<close> and \<^verbatim>\<open>TOutputFile\<close> of \<^verbatim>\<open>types.h\<close>, and \<^verbatim>\<open>TFileStorage\<close> of \<^verbatim>\<open>storage.h\<close> and
  \<^verbatim>\<open>storage.cpp\<close>: the report's entries, of which a bounded storage keeps the largest, while it
  adds up the sizes of all of them. The lemmas compare it with a reference that remembers every
  entry and sorts.
\<close>

section \<open>Entries\<close>

text \<open>
  A \<^verbatim>\<open>TProcInfo\<close> is constant once made; the report prints its address and tells two of them apart
  by it, so a pointer to one is the address together with the object.
\<close>

record proc_info =
  Pid :: pid
  Ppid :: pid
  CommandName :: string
  CommandLine :: string

type_synonym proc_info_ptr = "nat \<times> proc_info"

record output_file =
  Size :: u64
  OutFilename :: string
  OutProcInfo :: proc_info_ptr

definition OutputOfFile :: "file_state \<Rightarrow> proc_info_ptr \<Rightarrow> output_file" where
  "OutputOfFile file pinfo =
     \<lparr>Size = GetOutputSize file, OutFilename = Filename file, OutProcInfo = pinfo\<rparr>"

definition NewOutputFile :: "string \<Rightarrow> u64 \<Rightarrow> proc_info_ptr \<Rightarrow> output_file" where
  "NewOutputFile filename nbytes pinfo =
     \<lparr>Size = nbytes, OutFilename = filename, OutProcInfo = pinfo\<rparr>"

section \<open>The class TFileStorage\<close>

record file_storage =
  Capacity :: int
  OutputSize :: u64
  StoreEmptyFiles :: bool
  Queue :: "output_file list"

definition NewFileStorage :: "int \<Rightarrow> bool \<Rightarrow> file_storage" where
  "NewFileStorage capacity storeEmptyFiles =
     \<lparr>Capacity = capacity, OutputSize = 0, StoreEmptyFiles = storeEmptyFiles, Queue = []\<rparr>"

definition AddFileEntry :: "output_file \<Rightarrow> file_storage \<Rightarrow> file_storage" where
  "AddFileEntry file st =
     (if Capacity st = 0 then st
      else if \<not> StoreEmptyFiles st \<and> Size file = 0 then st
      else let q = Queue st;
               q' = (if Capacity st < 0 \<or> int (length q) < Capacity st then heap_push Size file q
                     else if Size (heap_top q) < Size file
                          then heap_push Size file (heap_pop Size q)
                          else q)
           in st\<lparr>Queue := q', OutputSize := OutputSize st + Size file\<rparr>)"

definition GetLargestFiles :: "file_storage \<Rightarrow> output_file list" where
  "GetLargestFiles st =
     drain_with heap_top (heap_pop Size) (length (Queue st)) (Queue st) []"

definition GetStorageOutputSize :: "file_storage \<Rightarrow> u64" where
  "GetStorageOutputSize st = OutputSize st"

section \<open>What the storage accepts\<close>

definition accepts :: "file_storage \<Rightarrow> output_file \<Rightarrow> bool" where
  "accepts st file \<longleftrightarrow> Capacity st \<noteq> 0 \<and> (StoreEmptyFiles st \<or> Size file \<noteq> 0)"

lemma AddFileEntry_config [simp]:
  "Capacity (AddFileEntry f st) = Capacity st"
  "StoreEmptyFiles (AddFileEntry f st) = StoreEmptyFiles st"
  by (simp_all add: AddFileEntry_def Let_def)

lemma accepts_AddFileEntry [simp]: "accepts (AddFileEntry f st) g = accepts st g"
  by (simp add: accepts_def)

lemma AddFileEntry_rejected: "\<not> accepts st f \<Longrightarrow> AddFileEntry f st = st"
  by (auto simp: accepts_def AddFileEntry_def)

lemma AddFileEntry_OutputSize:
  "OutputSize (AddFileEntry f st) = OutputSize st + (if Capacity st = 0 then 0 else Size f)"
  by (simp add: AddFileEntry_def Let_def)

text \<open>The heap holds at most \<open>Capacity\<close> entries, and is a heap.\<close>

definition storage_ok :: "file_storage \<Rightarrow> bool" where
  "storage_ok st \<longleftrightarrow> is_heap Size (Queue st) \<and>
     (0 \<le> Capacity st \<longrightarrow> int (length (Queue st)) \<le> Capacity st)"

lemma NewFileStorage_ok: "storage_ok (NewFileStorage cap b)"
  by (simp add: storage_ok_def NewFileStorage_def is_heap_def)

lemma length_heap_push [simp]: "length (heap_push key x xs) = Suc (length xs)"
  by (metis mset_heap_push size_mset size_add_mset)

lemma length_heap_pop: "xs \<noteq> [] \<Longrightarrow> length (heap_pop key xs) = length xs - 1"
  by (cases xs) (simp_all add: heap_pop_def length_sift_down)

lemma AddFileEntry_ok:
  assumes "storage_ok st"
  shows "storage_ok (AddFileEntry f st)"
proof -
  have "int (Suc (length (heap_pop Size (Queue st)))) \<le> Capacity st"
    if "0 < Capacity st" "int (length (Queue st)) = Capacity st"
  proof -
    have "Queue st \<noteq> []"
      using that by auto
    with that show ?thesis
      by (simp add: length_heap_pop)
  qed
  with assms show ?thesis
    by (auto simp: storage_ok_def AddFileEntry_def Let_def intro!: heap_push_heap heap_pop_heap)
qed

definition AddFileEntries :: "output_file list \<Rightarrow> file_storage \<Rightarrow> file_storage" where
  "AddFileEntries fs st = fold AddFileEntry fs st"

lemma AddFileEntries_ok: "storage_ok st \<Longrightarrow> storage_ok (AddFileEntries fs st)"
  unfolding AddFileEntries_def by (induction fs arbitrary: st) (simp_all add: AddFileEntry_ok)

lemma AddFileEntries_OutputSize:
  assumes "Capacity st \<noteq> 0"
  shows "OutputSize (AddFileEntries fs st) = OutputSize st + sum_list (map Size fs)"
  using assms unfolding AddFileEntries_def
  by (induction fs arbitrary: st) (simp_all add: AddFileEntry_OutputSize add.assoc)

section \<open>The largest entries\<close>

lemma GetLargestFiles_mset: "storage_ok st \<Longrightarrow> mset (GetLargestFiles st) = mset (Queue st)"
  by (simp add: GetLargestFiles_def storage_ok_def heap.drain_mset)

lemma GetLargestFiles_sorted:
  "storage_ok st \<Longrightarrow> sorted_wrt (\<lambda>f g. Size g \<le> Size f) (GetLargestFiles st)"
  by (simp add: GetLargestFiles_def storage_ok_def heap.drain_sorted)

text \<open>The reference: sort every size in descending order and keep the first \<open>k\<close>.\<close>

definition largest :: "nat \<Rightarrow> 'k::linorder list \<Rightarrow> 'k list" where
  "largest k xs = take k (rev (sort xs))"

lemma insort_after:
  "\<forall>a\<in>set as. a < x \<Longrightarrow> insort x (as @ zs) = as @ insort x zs"
  by (induction as) (auto simp: not_le)

lemma insort_before:
  "x \<le> m \<Longrightarrow> insort x (as @ m # bs) = insort x as @ m # bs"
  by (induction as) auto

lemma largest_all: "length xs \<le> k \<Longrightarrow> mset (largest k xs) = mset xs"
  by (simp add: largest_def)

lemma length_largest: "length (largest k xs) = min k (length xs)"
  by (simp add: largest_def)

text \<open>One more size either displaces the least of a full selection or is dropped.\<close>

lemma largest_insert:
  fixes x :: "'k::linorder"
  assumes k: "0 < k" "k \<le> length xs"
  defines "L \<equiv> largest k xs"
  shows "mset (largest k (x # xs)) =
    (if Min (set L) < x then add_mset x (mset L - {#Min (set L)#}) else mset L)"
proof -
  define n where "n = length xs - k"
  obtain as m bs where split: "sort xs = as @ m # bs" and len: "length as = n"
  proof
    have "n < length (sort xs)"
      using k by (simp add: n_def)
    then show "sort xs = take n (sort xs) @ sort xs ! n # drop (Suc n) (sort xs)"
      by (rule id_take_nth_drop)
    show "length (take n (sort xs)) = n"
      using k by (simp add: n_def)
  qed
  have k': "k = Suc (length bs)"
    using arg_cong [OF split, of length] len k by (simp add: n_def)
  have srt: "sorted (as @ m # bs)"
    by (simp flip: split)
  have L: "L = rev (m # bs)"
    by (simp add: L_def largest_def split k')
  have m: "Min (set L) = m"
    using srt by (intro Min_eqI) (auto simp: L sorted_append)
  show ?thesis
  proof (cases "m < x")
    case True
    then have "\<forall>a\<in>set (as @ [m]). a < x"
      using srt by (auto simp: sorted_append)
    then have "sort (x # xs) = (as @ [m]) @ insort x bs"
      using insort_after [of "as @ [m]" x bs] by (simp add: split)
    then have "largest k (x # xs) = rev (insort x bs)"
      by (simp add: largest_def k')
    with True m show ?thesis
      by (simp add: L)
  next
    case False
    then have "sort (x # xs) = insort x as @ m # bs"
      by (simp add: split insort_before)
    then have "largest k (x # xs) = rev (m # bs)"
      by (simp add: largest_def k')
    with False m show ?thesis
      by (simp add: L)
  qed
qed

lemma largest_mset_cong: "mset xs = mset ys \<Longrightarrow> largest k xs = largest k ys"
  unfolding largest_def by (metis mset_sort properties_for_sort sorted_sort)

text \<open>The sizes in the queue are the largest of the accepted sizes \<open>xs\<close>.\<close>

definition holds_largest :: "u64 list \<Rightarrow> file_storage \<Rightarrow> bool" where
  "holds_largest xs st \<longleftrightarrow> storage_ok st \<and>
     image_mset Size (mset (Queue st)) =
       (if Capacity st < 0 then mset xs else mset (largest (nat (Capacity st)) xs))"

lemma holds_largest_new: "holds_largest [] (NewFileStorage cap b)"
  unfolding holds_largest_def by (simp add: NewFileStorage_ok) (simp add: NewFileStorage_def largest_def)

lemma holds_largest_length:
  assumes "holds_largest xs st" "0 \<le> Capacity st"
  shows "length (Queue st) = min (nat (Capacity st)) (length xs)"
proof -
  have "size (image_mset Size (mset (Queue st))) = size (mset (largest (nat (Capacity st)) xs))"
    using assms by (simp add: holds_largest_def)
  then show ?thesis
    by (simp add: length_largest)
qed

lemma holds_largest_add:
  assumes inv: "holds_largest xs st" and acc: "accepts st f"
  shows "holds_largest (Size f # xs) (AddFileEntry f st)"
proof -
  let ?q = "Queue st" and ?k = "nat (Capacity st)"
  have ok: "storage_ok st" and hp: "is_heap Size ?q"
    using inv by (simp_all add: holds_largest_def storage_ok_def)
  have cap: "Capacity st \<noteq> 0"
    using acc by (simp add: accepts_def)
  have unfold: "Queue (AddFileEntry f st) =
     (if Capacity st < 0 \<or> int (length ?q) < Capacity st then heap_push Size f ?q
      else if Size (heap_top ?q) < Size f then heap_push Size f (heap_pop Size ?q) else ?q)"
    using acc by (auto simp: AddFileEntry_def accepts_def Let_def)
  consider (free) "Capacity st < 0" | (room) "0 < Capacity st" "length xs < ?k"
    | (full) "0 < Capacity st" "?k \<le> length xs"
    using cap by linarith
  then have "image_mset Size (mset (Queue (AddFileEntry f st))) =
    (if Capacity st < 0 then mset (Size f # xs) else mset (largest ?k (Size f # xs)))"
  proof cases
    case free
    with inv unfold show ?thesis
      by (simp add: mset_heap_push holds_largest_def)
  next
    case room
    then have "int (length ?q) < Capacity st"
      using holds_largest_length [OF inv] by simp
    with room inv unfold show ?thesis
      by (simp add: mset_heap_push holds_largest_def largest_all)
  next
    case full
    then have len: "length ?q = ?k" and ne: "mset ?q \<noteq> {#}" and nl: "\<not> int (length ?q) < Capacity st"
      using holds_largest_length [OF inv] by auto
    have q: "image_mset Size (mset ?q) = mset (largest ?k xs)"
      using inv full by (simp add: holds_largest_def)
    have "Size ` set ?q = set (largest ?k xs)"
      using arg_cong [OF q, of set_mset] by simp
    then have least: "Min (set (largest ?k xs)) = Size (heap_top ?q)"
      using heap.key_top_Min [OF hp ne] by simp
    have "image_mset Size (mset ?q - {#heap_top ?q#}) = mset (largest ?k xs) - {#Size (heap_top ?q)#}"
      using heap.front_in [OF hp ne] by (simp add: image_mset_Diff q)
    moreover have "0 < ?k"
      using full by simp
    ultimately show ?thesis
      using largest_insert [of ?k xs "Size f"] full unfold nl q least heap.elems_replace(1) [OF hp ne]
      by simp
  qed
  with ok show ?thesis
    by (simp add: holds_largest_def AddFileEntry_ok)
qed

lemma holds_largest_all:
  "holds_largest xs st \<Longrightarrow>
    holds_largest (rev (map Size (filter (accepts st) fs)) @ xs) (AddFileEntries fs st)"
  unfolding AddFileEntries_def
proof (induction fs arbitrary: xs st)
  case (Cons f fs)
  show ?case
  proof (cases "accepts st f")
    case True
    have "accepts (AddFileEntry f st) = accepts st"
      by (simp add: fun_eq_iff)
    with Cons.IH [OF holds_largest_add [OF Cons.prems True]] True show ?thesis
      by simp
  next
    case False
    with Cons show ?thesis
      by (simp add: AddFileEntry_rejected)
  qed
qed simp

lemma sorted_desc_unique:
  assumes "sorted_wrt (\<lambda>x y. y \<le> x) xs" and "sorted_wrt (\<lambda>x y. y \<le> x) ys"
    and "mset xs = mset (ys :: 'k::linorder list)"
  shows "xs = ys"
proof -
  have "sorted (rev xs)" "sorted (rev ys)" "mset (rev xs) = mset (rev ys)"
    using assms by (simp_all add: sorted_wrt_rev)
  then have "rev xs = rev ys"
    by (metis properties_for_sort)
  then show ?thesis
    by simp
qed

lemma largest_sorted: "sorted_wrt (\<lambda>x y. y \<le> x) (largest k xs)"
  unfolding largest_def by (rule sorted_wrt_take) (simp add: sorted_wrt_rev)

lemma GetLargestFiles_sizes:
  assumes "holds_largest xs st" "0 \<le> Capacity st"
  shows "map Size (GetLargestFiles st) = largest (nat (Capacity st)) xs"
proof (rule sorted_desc_unique)
  have ok: "storage_ok st"
    using assms by (simp add: holds_largest_def)
  show "sorted_wrt (\<lambda>x y. y \<le> x) (map Size (GetLargestFiles st))"
    using GetLargestFiles_sorted [OF ok] by (simp add: sorted_wrt_map)
  have "mset (map Size (GetLargestFiles st)) = image_mset Size (mset (Queue st))"
    using GetLargestFiles_mset [OF ok] by simp
  then show "mset (map Size (GetLargestFiles st)) = mset (largest (nat (Capacity st)) xs)"
    using assms by (simp add: holds_largest_def)
qed (rule largest_sorted)

end
