(* ===== verification/Registers.thy ===== *)
theory Registers
  imports Prelude
begin

text \<open>
  The registers of a stopped tracee and the system calls the tracer acts on: \<^verbatim>\<open>regs.h\<close>,
  \<^verbatim>\<open>syscall.h\<close> and the first two functions of \<^verbatim>\<open>syscall.cpp\<close>. The \<^verbatim>\<open>#if\<close> blocks for the two
  targets become a case distinction on \<open>arch\<close>. A \<^verbatim>\<open>user_regs_struct\<close> is read as its sequence of
  64-bit words: on x86-64 word \<open>n\<close> is the register that \<^verbatim>\<open>regs.h\<close> numbers \<open>n\<close>, on aarch64
  it is \<^verbatim>\<open>regs[n]\<close>.
\<close>

datatype arch = X86_64 | AArch64

type_synonym user_regs = "nat \<Rightarrow> u64"

section \<open>Registers\<close>

definition R10 :: nat where "R10 = 7"
definition RAX :: nat where "RAX = 10"
definition RDX :: nat where "RDX = 12"
definition RSI :: nat where "RSI = 13"
definition RDI :: nat where "RDI = 14"
definition ORIG_RAX :: nat where "ORIG_RAX = 15"

lemmas reg_defs = R10_def RAX_def RDX_def RSI_def RDI_def ORIG_RAX_def

definition SYSCALL_NR :: "arch \<Rightarrow> user_regs \<Rightarrow> u64" where
  "SYSCALL_NR a regs = (case a of X86_64 \<Rightarrow> regs ORIG_RAX | AArch64 \<Rightarrow> regs 8)"

definition SYSCALL_RETDATA :: "arch \<Rightarrow> user_regs \<Rightarrow> u64" where
  "SYSCALL_RETDATA a regs = (case a of X86_64 \<Rightarrow> regs RAX | AArch64 \<Rightarrow> regs 0)"

definition SYSCALL_ARG0 :: "arch \<Rightarrow> user_regs \<Rightarrow> u64" where
  "SYSCALL_ARG0 a regs = (case a of X86_64 \<Rightarrow> regs RDI | AArch64 \<Rightarrow> regs 9)"

definition SYSCALL_ARG1 :: "arch \<Rightarrow> user_regs \<Rightarrow> u64" where
  "SYSCALL_ARG1 a regs = (case a of X86_64 \<Rightarrow> regs RSI | AArch64 \<Rightarrow> regs 1)"

definition SYSCALL_ARG2 :: "arch \<Rightarrow> user_regs \<Rightarrow> u64" where
  "SYSCALL_ARG2 a regs = (case a of X86_64 \<Rightarrow> regs RDX | AArch64 \<Rightarrow> regs 2)"

definition SYSCALL_ARG3 :: "arch \<Rightarrow> user_regs \<Rightarrow> u64" where
  "SYSCALL_ARG3 a regs = (case a of X86_64 \<Rightarrow> regs R10 | AArch64 \<Rightarrow> regs 3)"

section \<open>System calls\<close>

text \<open>The numbers of \<^verbatim>\<open>sys/syscall.h\<close> that the tracer uses; \<^verbatim>\<open>creat\<close>, \<^verbatim>\<open>open\<close> and \<^verbatim>\<open>dup2\<close> exist on x86-64 only.\<close>

definition SYS_write :: "arch \<Rightarrow> u64" where "SYS_write a = (case a of X86_64 \<Rightarrow> 1 | AArch64 \<Rightarrow> 64)"
definition SYS_writev :: "arch \<Rightarrow> u64" where "SYS_writev a = (case a of X86_64 \<Rightarrow> 20 | AArch64 \<Rightarrow> 66)"
definition SYS_pwritev :: "arch \<Rightarrow> u64" where "SYS_pwritev a = (case a of X86_64 \<Rightarrow> 296 | AArch64 \<Rightarrow> 70)"
definition SYS_pwrite64 :: "arch \<Rightarrow> u64" where "SYS_pwrite64 a = (case a of X86_64 \<Rightarrow> 18 | AArch64 \<Rightarrow> 68)"
definition SYS_pwritev2 :: "arch \<Rightarrow> u64" where "SYS_pwritev2 a = (case a of X86_64 \<Rightarrow> 328 | AArch64 \<Rightarrow> 287)"
definition SYS_creat :: u64 where "SYS_creat = 85"
definition SYS_open :: u64 where "SYS_open = 2"
definition SYS_openat :: "arch \<Rightarrow> u64" where "SYS_openat a = (case a of X86_64 \<Rightarrow> 257 | AArch64 \<Rightarrow> 56)"
definition SYS_close :: "arch \<Rightarrow> u64" where "SYS_close a = (case a of X86_64 \<Rightarrow> 3 | AArch64 \<Rightarrow> 57)"
definition SYS_fcntl :: "arch \<Rightarrow> u64" where "SYS_fcntl a = (case a of X86_64 \<Rightarrow> 72 | AArch64 \<Rightarrow> 25)"
definition SYS_dup :: "arch \<Rightarrow> u64" where "SYS_dup a = (case a of X86_64 \<Rightarrow> 32 | AArch64 \<Rightarrow> 23)"
definition SYS_dup2 :: u64 where "SYS_dup2 = 33"
definition SYS_dup3 :: "arch \<Rightarrow> u64" where "SYS_dup3 a = (case a of X86_64 \<Rightarrow> 292 | AArch64 \<Rightarrow> 24)"
definition SYS_fallocate :: "arch \<Rightarrow> u64" where "SYS_fallocate a = (case a of X86_64 \<Rightarrow> 285 | AArch64 \<Rightarrow> 47)"
definition SYS_ftruncate :: "arch \<Rightarrow> u64" where "SYS_ftruncate a = (case a of X86_64 \<Rightarrow> 77 | AArch64 \<Rightarrow> 46)"
definition SYS_lseek :: "arch \<Rightarrow> u64" where "SYS_lseek a = (case a of X86_64 \<Rightarrow> 8 | AArch64 \<Rightarrow> 62)"

lemmas sysno_defs =
  SYS_write_def SYS_writev_def SYS_pwritev_def SYS_pwrite64_def SYS_pwritev2_def SYS_creat_def
  SYS_open_def SYS_openat_def SYS_close_def SYS_fcntl_def SYS_dup_def SYS_dup2_def SYS_dup3_def
  SYS_fallocate_def SYS_ftruncate_def SYS_lseek_def

text \<open>The commands of \<^verbatim>\<open>fcntl\<close> in \<^verbatim>\<open>fcntl.h\<close>.\<close>

definition F_DUPFD :: u64 where "F_DUPFD = 0"
definition F_GETFD :: u64 where "F_GETFD = 1"
definition F_SETFD :: u64 where "F_SETFD = 2"
definition F_GETFL :: u64 where "F_GETFL = 3"
definition F_SETFL :: u64 where "F_SETFL = 4"
definition F_DUPFD_CLOEXEC :: u64 where "F_DUPFD_CLOEXEC = 1030"

lemmas fcntl_defs = F_DUPFD_def F_GETFD_def F_SETFD_def F_GETFL_def F_SETFL_def F_DUPFD_CLOEXEC_def

section \<open>Reading the system call of a stop\<close>

definition ENOSYS :: int where "ENOSYS = 38"

text \<open>
  On x86-64 the kernel keeps \<^verbatim>\<open>-ENOSYS\<close> in the result register until the system call returns, so
  any other value means that the stop is not a system call's entry.
\<close>

definition GetSyscallNumber :: "arch \<Rightarrow> user_regs \<Rightarrow> int" where
  "GetSyscallNumber a regs =
     (if a = X86_64 \<and> as_int (regs RAX) \<noteq> - ENOSYS then -2 else sint (SYSCALL_NR a regs))"

end
