(* ===== verification/Utils.thy ===== *)
theory Utils
  imports FileState
begin

text \<open>
  \<^verbatim>\<open>utils.cpp\<close>: strings, \<^verbatim>\<open>/proc\<close> and the tracer's own descriptors. What the operating system
  answers at one moment is a record \<open>os\<close> of functions, one per system call, and every operation
  that makes such calls takes it as an argument.
\<close>

section \<open>The operating system\<close>

text \<open>
  One \<^verbatim>\<open>read(2)\<close> of \<^verbatim>\<open>/proc/self/status\<close>: interrupted by a signal, failed, or the next bytes
  (none at the end of the file).
\<close>

datatype read_result = Interrupted | ReadFailed | ReadBytes string

record os =
  Stat :: "string \<Rightarrow> u64 option" \<comment> \<open>\<^verbatim>\<open>stat\<close>: the size\<close>
  LinkTarget :: "string \<Rightarrow> string option" \<comment> \<open>\<^verbatim>\<open>readlink\<close>\<close>
  FileText :: "string \<Rightarrow> string option" \<comment> \<open>contents of a readable file\<close>
  WorkingDir :: "string option" \<comment> \<open>\<^verbatim>\<open>getcwd\<close>\<close>
  DirEntries :: "string \<Rightarrow> (string \<times> bool) list option" \<comment> \<open>\<^verbatim>\<open>opendir/readdir\<close>: name, is it \<^verbatim>\<open>DT_REG\<close>\<close>
  FnMatch :: "string \<Rightarrow> string \<Rightarrow> bool" \<comment> \<open>\<^verbatim>\<open>fnmatch(pattern, name, FNM_NOESCAPE) == 0\<close>\<close>
  FdFlags :: "int \<Rightarrow> int" \<comment> \<open>\<^verbatim>\<open>fcntl(fd, F_GETFD)\<close>, negative when closed\<close>
  FdRegular :: "int \<Rightarrow> bool option" \<comment> \<open>\<^verbatim>\<open>fstat\<close>: is it a regular file\<close>
  StatusReads :: "read_result list" \<comment> \<open>the reads of \<^verbatim>\<open>/proc/self/status\<close>\<close>

section \<open>Decimal numbers\<close>

definition digit :: "nat \<Rightarrow> char" where
  "digit d = char_of (48 + d)"

definition is_digit :: "char \<Rightarrow> bool" where
  "is_digit c \<longleftrightarrow> 48 \<le> (of_char c :: nat) \<and> (of_char c :: nat) \<le> 57"

fun show_nat :: "nat \<Rightarrow> string" where
  "show_nat n = (if n < 10 then [digit n] else show_nat (n div 10) @ [digit (n mod 10)])"

declare show_nat.simps [simp del]

definition show_int :: "int \<Rightarrow> string" where
  "show_int i = (if i < 0 then CHR ''-'' # show_nat (nat (- i)) else show_nat (nat i))"

text \<open>
  \<^verbatim>\<open>atoi\<close>: leading blanks, an optional sign, then the digits up to the first other character. A
  number that does not fit an \<^verbatim>\<open>int\<close>, for which C leaves the result open, is kept as it is.
\<close>

definition digits_value :: "string \<Rightarrow> nat" where
  "digits_value ds = foldl (\<lambda>v c. 10 * v + (of_char c - 48)) 0 ds"

definition is_blank :: "char \<Rightarrow> bool" where
  "is_blank c \<longleftrightarrow> c = CHR '' '' \<or> (9 \<le> (of_char c :: nat) \<and> (of_char c :: nat) \<le> 13)"

definition atoi :: "string \<Rightarrow> int" where
  "atoi s = (case dropWhile is_blank s of
       [] \<Rightarrow> 0
     | c # cs \<Rightarrow>
         if c = CHR ''-'' then - int (digits_value (takeWhile is_digit cs))
         else if c = CHR ''+'' then int (digits_value (takeWhile is_digit cs))
         else int (digits_value (takeWhile is_digit (c # cs))))"

lemma of_char_digit [simp]: "d < 10 \<Longrightarrow> (of_char (digit d) :: nat) = 48 + d"
  by (simp add: digit_def)

lemma is_digit_digit [simp]: "d < 10 \<Longrightarrow> is_digit (digit d)"
  by (simp add: is_digit_def)

lemma show_nat_digits: "list_all is_digit (show_nat n)"
proof (induction n rule: show_nat.induct)
  case (1 n)
  then show ?case
    by (subst show_nat.simps) simp
qed

lemma show_nat_nonempty [simp]: "show_nat n \<noteq> []"
  by (subst show_nat.simps) simp

lemma digits_value_append: "digits_value (xs @ [c]) = 10 * digits_value xs + (of_char c - 48)"
  by (simp add: digits_value_def)

lemma digits_value_show_nat [simp]: "digits_value (show_nat n) = n"
proof (induction n rule: show_nat.induct)
  case (1 n)
  then show ?case
    by (subst show_nat.simps) (simp add: digits_value_append, simp add: digits_value_def)
qed

lemma takeWhile_show_nat [simp]: "takeWhile is_digit (show_nat n) = show_nat n"
  using show_nat_digits by (simp add: list_all_iff)

lemma show_nat_inject [simp]: "show_nat m = show_nat n \<longleftrightarrow> m = n"
  by (metis digits_value_show_nat)

lemma digit_not_special: "is_digit c \<Longrightarrow> \<not> is_blank c \<and> c \<noteq> CHR ''-'' \<and> c \<noteq> CHR ''+'' \<and> c \<noteq> CHR ''/''"
  by (auto simp: is_digit_def is_blank_def)

lemma atoi_show_int: "atoi (show_int i) = i"
proof -
  obtain c cs where s: "show_nat (nat \<bar>i\<bar>) = c # cs"
    by (cases "show_nat (nat \<bar>i\<bar>)") simp_all
  have "is_digit c"
    using show_nat_digits [of "nat \<bar>i\<bar>"] s by simp
  note c = digit_not_special [OF this]
  have v: "digits_value (takeWhile is_digit (c # cs)) = nat \<bar>i\<bar>"
    by (simp flip: s)
  show ?thesis
  proof (cases "i < 0")
    case True
    have "\<not> is_blank CHR ''-''"
      by (simp add: is_blank_def)
    with True s v show ?thesis
      by (simp add: atoi_def show_int_def)
  next
    case False
    with s v c show ?thesis
      by (simp add: atoi_def show_int_def)
  qed
qed

section \<open>Strings\<close>

definition is_ws :: "char \<Rightarrow> bool" where
  "is_ws c \<longleftrightarrow> c \<in> {CHR '' '', CHR 0x09, CHR 0x0A, CHR 0x0D}"

definition StripString :: "string \<Rightarrow> string" where
  "StripString str = dropWhile is_ws (rev (dropWhile is_ws (rev str)))"

text \<open>\<open>rfind_slash\<close> splits a name at its last slash; \<open>None\<close> is \<^verbatim>\<open>npos\<close>.\<close>

definition rfind_slash :: "string \<Rightarrow> (string \<times> string) option" where
  "rfind_slash s =
     (if CHR ''/'' \<in> set s
      then Some (rev (tl (dropWhile (\<lambda>c. c \<noteq> CHR ''/'') (rev s))),
                 rev (takeWhile (\<lambda>c. c \<noteq> CHR ''/'') (rev s)))
      else None)"

definition GetDirName :: "string \<Rightarrow> string" where
  "GetDirName filename = (case rfind_slash filename of None \<Rightarrow> ''/'' | Some (dir, base) \<Rightarrow> dir)"

definition GetBaseName :: "string \<Rightarrow> string" where
  "GetBaseName filename = (case rfind_slash filename of None \<Rightarrow> [] | Some (dir, base) \<Rightarrow> base)"

lemma rfind_slash_Some:
  "rfind_slash s = Some (d, b) \<Longrightarrow> s = d @ ''/'' @ b \<and> CHR ''/'' \<notin> set b"
proof -
  assume a: "rfind_slash s = Some (d, b)"
  let ?ns = "\<lambda>c. c \<noteq> CHR ''/''"
  have m: "CHR ''/'' \<in> set (rev s)"
    using a by (simp add: rfind_slash_def split: if_splits)
  then have ne: "dropWhile ?ns (rev s) \<noteq> []"
    by auto
  then obtain c t where t: "dropWhile ?ns (rev s) = c # t"
    by (cases "dropWhile ?ns (rev s)") simp_all
  with ne have c: "c = CHR ''/''"
    using hd_dropWhile [of ?ns "rev s"] by simp
  have "takeWhile ?ns (rev s) @ c # t = rev s"
    using takeWhile_dropWhile_id [of ?ns "rev s"] unfolding t .
  from arg_cong [OF this, of rev] have "s = rev t @ c # rev (takeWhile ?ns (rev s))"
    by simp
  moreover have "d = rev t" "b = rev (takeWhile ?ns (rev s))"
    using a m t by (simp_all add: rfind_slash_def)
  moreover have "CHR ''/'' \<notin> set (takeWhile ?ns (rev s))"
    by (auto dest: set_takeWhileD)
  ultimately show ?thesis
    using c by simp
qed

lemma rfind_slash_None: "rfind_slash s = None \<longleftrightarrow> CHR ''/'' \<notin> set s"
  by (simp add: rfind_slash_def)

lemma StripString_ends:
  assumes "StripString s \<noteq> []"
  shows "\<not> is_ws (hd (StripString s))" and "\<not> is_ws (last (StripString s))"
proof -
  let ?t = "dropWhile is_ws (rev s)"
  show "\<not> is_ws (hd (StripString s))"
    using assms unfolding StripString_def by (simp add: hd_dropWhile)
  have "?t \<noteq> []"
    using assms unfolding StripString_def by (metis dropWhile.simps(1) rev.simps(1))
  moreover from this have "last (StripString s) = hd ?t"
    using assms unfolding StripString_def
    by (metis last_appendR last_rev takeWhile_dropWhile_id)
  ultimately show "\<not> is_ws (last (StripString s))"
    by (simp add: hd_dropWhile)
qed

lemma StripString_idem [simp]: "StripString (StripString s) = StripString s"
proof (cases "StripString s = []")
  case False
  have "dropWhile is_ws (rev (StripString s)) = rev (StripString s)"
    using StripString_ends(2) [OF False] False by (cases "rev (StripString s)") (simp_all add: last_rev)
  moreover have "dropWhile is_ws (StripString s) = StripString s"
    using StripString_ends(1) [OF False] by (cases "StripString s") simp_all
  ultimately show ?thesis
    by (simp add: StripString_def [of "StripString s"])
next
  case True
  then show ?thesis
    by (simp add: StripString_def [of "[]"])
qed

section \<open>Files under /proc\<close>

definition ReadFileSafe :: "os \<Rightarrow> string \<Rightarrow> int \<Rightarrow> string" where
  "ReadFileSafe os filename limit =
     (case FileText os filename of
        None \<Rightarrow> []
      | Some txt \<Rightarrow>
          let res = (if limit < 0 then txt else if limit > 0 then take (nat limit) txt else [])
          in StripString res)"

definition GetCwd :: "os \<Rightarrow> string" where
  "GetCwd os = (case WorkingDir os of Some dir \<Rightarrow> dir | None \<Rightarrow> [])"

definition ReadLink :: "os \<Rightarrow> string \<Rightarrow> failure + string" where
  "ReadLink os filename =
     (case LinkTarget os filename of Some target \<Rightarrow> Inr target | None \<Rightarrow> Inl (Exit 2))"

definition GetCommandLine :: "os \<Rightarrow> pid \<Rightarrow> int \<Rightarrow> string" where
  "GetCommandLine os pid limit =
     map (\<lambda>s. if s = CHR 0x00 then CHR '' '' else s)
       (ReadFileSafe os (''/proc/'' @ show_int pid @ ''/cmdline'') limit)"

definition IsFile :: "os \<Rightarrow> int \<Rightarrow> failure + bool" where
  "IsFile os fd =
     (case FdRegular os fd of None \<Rightarrow> Inl (Assertion ''fstat(fd, &st) >= 0'') | Some b \<Rightarrow> Inr b)"

lemma length_StripString: "length (StripString s) \<le> length s"
  unfolding StripString_def
  using length_dropWhile_le [of is_ws "rev (dropWhile is_ws (rev s))"]
    length_dropWhile_le [of is_ws "rev s"] by simp

lemma length_ReadFileSafe:
  "0 \<le> limit \<Longrightarrow> length (ReadFileSafe os f limit) \<le> nat limit"
  using length_StripString [of "take (nat limit) (the (FileText os f))"]
  by (auto simp: ReadFileSafe_def StripString_def split: option.splits)

section \<open>The highest open descriptor\<close>

text \<open>
  \<^verbatim>\<open>MyHighestFd\<close> reads \<^verbatim>\<open>/proc/self/status\<close> into \<^verbatim>\<open>char line[512]\<close>. \<open>read_status\<close> is its first
  loop: \<open>size\<close> bytes read so far, \<open>line\<close> the buffer's contents. The target of each read is
  \<^verbatim>\<open>&line + size\<close>, which points \<^verbatim>\<open>size\<close> whole arrays (not bytes) after the buffer, so a read with
  \<open>size \<noteq> 0\<close> writes outside it. A list of reads that runs out stands for the end of the file.
\<close>

definition status_limit :: int where
  "status_limit = 511"

fun read_status :: "read_result list \<Rightarrow> int \<Rightarrow> string \<Rightarrow> failure + string" where
  "read_status rs nread line =
     (if \<not> nread < status_limit then Inr line
      else case rs of
        [] \<Rightarrow> Inr line
      | Interrupted # rs' \<Rightarrow> read_status rs' nread line
      | ReadFailed # rs' \<Rightarrow> Inr line
      | ReadBytes bytes # rs' \<Rightarrow>
          let got = take (nat (status_limit - nread)) bytes
          in if got = [] then Inr line
             else if nread \<noteq> 0 then Inl (Undefined ''write outside line'')
             else read_status rs' (nread + int (length got)) got)"

declare read_status.simps [simp del]

text \<open>\<^verbatim>\<open>strstr\<close>: the text after the first occurrence of the needle.\<close>

fun after_first :: "string \<Rightarrow> string \<Rightarrow> string option" where
  "after_first needle s =
     (if take (length needle) s = needle then Some (drop (length needle) s)
      else case s of [] \<Rightarrow> None | c # cs \<Rightarrow> after_first needle cs)"

declare after_first.simps [simp del]

text \<open>\<^verbatim>\<open>parseLine\<close>: with no digit in the rest of the buffer the scan leaves it.\<close>

definition parseLine :: "string \<Rightarrow> failure + int" where
  "parseLine line =
     (case dropWhile (\<lambda>c. \<not> is_digit c) line of
        [] \<Rightarrow> Inl (Undefined ''scan outside line'')
      | c # cs \<Rightarrow> Inr (int (digits_value (takeWhile is_digit (c # cs)))))"

text \<open>The second loop: from \<^verbatim>\<open>FDSize\<close> down to the first open descriptor, or -1.\<close>

fun highest_from :: "(int \<Rightarrow> int) \<Rightarrow> nat \<Rightarrow> int" where
  "highest_from fcntl 0 = - 1"
| "highest_from fcntl (Suc fd) = (if fcntl (int fd) \<ge> 0 then int fd else highest_from fcntl fd)"

definition MyHighestFd :: "os \<Rightarrow> failure + int" where
  "MyHighestFd os =
     bindR (read_status (StatusReads os) 0 []) (\<lambda>line.
       case after_first ''FDSize:'' line of
         None \<Rightarrow> Inl (Assertion ''fdsize'')
       | Some rest \<Rightarrow>
           bindR (parseLine rest) (\<lambda>fd. Inr (highest_from (FdFlags os) (nat (fd + 1)))))"

lemma highest_from_spec:
  "highest_from fcntl n < int n \<and> - 1 \<le> highest_from fcntl n \<and>
   (0 \<le> highest_from fcntl n \<longrightarrow> 0 \<le> fcntl (highest_from fcntl n)) \<and>
   (\<forall>fd. highest_from fcntl n < fd \<and> fd < int n \<longrightarrow> fcntl fd < 0)"
proof (induction n)
  case (Suc n)
  show ?case
  proof (cases "fcntl (int n) \<ge> 0")
    case False
    have "fcntl fd < 0" if "highest_from fcntl n < fd" "fd < int (Suc n)" for fd
      using that Suc False by (cases "fd = int n") auto
    with Suc False show ?thesis
      by simp
  qed auto
qed simp

text \<open>A first read shorter than the buffer sends the next one outside it.\<close>

lemma read_status_short_read:
  assumes "0 < length bytes" "length bytes < 511" "0 < length bytes2"
  shows "read_status (ReadBytes bytes # ReadBytes bytes2 # rs) 0 [] = Inl (Undefined ''write outside line'')"
  using assms
  by (simp add: read_status.simps [of "_ # _"] status_limit_def Let_def take_Cons' split: list.splits)

lemma read_status_full_read:
  assumes "511 \<le> length bytes"
  shows "read_status (ReadBytes bytes # rs) 0 [] = Inr (take 511 bytes)"
  using assms
  by (auto simp: read_status.simps [of "_ # _"] read_status.simps [of _ 511] status_limit_def
      Let_def)

end
