(* ===== verification/Cores.thy ===== *)
theory Cores
  imports Utils
begin

text \<open>
  \<^verbatim>\<open>cores.cpp\<close>: where the core dump of a killed process should be. The pattern of
  \<^verbatim>\<open>/proc/sys/kernel/core_pattern\<close> and four well-known places are resolved to file name masks, and
  the first regular file that matches one of them is returned, the empty string when there is none.
\<close>

record core_pattern =
  Path :: string
  Mask :: string

section \<open>Masks\<close>

text \<open>
  \<^verbatim>\<open>ResolveMask\<close> replaces the \<^verbatim>\<open>%\<close> specifiers of \<^verbatim>\<open>core(5)\<close>. After a \<^verbatim>\<open>%\<close> that ends the mask the
  iterator stands on the end, whose character is 0; the loop then moves it past the end and reads on.
\<close>

fun ResolveMask :: "pid \<Rightarrow> string \<Rightarrow> int \<Rightarrow> string \<Rightarrow> failure + string" where
  "ResolveMask pid comm termSig [] = Inr []"
| "ResolveMask pid comm termSig (c # cs) =
     (if c = CHR ''%'' then
        (case cs of
           [] \<Rightarrow> Inl (Undefined ''iterator past the end of mask'')
         | d # ds \<Rightarrow>
             let out = (if d = CHR 0x00 then []
                        else if d = CHR ''%'' then [d]
                        else if d = CHR ''p'' then show_int pid
                        else if d = CHR ''e'' then comm
                        else if d = CHR ''s'' then show_int termSig
                        else ''*'')
             in bindR (ResolveMask pid comm termSig ds) (\<lambda>res. Inr (out @ res)))
      else bindR (ResolveMask pid comm termSig cs) (\<lambda>res. Inr (c # res)))"

section \<open>Patterns\<close>

definition DefaultPattern :: "os \<Rightarrow> string \<Rightarrow> core_pattern" where
  "DefaultPattern os cwd =
     (let corePattern = ReadFileSafe os ''/proc/sys/kernel/core_pattern'' (-1);
          path = (if take 1 corePattern = ''/'' then GetDirName corePattern else cwd) @ ''/'';
          msk = (if corePattern = [] \<or> take 1 corePattern = ''|'' then
                    (let coreUsesPid = ReadFileSafe os ''/proc/sys/kernel/core_uses_pid'' (-1)
                     in if coreUsesPid = [] \<or> coreUsesPid = ''0'' then ''core'' else ''core.%p'')
                  else GetBaseName corePattern)
      in \<lparr>Path = path, Mask = msk\<rparr>)"

definition CorePatterns :: "os \<Rightarrow> string \<Rightarrow> core_pattern list" where
  "CorePatterns os cwd =
     [DefaultPattern os cwd,
      \<lparr>Path = ''/coredumps/'', Mask = ''%e.%p.%s''\<rparr>,
      \<lparr>Path = ''/coredumps/'', Mask = ''*%p*''\<rparr>,
      \<lparr>Path = ''/cores/'', Mask = ''*%p*''\<rparr>,
      \<lparr>Path = ''/var/lib/systemd/coredump'', Mask = ''*%p*''\<rparr>]"

section \<open>The search\<close>

text \<open>The loop over the entries of one directory, then the loop over the patterns.\<close>

fun FirstMatch :: "os \<Rightarrow> string \<Rightarrow> (string \<times> bool) list \<Rightarrow> string option" where
  "FirstMatch os pat [] = None"
| "FirstMatch os pat ((name, is_reg) # entries) =
     (if \<not> is_reg then FirstMatch os pat entries
      else if FnMatch os pat name then Some name
      else FirstMatch os pat entries)"

fun SearchPatterns :: "os \<Rightarrow> pid \<Rightarrow> string \<Rightarrow> int \<Rightarrow> core_pattern list \<Rightarrow> failure + string" where
  "SearchPatterns os pid comm termSig [] = Inr []"
| "SearchPatterns os pid comm termSig (pattern # patterns) =
     bindR (ResolveMask pid comm termSig (Mask pattern)) (\<lambda>pat.
       case DirEntries os (Path pattern) of
         None \<Rightarrow> SearchPatterns os pid comm termSig patterns
       | Some entries \<Rightarrow>
           (case FirstMatch os pat entries of
              Some name \<Rightarrow> Inr (Path pattern @ name)
            | None \<Rightarrow> SearchPatterns os pid comm termSig patterns))"

definition RecoverCoreDumpFile :: "os \<Rightarrow> pid \<Rightarrow> string \<Rightarrow> string \<Rightarrow> int \<Rightarrow> failure + string" where
  "RecoverCoreDumpFile os pid comm cwd termSig =
     SearchPatterns os pid comm termSig (CorePatterns os cwd)"

section \<open>When a mask can be resolved\<close>

text \<open>The specifiers of a mask, a lone \<^verbatim>\<open>%\<close> at the end left out.\<close>

fun well_paired :: "string \<Rightarrow> bool" where
  "well_paired [] \<longleftrightarrow> True"
| "well_paired [c] \<longleftrightarrow> c \<noteq> CHR ''%''"
| "well_paired (c # d # ds) \<longleftrightarrow> (if c = CHR ''%'' then well_paired ds else well_paired (d # ds))"

lemma ResolveMask_Inr_iff:
  "(\<exists>r. ResolveMask pid comm termSig pat = Inr r) \<longleftrightarrow> well_paired pat"
proof (induction pat rule: well_paired.induct)
  case (3 c d ds)
  then show ?case
    by (cases "c = CHR ''%''") (auto simp: Let_def bindR_eq_Inr_iff)
qed (auto simp: bindR_eq_Inr_iff)

lemma SearchPatterns_total:
  "\<forall>p\<in>set pats. well_paired (Mask p) \<Longrightarrow> \<exists>r. SearchPatterns os pid comm termSig pats = Inr r"
proof (induction pats)
  case (Cons p pats)
  then obtain r where "ResolveMask pid comm termSig (Mask p) = Inr r"
    using ResolveMask_Inr_iff by fastforce
  with Cons show ?case
    by (auto split: option.splits)
qed simp

lemma RecoverCoreDumpFile_total:
  assumes "well_paired (Mask (DefaultPattern os cwd))"
  shows "\<exists>r. RecoverCoreDumpFile os pid comm cwd termSig = Inr r"
  unfolding RecoverCoreDumpFile_def
  by (rule SearchPatterns_total) (use assms in \<open>simp add: CorePatterns_def\<close>)

end
