(* ===== verification/Options.thy ===== *)
theory Options
  imports Utils
begin

text \<open>
  \<^verbatim>\<open>TOptions\<close> of \<^verbatim>\<open>optrace.h\<close> and the command line of \<^verbatim>\<open>main.cpp\<close>.
\<close>

record options =
  Output :: string
  AppendOutput :: bool
  FollowForks :: bool
  WaitDaemons :: bool
  JailForks :: bool
  HumanReadableSizes :: bool
  FilesInReport :: int
  CommandLengthLimit :: int
  UseSecComp :: bool
  SearchForCoreDumps :: bool
  ForwardingSignals :: "int list"
  ForwardAllSignals :: bool
  OptStoreEmptyFiles :: bool
  InterruptionTarget :: string
  InterruptionSignal :: int

definition SIGINT :: int where "SIGINT = 2"
definition SIGTRAP :: int where "SIGTRAP = 5"
definition SIGABRT :: int where "SIGABRT = 6"
definition SIGKILL :: int where "SIGKILL = 9"

definition GetDefaults :: options where
  "GetDefaults =
     \<lparr>Output = [],
      AppendOutput = False,
      FollowForks = True,
      WaitDaemons = False,
      JailForks = True,
      HumanReadableSizes = False,
      FilesInReport = -1,
      CommandLengthLimit = 120,
      UseSecComp = True,
      SearchForCoreDumps = True,
      ForwardingSignals = [SIGINT],
      ForwardAllSignals = False,
      OptStoreEmptyFiles = False,
      InterruptionTarget = [],
      InterruptionSignal = 0\<rparr>"

end
