(* ===== verification/Context.thy ===== *)
theory Context
  imports Storage Registers Cores Options "HOL-Library.AList"
begin

text \<open>
  \<^verbatim>\<open>TContext\<close> of \<^verbatim>\<open>context.h\<close> and \<^verbatim>\<open>context.cpp\<close>: the traced processes, their descriptor tables and
  the operations that keep them. Objects behind \<^verbatim>\<open>shared_ptr\<close> live in two heaps, one of
  \<^verbatim>\<open>TProcState\<close> and one of \<^verbatim>\<open>TFileState\<close>, indexed by addresses that are never reused, so that
  threads of one process share its table and duplicated descriptors share their file. The reference
  count of a file is what the tables of the live processes hold of it. \<^verbatim>\<open>ProcMap\<close> is an association
  list whose order stands for the iteration order of the \<^verbatim>\<open>unordered_map\<close>, about which nothing is
  assumed.
\<close>

section \<open>State\<close>

type_synonym faddr = nat
type_synonym paddr = nat

record proc_state =
  Fds :: "faddr option list"
  ProcInfo :: proc_info_ptr

record tcontext =
  Opts :: options
  GroupLeaders :: "pid set"
  ProcMap :: "(pid \<times> paddr) list"
  FileStorage :: file_storage
  Procs :: "paddr \<Rightarrow> proc_state"
  Files :: "faddr \<Rightarrow> file_state"
  NextProc :: paddr
  NextFile :: faddr
  Kills :: "(pid \<times> int) list" \<comment> \<open>signals sent by \<^verbatim>\<open>kill\<close>\<close>

definition NewContext :: "options \<Rightarrow> tcontext" where
  "NewContext opts =
     \<lparr>Opts = opts, GroupLeaders = {}, ProcMap = [],
      FileStorage = NewFileStorage (FilesInReport opts) (OptStoreEmptyFiles opts),
      Procs = (\<lambda>_. \<lparr>Fds = [], ProcInfo = (0, \<lparr>Pid = 0, Ppid = 0, CommandName = [], CommandLine = []\<rparr>)\<rparr>),
      Files = (\<lambda>_. \<lparr>MaxPos = 0, CurrPos = 0, Flags = 0, InitSize = 0, Filename = []\<rparr>),
      NextProc = 0, NextFile = 0, Kills = []\<rparr>"

subsection \<open>The heaps\<close>

definition alloc_file :: "file_state \<Rightarrow> tcontext \<Rightarrow> tcontext" where
  "alloc_file f c = c\<lparr>Files := (Files c)(NextFile c := f), NextFile := Suc (NextFile c)\<rparr>"

definition alloc_proc :: "proc_state \<Rightarrow> tcontext \<Rightarrow> tcontext" where
  "alloc_proc p c = c\<lparr>Procs := (Procs c)(NextProc c := p), NextProc := Suc (NextProc c)\<rparr>"

definition upd_file :: "faddr \<Rightarrow> (file_state \<Rightarrow> file_state) \<Rightarrow> tcontext \<Rightarrow> tcontext" where
  "upd_file a f c = c\<lparr>Files := (Files c)(a := f (Files c a))\<rparr>"

definition fds_of :: "tcontext \<Rightarrow> paddr \<Rightarrow> faddr option list" where
  "fds_of c p = Fds (Procs c p)"

definition set_fds :: "paddr \<Rightarrow> faddr option list \<Rightarrow> tcontext \<Rightarrow> tcontext" where
  "set_fds p fds c = c\<lparr>Procs := (Procs c)(p := (Procs c p)\<lparr>Fds := fds\<rparr>)\<rparr>"

definition live_procs :: "tcontext \<Rightarrow> paddr list" where
  "live_procs c = remdups (map snd (ProcMap c))"

definition use_count :: "tcontext \<Rightarrow> faddr \<Rightarrow> nat" where
  "use_count c a = sum_list (map (\<lambda>p. count_list (fds_of c p) (Some a)) (live_procs c))"

section \<open>Processes\<close>

definition GetProcState :: "tcontext \<Rightarrow> pid \<Rightarrow> failure + paddr" where
  "GetProcState c pid =
     (case map_of (ProcMap c) pid of
        None \<Rightarrow> Inl (Assertion ''ProcMap.find(pid) != ProcMap.end()'')
      | Some p \<Rightarrow> Inr p)"

definition NewProcState :: "os \<Rightarrow> tcontext \<Rightarrow> pid \<Rightarrow> pid \<Rightarrow> proc_state" where
  "NewProcState os c pid ppid =
     (let cmdline = GetCommandLine os pid (CommandLengthLimit (Opts c));
          comm = (if SearchForCoreDumps (Opts c)
                  then ReadFileSafe os (''/proc/'' @ show_int pid @ ''/comm'') (-1) else [])
      in \<lparr>Fds = [],
          ProcInfo = (NextProc c,
            \<lparr>Pid = pid, Ppid = ppid, CommandName = comm, CommandLine = cmdline\<rparr>)\<rparr>)"

text \<open>\<^verbatim>\<open>GetHighestFd\<close>: from the last descriptor down to the first that counts.\<close>

fun highest_fd :: "tcontext \<Rightarrow> bool \<Rightarrow> faddr option list \<Rightarrow> nat \<Rightarrow> int" where
  "highest_fd c cloexecFree fds 0 = - 1"
| "highest_fd c cloexecFree fds (Suc fd) =
     (case fds ! fd of
        None \<Rightarrow> highest_fd c cloexecFree fds fd
      | Some a \<Rightarrow>
          if cloexecFree then
            (if \<not> IsCloexecSet (Files c a) then int fd else highest_fd c cloexecFree fds fd)
          else int fd)"

definition GetHighestFd :: "tcontext \<Rightarrow> faddr option list \<Rightarrow> bool \<Rightarrow> int" where
  "GetHighestFd c fds cloexecFree = highest_fd c cloexecFree fds (length fds)"

text \<open>
  The copying loops of \<^verbatim>\<open>RegisterExec\<close> and \<^verbatim>\<open>RegisterProcess\<close>: every kept descriptor gets a
  \<^verbatim>\<open>TFileState\<close> of its own, also when two descriptors shared one.
\<close>

fun copy_fds ::
  "os \<Rightarrow> (file_state \<Rightarrow> bool) \<Rightarrow> faddr option list \<Rightarrow> tcontext \<Rightarrow> faddr option list \<times> tcontext" where
  "copy_fds os keep [] c = ([], c)"
| "copy_fds os keep (None # fds) c =
     (let (newfds, c') = copy_fds os keep fds c in (None # newfds, c'))"
| "copy_fds os keep (Some a # fds) c =
     (if keep (Files c a) then
        (let (newfds, c') = copy_fds os keep fds (alloc_file (CopyFileState (Stat os) (Files c a)) c)
         in (Some (NextFile c) # newfds, c'))
      else (let (newfds, c') = copy_fds os keep fds c in (None # newfds, c')))"

definition copy_table ::
  "os \<Rightarrow> (file_state \<Rightarrow> bool) \<Rightarrow> int \<Rightarrow> faddr option list \<Rightarrow> tcontext \<Rightarrow> faddr option list \<times> tcontext" where
  "copy_table os keep highestFd fds c =
     (if highestFd \<ge> 0 then copy_fds os keep (take (nat highestFd + 1) fds) c else ([], c))"

subsection \<open>Closing descriptors\<close>

definition TearDownFd :: "paddr \<Rightarrow> nat \<Rightarrow> proc_info_ptr \<Rightarrow> tcontext \<Rightarrow> failure + tcontext" where
  "TearDownFd p i pinfo c =
     (case slot (fds_of c p) i of
        None \<Rightarrow> Inl (Assertion ''!!file'')
      | Some a \<Rightarrow>
          let c' = (if use_count c a = 1
                    then c\<lparr>FileStorage := AddFileEntry (OutputOfFile (Files c a) pinfo) (FileStorage c)\<rparr>
                    else c)
          in Inr (set_fds p ((fds_of c p)[i := None]) c'))"

fun teardown_all :: "paddr \<Rightarrow> proc_info_ptr \<Rightarrow> nat list \<Rightarrow> tcontext \<Rightarrow> failure + tcontext" where
  "teardown_all p pinfo [] c = Inr c"
| "teardown_all p pinfo (i # is) c =
     (case slot (fds_of c p) i of
        None \<Rightarrow> teardown_all p pinfo is c
      | Some a \<Rightarrow> bindR (TearDownFd p i pinfo c) (teardown_all p pinfo is))"

definition VanishProcess :: "pid \<Rightarrow> tcontext \<Rightarrow> failure + tcontext" where
  "VanishProcess pid c =
     bindR
       (if pid \<in> GroupLeaders c then
          bindR (GetProcState c pid) (\<lambda>p.
          bindR (teardown_all p (ProcInfo (Procs c p)) [0..<length (fds_of c p)] c) (\<lambda>c'.
            Inr (c'\<lparr>GroupLeaders := GroupLeaders c' - {pid}\<rparr>)))
        else Inr c)
       (\<lambda>c. bindR (assertR ''ProcMap.find(pid) != ProcMap.end()'' (map_of (ProcMap c) pid \<noteq> None))
         (\<lambda>_. Inr (c\<lparr>ProcMap := AList.delete pid (ProcMap c)\<rparr>)))"

subsection \<open>Registration\<close>

definition RegisterThread :: "pid \<Rightarrow> pid \<Rightarrow> tcontext \<Rightarrow> failure + tcontext" where
  "RegisterThread pid thread c =
     (case map_of (ProcMap c) pid of
        None \<Rightarrow> Inl (Assertion ''ProcMap.find(pid) != ProcMap.end()'')
      | Some p \<Rightarrow> Inr (c\<lparr>ProcMap := AList.update thread p (ProcMap c)\<rparr>))"

text \<open>The last steps of the registrations: a new leader with its table.\<close>

definition install :: "pid \<Rightarrow> paddr \<Rightarrow> tcontext \<Rightarrow> tcontext" where
  "install pid p c =
     c\<lparr>GroupLeaders := insert pid (GroupLeaders c), ProcMap := AList.update pid p (ProcMap c)\<rparr>"

definition RegisterProcess :: "os \<Rightarrow> pid \<Rightarrow> pid \<Rightarrow> tcontext \<Rightarrow> failure + tcontext" where
  "RegisterProcess os parent child c =
     bindR (assertR ''ProcMap.find(child) == ProcMap.end()'' (map_of (ProcMap c) child = None)) (\<lambda>_.
     bindR (GetProcState c parent) (\<lambda>pproc.
       let newproc = NewProcState os c child parent;
           fds = fds_of c pproc;
           (newfds, c1) = copy_table os (\<lambda>_. True) (GetHighestFd c fds False) fds c
       in Inr (install child (NextProc c1) (alloc_proc (newproc\<lparr>Fds := newfds\<rparr>) c1))))"

definition RegisterExec :: "os \<Rightarrow> pid \<Rightarrow> tcontext \<Rightarrow> failure + tcontext" where
  "RegisterExec os pid c =
     bindR (GetProcState c pid) (\<lambda>oldproc.
       let newproc = NewProcState os c pid (Ppid (snd (ProcInfo (Procs c oldproc))));
           fds = fds_of c oldproc;
           (newfds, c1) = copy_table os (\<lambda>f. \<not> IsCloexecSet f) (GetHighestFd c fds True) fds c;
           p = NextProc c1
       in bindR (VanishProcess pid (alloc_proc (newproc\<lparr>Fds := newfds\<rparr>) c1)) (\<lambda>c2.
            Inr (install pid p c2)))"

subsection \<open>The tracee's initial descriptors\<close>

text \<open>
  \<^verbatim>\<open>FillFds\<close> looks at the tracer's own descriptors, which the forked tracee shares at that moment.
  The number of digits of \<^verbatim>\<open>highestFd\<close> comes from \<^verbatim>\<open>log10\<close>, which has no value at 0.
\<close>

fun fill_fds :: "os \<Rightarrow> paddr \<Rightarrow> pid \<Rightarrow> nat \<Rightarrow> tcontext \<Rightarrow> failure + tcontext" where
  "fill_fds os p pid 0 c = Inr c"
| "fill_fds os p pid (Suc fd) c =
     (let flags = FdFlags os (int fd)
      in if flags \<ge> 0 then
           bindR (IsFile os (int fd)) (\<lambda>is_reg.
             if is_reg then
               bindR (ReadLink os (''/proc/'' @ show_int pid @ ''/fd/'' @ show_nat fd)) (\<lambda>target.
                 let a = NextFile c;
                     c' = alloc_file (NewFileState (Stat os) target (word_of_int flags)) c
                 in fill_fds os p pid fd (set_fds p ((fds_of c' p)[fd := Some a]) c'))
             else fill_fds os p pid fd c)
         else fill_fds os p pid fd c)"

definition FillFds :: "os \<Rightarrow> paddr \<Rightarrow> tcontext \<Rightarrow> failure + tcontext" where
  "FillFds os p c =
     bindR (MyHighestFd os) (\<lambda>highestFd.
       if highestFd < 0 then Inr c
       else if highestFd = 0 then Inl (Undefined ''log10(0)'')
       else let n = nat (highestFd + 1)
            in fill_fds os p (Pid (snd (ProcInfo (Procs c p)))) n
                 (set_fds p (vec_resize n (fds_of c p)) c))"

definition RegisterTracee :: "os \<Rightarrow> pid \<Rightarrow> tcontext \<Rightarrow> failure + tcontext" where
  "RegisterTracee os pid c =
     bindR (assertR ''ProcMap.find(pid) == ProcMap.end()'' (map_of (ProcMap c) pid = None)) (\<lambda>_.
       let p = NextProc c
       in FillFds os p (install pid p (alloc_proc (NewProcState os c pid 0) c)))"

subsection \<open>Core dumps\<close>

definition SearchAndRegisterCoreDumpFile :: "os \<Rightarrow> proc_info_ptr \<Rightarrow> int \<Rightarrow> tcontext \<Rightarrow> failure + tcontext" where
  "SearchAndRegisterCoreDumpFile os pinfo termSig c =
     bindR (RecoverCoreDumpFile os (Pid (snd pinfo)) (CommandName (snd pinfo)) (GetCwd os) termSig)
       (\<lambda>filename.
         if filename \<noteq> [] then
           Inr (c\<lparr>FileStorage := AddFileEntry
             (NewOutputFile filename (GetFileLength (Stat os) filename) pinfo) (FileStorage c)\<rparr>)
         else Inr c)"

definition RegisterCoreDump :: "os \<Rightarrow> pid \<Rightarrow> int \<Rightarrow> tcontext \<Rightarrow> failure + tcontext" where
  "RegisterCoreDump os pid termSig c =
     bindR (GetProcState c pid) (\<lambda>p.
       let pinfo = ProcInfo (Procs c p)
       in if SearchForCoreDumps (Opts c) then SearchAndRegisterCoreDumpFile os pinfo termSig c else Inr c)"

section \<open>Operations on descriptors\<close>

text \<open>\<open>on_fd\<close>: the shape \<^verbatim>\<open>if (fds.size() > fd && !!fds[fd]) fds[fd]->f()\<close> of most operations.\<close>

definition on_fd :: "pid \<Rightarrow> u64 \<Rightarrow> (file_state \<Rightarrow> file_state) \<Rightarrow> tcontext \<Rightarrow> failure + tcontext" where
  "on_fd pid fd f c =
     bindR (GetProcState c pid) (\<lambda>p.
       case slot (fds_of c p) (unat fd) of
         None \<Rightarrow> Inr c
       | Some a \<Rightarrow> Inr (upd_file a f c))"

definition OpWriteChangeOffset :: "pid \<Rightarrow> u64 \<Rightarrow> u64 \<Rightarrow> tcontext \<Rightarrow> failure + tcontext" where
  "OpWriteChangeOffset pid fd offset c = on_fd pid fd (Enroll offset) c"

definition OpWriteNoOffsetChange :: "pid \<Rightarrow> u64 \<Rightarrow> u64 \<Rightarrow> u64 \<Rightarrow> tcontext \<Rightarrow> failure + tcontext" where
  "OpWriteNoOffsetChange pid fd nbytes offset c = on_fd pid fd (EnrollNoShift nbytes offset) c"

definition OpResize :: "pid \<Rightarrow> u64 \<Rightarrow> u64 \<Rightarrow> tcontext \<Rightarrow> failure + tcontext" where
  "OpResize pid fd nbytes c = on_fd pid fd (EnrollNoShift nbytes 0) c"

definition OpSeek :: "pid \<Rightarrow> u64 \<Rightarrow> u64 \<Rightarrow> tcontext \<Rightarrow> failure + tcontext" where
  "OpSeek pid fd pos c = on_fd pid fd (SetCurrPos pos) c"

definition OpSetFlag :: "pid \<Rightarrow> u64 \<Rightarrow> u64 \<Rightarrow> tcontext \<Rightarrow> failure + tcontext" where
  "OpSetFlag pid fd flags c = on_fd pid fd (SetFlags flags) c"

definition OpClose :: "pid \<Rightarrow> u64 \<Rightarrow> tcontext \<Rightarrow> failure + tcontext" where
  "OpClose pid fd c =
     bindR (GetProcState c pid) (\<lambda>p.
       case slot (fds_of c p) (unat fd) of
         None \<Rightarrow> Inr c
       | Some a \<Rightarrow> TearDownFd p (unat fd) (ProcInfo (Procs c p)) c)"

text \<open>\<^verbatim>\<open>fds[fd] = x\<close>, outside the vector undefined.\<close>

definition store_fd :: "paddr \<Rightarrow> nat \<Rightarrow> faddr option \<Rightarrow> tcontext \<Rightarrow> failure + tcontext" where
  "store_fd p fd x c =
     (if fd < length (fds_of c p) then Inr (set_fds p ((fds_of c p)[fd := x]) c)
      else Inl (Undefined ''fds[fd]''))"

definition grow_fds :: "paddr \<Rightarrow> u64 \<Rightarrow> tcontext \<Rightarrow> tcontext" where
  "grow_fds p fd c =
     (if unat fd \<ge> length (fds_of c p)
      then set_fds p (vec_resize (unat (fd + 1)) (fds_of c p)) c else c)"

definition ProcessInterruptionTarget :: "os \<Rightarrow> pid \<Rightarrow> string \<Rightarrow> tcontext \<Rightarrow> tcontext" where
  "ProcessInterruptionTarget os pid filename c =
     (if FnMatch os (InterruptionTarget (Opts c)) filename
      then c\<lparr>Kills := Kills c @ [(pid, InterruptionSignal (Opts c))]\<rparr> else c)"

definition OpOpenWriteFile :: "os \<Rightarrow> pid \<Rightarrow> u64 \<Rightarrow> u64 \<Rightarrow> tcontext \<Rightarrow> failure + tcontext" where
  "OpOpenWriteFile os pid fd flags c =
     bindR (GetProcState c pid) (\<lambda>p.
       let c1 = grow_fds p fd c
       in bindR (ReadLink os (''/proc/'' @ show_int pid @ ''/fd/'' @ show_nat (unat fd))) (\<lambda>filename.
            let c2 = (if InterruptionSignal (Opts c1) \<noteq> 0
                      then ProcessInterruptionTarget os pid filename c1 else c1);
                a = NextFile c2
            in store_fd p (unat fd) (Some a) (alloc_file (NewFileState (Stat os) filename flags) c2)))"

definition OpOpenFile :: "os \<Rightarrow> pid \<Rightarrow> u64 \<Rightarrow> u64 \<Rightarrow> tcontext \<Rightarrow> failure + tcontext" where
  "OpOpenFile os pid fd flags c =
     (if flags AND O_WRONLY \<noteq> 0 \<or> flags AND O_RDWR \<noteq> 0 then OpOpenWriteFile os pid fd flags c else Inr c)"

text \<open>The duplicating operations return with the new state what the C++ returns.\<close>

definition OpDup2 :: "pid \<Rightarrow> u64 \<Rightarrow> u64 \<Rightarrow> tcontext \<Rightarrow> failure + (bool \<times> tcontext)" where
  "OpDup2 pid oldfd newfd c =
     bindR (GetProcState c pid) (\<lambda>p.
       if oldfd = newfd then Inr (False, c)
       else bindR (case slot (fds_of c p) (unat newfd) of None \<Rightarrow> Inr c | Some a \<Rightarrow> OpClose pid newfd c)
         (\<lambda>c1. case slot (fds_of c1 p) (unat oldfd) of
             None \<Rightarrow> Inr (False, c1)
           | Some a \<Rightarrow>
               bindR (store_fd p (unat newfd) (Some a) (grow_fds p newfd c1)) (\<lambda>c2. Inr (True, c2))))"

definition OpDup :: "pid \<Rightarrow> u64 \<Rightarrow> u64 \<Rightarrow> tcontext \<Rightarrow> failure + (bool \<times> tcontext)" where
  "OpDup pid fd newfd c = OpDup2 pid fd newfd c"

definition OpDup3 :: "pid \<Rightarrow> u64 \<Rightarrow> u64 \<Rightarrow> u64 \<Rightarrow> tcontext \<Rightarrow> failure + (bool \<times> tcontext)" where
  "OpDup3 pid oldfd newfd flags c =
     bindR (OpDup pid oldfd newfd c) (\<lambda>(done, c1).
       if \<not> done then Inr (False, c1)
       else bindR (GetProcState c1 pid) (\<lambda>p.
         case slot (fds_of c1 p) (unat newfd) of
           None \<Rightarrow> Inl (Undefined ''null Fds[newfd]'')
         | Some a \<Rightarrow> Inr (True, upd_file a (SetCloexecFlag (flags AND O_CLOEXEC \<noteq> 0)) c1)))"

section \<open>System calls\<close>

definition SyscallEnter :: "pid \<Rightarrow> user_regs \<Rightarrow> tcontext \<Rightarrow> tcontext" where
  "SyscallEnter pid regs c = c"

definition ignore_result :: "failure + (bool \<times> tcontext) \<Rightarrow> failure + tcontext" where
  "ignore_result r = bindR r (\<lambda>(_, c). Inr c)"

text \<open>The nested \<^verbatim>\<open>switch (arg1)\<close> for \<^verbatim>\<open>fcntl\<close>.\<close>

definition FcntlExit :: "pid \<Rightarrow> u64 \<Rightarrow> u64 \<Rightarrow> u64 \<Rightarrow> u64 \<Rightarrow> tcontext \<Rightarrow> failure + tcontext" where
  "FcntlExit pid retdata arg0 arg1 arg2 c =
     (if arg1 = F_DUPFD then ignore_result (OpDup pid arg0 retdata c)
      else if arg1 = F_DUPFD_CLOEXEC then ignore_result (OpDup3 pid arg0 retdata O_CLOEXEC c)
      else if arg1 = F_SETFL \<or> arg1 = F_SETFD then OpSetFlag pid arg0 arg2 c
      else Inr c)"

definition SyscallExit :: "arch \<Rightarrow> os \<Rightarrow> pid \<Rightarrow> user_regs \<Rightarrow> tcontext \<Rightarrow> failure + tcontext" where
  "SyscallExit a os pid regs c =
     (let syscall = SYSCALL_NR a regs; retdata = SYSCALL_RETDATA a regs;
          arg0 = SYSCALL_ARG0 a regs; arg1 = SYSCALL_ARG1 a regs;
          arg2 = SYSCALL_ARG2 a regs; arg3 = SYSCALL_ARG3 a regs
      in if syscall = SYS_write a \<or> syscall = SYS_writev a then
           (if as_ssize retdata > 0 then OpWriteChangeOffset pid arg0 retdata c else Inr c)
         else if syscall = SYS_pwritev a \<or> syscall = SYS_pwrite64 a \<or> syscall = SYS_pwritev2 a then
           (if as_ssize retdata > 0 then OpWriteNoOffsetChange pid arg0 retdata arg3 c else Inr c)
         else if a = X86_64 \<and> syscall = SYS_creat then
           (if as_int retdata \<ge> 0 then OpOpenWriteFile os pid retdata arg1 c else Inr c)
         else if a = X86_64 \<and> syscall = SYS_open then
           (if as_int retdata \<ge> 0 then OpOpenFile os pid retdata arg1 c else Inr c)
         else if syscall = SYS_openat a then
           (if as_int retdata \<ge> 0 then OpOpenFile os pid retdata arg2 c else Inr c)
         else if syscall = SYS_close a then OpClose pid arg0 c
         else if syscall = SYS_fcntl a then
           (if as_int retdata \<ge> 0 then FcntlExit pid retdata arg0 arg1 arg2 c else Inr c)
         else if syscall = SYS_dup a then
           (if as_int retdata \<ge> 0 then ignore_result (OpDup pid arg0 retdata c) else Inr c)
         else if a = X86_64 \<and> syscall = SYS_dup2 then
           (if as_int retdata \<ge> 0 then ignore_result (OpDup2 pid arg0 arg1 c) else Inr c)
         else if syscall = SYS_dup3 a then
           (if as_int retdata \<ge> 0 then ignore_result (OpDup3 pid arg0 arg1 arg2 c) else Inr c)
         else if syscall = SYS_fallocate a then
           (if as_int retdata \<ge> 0 then OpResize pid arg0 (arg2 + arg3) c else Inr c)
         else if syscall = SYS_ftruncate a then
           (if as_int retdata \<ge> 0 then OpResize pid arg0 arg1 c else Inr c)
         else if syscall = SYS_lseek a then
           (if as_int retdata \<ge> 0 then OpSeek pid arg0 retdata c else Inr c)
         else Inr c)"

end
