(* ===== verification/ContextInv.thy ===== *)
theory ContextInv
  imports Context
begin

text \<open>
  The invariant of \<^verbatim>\<open>TContext\<close> and its accounting. \<open>wf_ctx\<close> says that live tables are allocated, hold
  allocated files, never share one across processes, and that every group leader is known. \<open>led\<close>
  says that a table with an open file still has its group leader, which will record it.
  \<open>accounted\<close> is the total the report would give if everything open were closed now: closing,
  duplicating and vanishing leave it as it is.
\<close>

section \<open>Live objects\<close>

definition live :: "tcontext \<Rightarrow> paddr set" where
  "live c = snd ` set (ProcMap c)"

definition held :: "tcontext \<Rightarrow> paddr \<Rightarrow> faddr set" where
  "held c p = addrs (fds_of c p)"

definition live_files :: "tcontext \<Rightarrow> faddr set" where
  "live_files c = (\<Union>p\<in>live c. held c p)"

definition wf_ctx :: "tcontext \<Rightarrow> bool" where
  "wf_ctx c \<longleftrightarrow>
     distinct (map fst (ProcMap c)) \<and>
     (\<forall>p\<in>live c. p < NextProc c) \<and>
     (\<forall>p\<in>live c. \<forall>a\<in>held c p. a < NextFile c) \<and>
     (\<forall>p\<in>live c. \<forall>q\<in>live c. p \<noteq> q \<longrightarrow> held c p \<inter> held c q = {}) \<and>
     GroupLeaders c \<subseteq> fst ` set (ProcMap c) \<and>
     storage_ok (FileStorage c)"

definition led :: "tcontext \<Rightarrow> bool" where
  "led c \<longleftrightarrow> (\<forall>p\<in>live c. held c p \<noteq> {} \<longrightarrow> (\<exists>l\<in>GroupLeaders c. map_of (ProcMap c) l = Some p))"

definition accounted :: "tcontext \<Rightarrow> u64" where
  "accounted c =
     GetStorageOutputSize (FileStorage c) + (\<Sum>a\<in>live_files c. GetOutputSize (Files c a))"

lemma finite_live [simp]: "finite (live c)"
  by (simp add: live_def)

lemma finite_live_files [simp]: "finite (live_files c)"
  by (simp add: live_files_def held_def)

lemma wf_distinct [simp, dest]: "wf_ctx c \<Longrightarrow> distinct (map fst (ProcMap c))"
  by (simp add: wf_ctx_def)

lemma wfI:
  assumes "distinct (map fst (ProcMap c))"
    and "\<And>p. p \<in> live c \<Longrightarrow> p < NextProc c"
    and "\<And>p a. p \<in> live c \<Longrightarrow> a \<in> held c p \<Longrightarrow> a < NextFile c"
    and "\<And>p q. p \<in> live c \<Longrightarrow> q \<in> live c \<Longrightarrow> p \<noteq> q \<Longrightarrow> held c p \<inter> held c q = {}"
    and "GroupLeaders c \<subseteq> fst ` set (ProcMap c)"
    and "storage_ok (FileStorage c)"
  shows "wf_ctx c"
  using assms by (simp add: wf_ctx_def)

lemma wfD:
  assumes "wf_ctx c"
  shows "p \<in> live c \<Longrightarrow> p < NextProc c"
    and "p \<in> live c \<Longrightarrow> a \<in> held c p \<Longrightarrow> a < NextFile c"
    and "p \<in> live c \<Longrightarrow> q \<in> live c \<Longrightarrow> p \<noteq> q \<Longrightarrow> held c p \<inter> held c q = {}"
    and "GroupLeaders c \<subseteq> fst ` set (ProcMap c)"
    and "storage_ok (FileStorage c)"
  using assms by (simp_all add: wf_ctx_def)

lemma map_of_live: "map_of (ProcMap c) pid = Some p \<Longrightarrow> p \<in> live c"
  unfolding live_def by (metis imageI map_of_SomeD snd_conv)

lemma live_map_of: "distinct (map fst (ProcMap c)) \<Longrightarrow> p \<in> live c \<longleftrightarrow> (\<exists>pid. map_of (ProcMap c) pid = Some p)"
  unfolding live_def by force

lemma leader_known: "wf_ctx c \<Longrightarrow> pid \<in> GroupLeaders c \<Longrightarrow> \<exists>p. map_of (ProcMap c) pid = Some p"
  using wfD(4) [of c] by (metis map_of_eq_None_iff not_None_eq subsetD)

section \<open>Heap accessors\<close>

lemma fds_of_set_fds [simp]: "fds_of (set_fds p v c) q = (if q = p then v else fds_of c q)"
  by (simp add: fds_of_def set_fds_def)

lemma set_fds_set_fds [simp]: "set_fds p v (set_fds p w c) = set_fds p v c"
  by (simp add: set_fds_def)

lemma set_fds_simps [simp]:
  "ProcMap (set_fds p v c) = ProcMap c" "GroupLeaders (set_fds p v c) = GroupLeaders c"
  "FileStorage (set_fds p v c) = FileStorage c" "Files (set_fds p v c) = Files c"
  "NextProc (set_fds p v c) = NextProc c" "NextFile (set_fds p v c) = NextFile c"
  "Opts (set_fds p v c) = Opts c" "Kills (set_fds p v c) = Kills c"
  "ProcInfo (Procs (set_fds p v c) q) = ProcInfo (Procs c q)"
  by (simp_all add: set_fds_def)

lemma upd_file_simps [simp]:
  "ProcMap (upd_file a f c) = ProcMap c" "GroupLeaders (upd_file a f c) = GroupLeaders c"
  "FileStorage (upd_file a f c) = FileStorage c" "Procs (upd_file a f c) = Procs c"
  "fds_of (upd_file a f c) = fds_of c"
  "NextProc (upd_file a f c) = NextProc c" "NextFile (upd_file a f c) = NextFile c"
  "Opts (upd_file a f c) = Opts c" "Kills (upd_file a f c) = Kills c"
  "Files (upd_file a f c) = (Files c)(a := f (Files c a))"
  by (simp_all add: upd_file_def fds_of_def fun_eq_iff)

lemma alloc_file_simps [simp]:
  "ProcMap (alloc_file f c) = ProcMap c" "GroupLeaders (alloc_file f c) = GroupLeaders c"
  "FileStorage (alloc_file f c) = FileStorage c" "Procs (alloc_file f c) = Procs c"
  "fds_of (alloc_file f c) = fds_of c" "NextProc (alloc_file f c) = NextProc c"
  "NextFile (alloc_file f c) = Suc (NextFile c)" "Opts (alloc_file f c) = Opts c"
  "Kills (alloc_file f c) = Kills c" "Files (alloc_file f c) = (Files c)(NextFile c := f)"
  by (simp_all add: alloc_file_def fds_of_def fun_eq_iff)

lemma alloc_proc_simps [simp]:
  "ProcMap (alloc_proc ps c) = ProcMap c" "GroupLeaders (alloc_proc ps c) = GroupLeaders c"
  "FileStorage (alloc_proc ps c) = FileStorage c" "Files (alloc_proc ps c) = Files c"
  "NextFile (alloc_proc ps c) = NextFile c" "NextProc (alloc_proc ps c) = Suc (NextProc c)"
  "Opts (alloc_proc ps c) = Opts c" "Kills (alloc_proc ps c) = Kills c"
  "Procs (alloc_proc ps c) = (Procs c)(NextProc c := ps)"
  "fds_of (alloc_proc ps c) p = (if p = NextProc c then Fds ps else fds_of c p)"
  by (simp_all add: alloc_proc_def fds_of_def)

lemma install_simps [simp]:
  "ProcMap (install pid p c) = AList.update pid p (ProcMap c)"
  "GroupLeaders (install pid p c) = insert pid (GroupLeaders c)"
  "FileStorage (install pid p c) = FileStorage c" "Files (install pid p c) = Files c"
  "NextFile (install pid p c) = NextFile c" "NextProc (install pid p c) = NextProc c"
  "Opts (install pid p c) = Opts c" "Kills (install pid p c) = Kills c"
  "Procs (install pid p c) = Procs c" "fds_of (install pid p c) = fds_of c"
  by (simp_all add: install_def fds_of_def fun_eq_iff)

section \<open>Closing a whole table\<close>

fun filled :: "'a option list \<Rightarrow> 'a list" where
  "filled [] = []"
| "filled (None # v) = filled v"
| "filled (Some a # v) = a # filled v"

lemma set_filled: "set (filled v) = addrs v"
  by (induction v rule: filled.induct) (auto simp: addrs_Cons)

text \<open>The entries that closing the table \<open>fds\<close> records: each file once, when its last descriptor goes.\<close>

definition closing_entries :: "tcontext \<Rightarrow> proc_info_ptr \<Rightarrow> faddr option list \<Rightarrow> output_file list" where
  "closing_entries c pinfo fds = map (\<lambda>a. OutputOfFile (Files c a) pinfo) (remdups (filled fds))"

definition exclusive :: "tcontext \<Rightarrow> paddr \<Rightarrow> bool" where
  "exclusive c p \<longleftrightarrow> p \<in> live c \<and> (\<forall>q\<in>live c. q \<noteq> p \<longrightarrow> held c q \<inter> held c p = {})"

lemma wf_exclusive: "wf_ctx c \<Longrightarrow> p \<in> live c \<Longrightarrow> exclusive c p"
  using wfD(3) by (auto simp: exclusive_def)

lemma use_count_exclusive:
  assumes "exclusive c p" and a: "a \<in> held c p"
  shows "use_count c a = count_list (fds_of c p) (Some a)"
proof -
  have zero: "count_list (fds_of c q) (Some a) = 0" if "q \<in> live c" "q \<noteq> p" for q
    using assms that by (auto simp: exclusive_def held_def addrs_def count_list_0_iff)
  have "use_count c a = (\<Sum>q\<in>live c. count_list (fds_of c q) (Some a))"
    by (simp add: use_count_def live_procs_def live_def sum_list_distinct_conv_sum_set)
  also have "\<dots> = count_list (fds_of c p) (Some a) + (\<Sum>q\<in>live c - {p}. count_list (fds_of c q) (Some a))"
    using assms by (intro sum.remove) (auto simp: exclusive_def)
  also have "(\<Sum>q\<in>live c - {p}. count_list (fds_of c q) (Some a)) = 0"
    using zero by simp
  finally show ?thesis
    by simp
qed

lemma count_drop_None:
  assumes "take k v = replicate k None"
  shows "count_list v (Some a) = count_list (drop k v) (Some a)"
proof -
  have "count_list v (Some a) = count_list (take k v @ drop k v) (Some a)"
    by simp
  also have "\<dots> = count_list (drop k v) (Some a)"
    using assms by (simp only: count_list_append) (simp add: count_list_0_iff)
  finally show ?thesis .
qed

lemma AddFileEntries_Cons [simp]: "AddFileEntries (e # es) st = AddFileEntries es (AddFileEntry e st)"
  by (simp add: AddFileEntries_def)

lemma AddFileEntries_Nil [simp]: "AddFileEntries [] st = st"
  by (simp add: AddFileEntries_def)

definition recorded :: "output_file list \<Rightarrow> tcontext \<Rightarrow> tcontext" where
  "recorded es c = c\<lparr>FileStorage := AddFileEntries es (FileStorage c)\<rparr>"

lemma recorded_simps [simp]:
  "ProcMap (recorded es c) = ProcMap c" "GroupLeaders (recorded es c) = GroupLeaders c"
  "FileStorage (recorded es c) = AddFileEntries es (FileStorage c)" "Files (recorded es c) = Files c"
  "NextFile (recorded es c) = NextFile c" "NextProc (recorded es c) = NextProc c"
  "Opts (recorded es c) = Opts c" "Kills (recorded es c) = Kills c"
  "Procs (recorded es c) = Procs c" "fds_of (recorded es c) = fds_of c"
  by (simp_all add: recorded_def fds_of_def fun_eq_iff)

lemma recorded_Nil [simp]: "recorded [] c = c"
  by (simp add: recorded_def)

lemma recorded_set_fds: "recorded es (set_fds p v c) = set_fds p v (recorded es c)"
  by (simp add: recorded_def set_fds_def)

lemma recorded_recorded: "recorded es (recorded ds c) = recorded (ds @ es) c"
  by (simp add: recorded_def AddFileEntries_def)

text \<open>Closing one descriptor records its file exactly when no other descriptor holds it.\<close>

lemma TearDownFd_eq:
  assumes "exclusive c p" and "slot (fds_of c p) i = Some a"
  shows "TearDownFd p i pinfo c =
    Inr (set_fds p ((fds_of c p)[i := None])
      (recorded (if count_list (fds_of c p) (Some a) = 1 then [OutputOfFile (Files c a) pinfo] else []) c))"
proof -
  have "a \<in> held c p"
    using assms(2) by (auto simp: held_def addrs_slot)
  then show ?thesis
    using assms use_count_exclusive [OF assms(1)] by (simp add: TearDownFd_def recorded_def)
qed

lemma exclusive_shrink:
  assumes "exclusive c p" and "addrs v \<subseteq> held c p"
  shows "exclusive (set_fds p v (recorded es c)) p"
  using assms by (auto simp: exclusive_def held_def live_def)

lemma teardown_from:
  assumes "exclusive c p" and "take k (fds_of c p) = replicate k None"
    and "k \<le> length (fds_of c p)" and "n = length (fds_of c p)"
  shows "teardown_all p pinfo [k..<n] c =
    Inr (set_fds p (replicate n None) (recorded (closing_entries c pinfo (drop k (fds_of c p))) c))"
  using assms
proof (induction "n - k" arbitrary: k c)
  case 0
  then have "fds_of c p = replicate n None"
    by simp
  then have "set_fds p (replicate n None) c = c"
    by (cases c) (simp add: set_fds_def fds_of_def fun_eq_iff)
  with 0 show ?case
    by (simp add: closing_entries_def)
next
  case (Suc m)
  let ?v = "fds_of c p"
  have kn: "k < n"
    using Suc.hyps(2) by simp
  then have upt: "[k..<n] = k # [Suc k..<n]" and sl: "slot ?v k = ?v ! k"
    and dr: "drop k ?v = ?v ! k # drop (Suc k) ?v"
    using Suc.prems by (simp_all add: upt_conv_Cons slot_def Cons_nth_drop_Suc)
  show ?case
  proof (cases "?v ! k")
    case None
    have "take (Suc k) ?v = replicate (Suc k) None"
      using Suc.prems kn None by (simp add: take_Suc_conv_app_nth replicate_append_same)
    then have "teardown_all p pinfo [Suc k..<n] c =
      Inr (set_fds p (replicate n None) (recorded (closing_entries c pinfo (drop (Suc k) ?v)) c))"
      using Suc.hyps Suc.prems kn by (intro Suc.hyps(1)) simp_all
    with None show ?thesis
      by (simp add: upt sl dr closing_entries_def)
  next
    case (Some a)
    let ?e = "OutputOfFile (Files c a) pinfo"
    let ?w = "?v[k := None]"
    define es where "es = (if count_list ?v (Some a) = 1 then [?e] else [])"
    define c1 where "c1 = set_fds p ?w (recorded es c)"
    have "count_list ?v (Some a) = Suc (count_list (drop (Suc k) ?v) (Some a))"
      using count_drop_None [OF Suc.prems(2)] by (simp add: dr Some)
    then have es: "es = (if a \<in> set (filled (drop (Suc k) ?v)) then [] else [?e])"
      by (simp add: es_def count_list_0_iff set_filled addrs_def)
    have td: "TearDownFd p k pinfo c = Inr c1"
      using TearDownFd_eq [OF Suc.prems(1)] sl Some by (simp add: c1_def es_def)
    have "addrs ?w \<subseteq> held c p"
      by (auto simp: addrs_def held_def dest: set_update_subset_insert [THEN subsetD])
    then have ex: "exclusive c1 p"
      unfolding c1_def by (rule exclusive_shrink [OF Suc.prems(1)])
    have tk: "take (Suc k) ?w = replicate (Suc k) None"
      using Suc.prems kn by (simp add: take_Suc_conv_app_nth replicate_append_same)
    have "teardown_all p pinfo [Suc k..<n] c1 =
      Inr (set_fds p (replicate n None)
        (recorded (closing_entries c1 pinfo (drop (Suc k) (fds_of c1 p))) c1))"
      using Suc.hyps Suc.prems kn ex tk by (intro Suc.hyps(1)) (simp_all add: c1_def)
    also have "closing_entries c1 pinfo (drop (Suc k) (fds_of c1 p)) = closing_entries c pinfo (drop (Suc k) ?v)"
      by (simp add: closing_entries_def c1_def)
    finally show ?thesis
      using td Some
      by (simp add: upt sl dr closing_entries_def es c1_def recorded_set_fds recorded_recorded)
  qed
qed

lemma teardown_table:
  "exclusive c p \<Longrightarrow> teardown_all p pinfo [0..<length (fds_of c p)] c =
    Inr (set_fds p (replicate (length (fds_of c p)) None)
      (recorded (closing_entries c pinfo (fds_of c p)) c))"
  using teardown_from [of c p 0] by simp

section \<open>VanishProcess\<close>

text \<open>The state after a known process has gone.\<close>

definition vanished :: "pid \<Rightarrow> paddr \<Rightarrow> tcontext \<Rightarrow> tcontext" where
  "vanished pid p c =
     (let c' = (if pid \<in> GroupLeaders c then
                  set_fds p (replicate (length (fds_of c p)) None)
                    (recorded (closing_entries c (ProcInfo (Procs c p)) (fds_of c p)) c)
                else c)
      in c'\<lparr>GroupLeaders := GroupLeaders c' - {pid}, ProcMap := AList.delete pid (ProcMap c')\<rparr>)"

lemma VanishProcess_eq:
  assumes "wf_ctx c" and p: "map_of (ProcMap c) pid = Some p"
  shows "VanishProcess pid c = Inr (vanished pid p c)"
proof -
  have "exclusive c p"
    using wf_exclusive [OF assms(1) map_of_live [OF p]] .
  then show ?thesis
    using p by (simp add: VanishProcess_def GetProcState_def teardown_table vanished_def Let_def)
qed

lemma VanishProcess_unknown:
  assumes "wf_ctx c" and "map_of (ProcMap c) pid = None"
  shows "VanishProcess pid c = Inl (Assertion ''ProcMap.find(pid) != ProcMap.end()'')"
proof -
  have "pid \<notin> GroupLeaders c"
    using assms leader_known by fastforce
  with assms(2) show ?thesis
    by (simp add: VanishProcess_def)
qed

lemma vanished_simps [simp]:
  "ProcMap (vanished pid p c) = AList.delete pid (ProcMap c)"
  "GroupLeaders (vanished pid p c) = GroupLeaders c - {pid}"
  "Files (vanished pid p c) = Files c" "NextFile (vanished pid p c) = NextFile c"
  "NextProc (vanished pid p c) = NextProc c" "Opts (vanished pid p c) = Opts c"
  "Kills (vanished pid p c) = Kills c"
  "held (vanished pid p c) q = (if pid \<in> GroupLeaders c \<and> q = p then {} else held c q)"
  "FileStorage (vanished pid p c) =
    (if pid \<in> GroupLeaders c
     then AddFileEntries (closing_entries c (ProcInfo (Procs c p)) (fds_of c p)) (FileStorage c)
     else FileStorage c)"
  by (simp_all add: vanished_def Let_def held_def fds_of_def [of "_\<lparr>GroupLeaders := _, ProcMap := _\<rparr>"]
      flip: fds_of_def)

lemma live_update:
  assumes "distinct (map fst (ProcMap c))" and "map_of (ProcMap c') = (map_of (ProcMap c))(k := v)"
    and "distinct (map fst (ProcMap c'))"
  shows "q \<in> live c' \<longleftrightarrow> v = Some q \<or> (\<exists>k'. k' \<noteq> k \<and> map_of (ProcMap c) k' = Some q)"
  using assms by (auto simp: live_map_of)

lemma live_vanished:
  assumes "wf_ctx c"
  shows "q \<in> live (vanished pid p c) \<longleftrightarrow> (\<exists>k. k \<noteq> pid \<and> map_of (ProcMap c) k = Some q)"
  using assms by (subst live_update [of c _ pid None]) (auto simp: delete_conv' distinct_delete)

lemma live_vanished_subset: "wf_ctx c \<Longrightarrow> live (vanished pid p c) \<subseteq> live c"
  by (auto simp: live_vanished map_of_live)

lemma known_iff: "k \<in> fst ` set al \<longleftrightarrow> map_of al k \<noteq> None"
  by (metis map_of_eq_None_iff)

lemma wf_vanished:
  assumes w: "wf_ctx c"
  shows "wf_ctx (vanished pid p c)"
proof (rule wfI)
  note sub = live_vanished_subset [OF w, THEN subsetD]
  show "q < NextProc (vanished pid p c)" if "q \<in> live (vanished pid p c)" for q
    using wfD(1) [OF w sub [OF that]] by simp
  show "a < NextFile (vanished pid p c)"
    if "q \<in> live (vanished pid p c)" "a \<in> held (vanished pid p c) q" for q a
    using wfD(2) [OF w sub [OF that(1)]] that by (simp split: if_splits)
  show "held (vanished pid p c) q \<inter> held (vanished pid p c) r = {}"
    if "q \<in> live (vanished pid p c)" "r \<in> live (vanished pid p c)" "q \<noteq> r" for q r
    using wfD(3) [OF w sub [OF that(1)] sub [OF that(2)] that(3)] by auto
  show "GroupLeaders (vanished pid p c) \<subseteq> fst ` set (ProcMap (vanished pid p c))"
    using leader_known [OF w] by (fastforce simp: known_iff delete_conv' split: if_splits)
qed (use w in \<open>auto simp: distinct_delete wf_ctx_def AddFileEntries_ok\<close>)

lemma led_vanished:
  assumes w: "wf_ctx c" and l: "led c" and p: "map_of (ProcMap c) pid = Some p"
  shows "led (vanished pid p c)"
  unfolding led_def
proof (intro ballI impI)
  fix q assume q: "q \<in> live (vanished pid p c)" and ne: "held (vanished pid p c) q \<noteq> {}"
  then have "q \<in> live c" "held c q \<noteq> {}"
    using live_vanished_subset [OF w] by (auto split: if_splits)
  then obtain k where k: "k \<in> GroupLeaders c" "map_of (ProcMap c) k = Some q"
    using l by (auto simp: led_def)
  moreover have "k \<noteq> pid"
    using k p ne by (auto split: if_splits)
  ultimately show "\<exists>k\<in>GroupLeaders (vanished pid p c). map_of (ProcMap (vanished pid p c)) k = Some q"
    by (intro bexI [of _ k]) (simp_all add: delete_conv')
qed

lemma live_files_vanished:
  assumes w: "wf_ctx c" and l: "led c" and p: "map_of (ProcMap c) pid = Some p"
  shows "live_files (vanished pid p c) =
    (if pid \<in> GroupLeaders c then live_files c - held c p else live_files c)"
proof -
  have pl: "p \<in> live c"
    using p by (rule map_of_live)
  have keep: "q \<in> live (vanished pid p c)" if "q \<in> live c" "held c q \<noteq> {}" "q \<noteq> p \<or> pid \<notin> GroupLeaders c" for q
  proof -
    obtain k where k: "k \<in> GroupLeaders c" "map_of (ProcMap c) k = Some q"
      using l \<open>q \<in> live c\<close> \<open>held c q \<noteq> {}\<close> by (auto simp: led_def)
    moreover have "k \<noteq> pid"
      using k p that(3) by auto
    ultimately show ?thesis
      by (auto simp: live_vanished [OF w])
  qed
  have in_iff: "x \<in> live_files (vanished pid p c) \<longleftrightarrow>
      (\<exists>q\<in>live c. x \<in> held c q \<and> (q \<noteq> p \<or> pid \<notin> GroupLeaders c))" (is "?l \<longleftrightarrow> ?r") for x
  proof
    show "?l \<Longrightarrow> ?r"
      using live_vanished_subset [OF w, of pid p] by (auto simp: live_files_def split: if_splits)
    show "?r \<Longrightarrow> ?l"
      using keep by (fastforce simp: live_files_def)
  qed
  have other: "x \<notin> held c p" if "q \<in> live c" "q \<noteq> p" "x \<in> held c q" for q x
    using wfD(3) [OF w that(1) pl that(2)] that(3) by blast
  show ?thesis
  proof (intro set_eqI)
    show "x \<in> live_files (vanished pid p c) \<longleftrightarrow>
      x \<in> (if pid \<in> GroupLeaders c then live_files c - held c p else live_files c)" for x
      unfolding in_iff using other by (auto simp: live_files_def)
  qed
qed

lemma sum_closing_entries:
  "sum_list (map Size (closing_entries c pinfo fds)) = (\<Sum>a\<in>addrs fds. GetOutputSize (Files c a))"
  by (simp add: closing_entries_def OutputOfFile_def o_def sum_list_distinct_conv_sum_set set_filled)

lemma AddFileEntries_Capacity [simp]: "Capacity (AddFileEntries es st) = Capacity st"
  unfolding AddFileEntries_def by (induction es arbitrary: st) simp_all

lemma accounted_vanished:
  assumes w: "wf_ctx c" and l: "led c" and p: "map_of (ProcMap c) pid = Some p"
    and cap: "Capacity (FileStorage c) \<noteq> 0"
  shows "accounted (vanished pid p c) = accounted c"
proof (cases "pid \<in> GroupLeaders c")
  case True
  have sub: "held c p \<subseteq> live_files c"
    using map_of_live [OF p] by (auto simp: live_files_def)
  have "(\<Sum>a\<in>live_files c. GetOutputSize (Files c a)) =
    (\<Sum>a\<in>live_files c - held c p. GetOutputSize (Files c a)) + (\<Sum>a\<in>held c p. GetOutputSize (Files c a))"
    using sub by (simp add: sum.subset_diff)
  then show ?thesis
    using True cap
    by (simp add: accounted_def live_files_vanished [OF w l p] GetStorageOutputSize_def
        AddFileEntries_OutputSize sum_closing_entries held_def)
next
  case False
  then show ?thesis
    by (simp add: accounted_def live_files_vanished [OF w l p])
qed

end
