(* ===== verification/ContextOps.thy ===== *)
theory ContextOps
  imports ContextInv
begin

text \<open>
  The invariant and the accounting through every operation of \<^verbatim>\<open>TContext\<close>: the operations on one
  descriptor, the registration of threads, processes and execs, core dumps, and the exit of a system
  call.
\<close>

named_theorems wf_rules \<open>operations preserve the invariant\<close>
named_theorems led_rules \<open>operations keep the leaders of tables with open files\<close>
named_theorems acc_rules \<open>operations and the accounted total\<close>

section \<open>Transfer\<close>

text \<open>
  The invariant survives a change that keeps the process map and lets one table \<open>p\<close> hold, beside
  what it held, only files allocated by the change.
\<close>

lemma wf_transfer:
  assumes w: "wf_ctx c"
    and "ProcMap c' = ProcMap c" "GroupLeaders c' = GroupLeaders c"
    and next_le: "NextProc c \<le> NextProc c'" "NextFile c \<le> NextFile c'"
    and held: "\<And>q. q \<in> live c \<Longrightarrow> held c' q \<subseteq> held c q \<union> (if q = p then {NextFile c..<NextFile c'} else {})"
    and "storage_ok (FileStorage c')"
  shows "wf_ctx c'"
proof (rule wfI)
  have lv: "live c' = live c"
    using assms by (simp add: live_def)
  show "q < NextProc c'" if "q \<in> live c'" for q
    using that wfD(1) [OF w, of q] next_le lv by simp
  show "a < NextFile c'" if "q \<in> live c'" "a \<in> held c' q" for q a
    using that held [of q] wfD(2) [OF w, of q a] next_le lv by (auto split: if_splits)
  show "held c' q \<inter> held c' r = {}" if "q \<in> live c'" "r \<in> live c'" "q \<noteq> r" for q r
    using that held [of q] held [of r] wfD(2) [OF w, of q] wfD(2) [OF w, of r]
      wfD(3) [OF w, of q r] lv by (fastforce split: if_splits)
qed (use assms in \<open>auto simp: wf_ctx_def\<close>)

definition has_leader :: "tcontext \<Rightarrow> paddr \<Rightarrow> bool" where
  "has_leader c p \<longleftrightarrow> (\<exists>l\<in>GroupLeaders c. map_of (ProcMap c) l = Some p)"

lemma led_has_leader: "led c \<longleftrightarrow> (\<forall>p\<in>live c. held c p \<noteq> {} \<longrightarrow> has_leader c p)"
  by (simp add: led_def has_leader_def)

lemma led_transfer:
  assumes "led c" and "ProcMap c' = ProcMap c" "GroupLeaders c' = GroupLeaders c"
    and "\<And>q. q \<in> live c \<Longrightarrow> held c' q \<noteq> {} \<Longrightarrow> held c q \<noteq> {} \<or> has_leader c q"
  shows "led c'"
proof -
  have "live c' = live c" and "has_leader c' = has_leader c"
    using assms by (simp_all add: live_def has_leader_def fun_eq_iff)
  with assms(1,4) show ?thesis
    unfolding led_has_leader by metis
qed

lemma held_set_fds [simp]: "held (set_fds p v c) q = (if q = p then addrs v else held c q)"
  by (simp add: held_def)

lemma held_frames [simp]:
  "held (upd_file a f c) = held c" "held (alloc_file f' c) = held c" "held (recorded es c) = held c"
  "held (install pid p c) = held c"
  by (simp_all add: held_def fun_eq_iff)

lemma live_frames [simp]:
  "live (upd_file a f c) = live c" "live (alloc_file f' c) = live c" "live (recorded es c) = live c"
  "live (set_fds p v c) = live c" "live (alloc_proc ps c) = live c"
  by (simp_all add: live_def)

lemma addrs_update_None: "addrs (v[i := None]) \<subseteq> addrs v"
  by (auto simp: addrs_def dest: set_update_subset_insert [THEN subsetD])

lemma addrs_update: "addrs (v[i := Some a]) \<subseteq> insert a (addrs v)"
  by (auto simp: addrs_def dest: set_update_subset_insert [THEN subsetD])

lemma addrs_vec_resize: "length v \<le> n \<Longrightarrow> addrs (vec_resize n v) = addrs v"
  by (simp add: vec_resize_def addrs_append)

section \<open>Operations on one file\<close>

lemma on_fd_cases:
  assumes "on_fd pid fd f c = Inr c'"
  obtains "c' = c"
  | p a where "map_of (ProcMap c) pid = Some p" "slot (fds_of c p) (unat fd) = Some a" "c' = upd_file a f c"
proof -
  obtain p where p: "map_of (ProcMap c) pid = Some p"
    using assms by (cases "map_of (ProcMap c) pid") (simp_all add: on_fd_def GetProcState_def)
  show thesis
  proof (cases "slot (fds_of c p) (unat fd)")
    case None
    with assms p show thesis
      by (intro that(1)) (simp add: on_fd_def GetProcState_def)
  next
    case (Some a)
    with assms p show thesis
      by (intro that(2)) (auto simp: on_fd_def GetProcState_def)
  qed
qed

lemma wf_upd_file [simp]: "wf_ctx (upd_file a f c) \<longleftrightarrow> wf_ctx c"
  by (simp add: wf_ctx_def)

lemma led_upd_file [simp]: "led (upd_file a f c) \<longleftrightarrow> led c"
  by (simp add: led_def)

lemma on_fd_wf [wf_rules]: "wf_ctx c \<Longrightarrow> on_fd pid fd f c = Inr c' \<Longrightarrow> wf_ctx c'"
  by (erule on_fd_cases) simp_all

lemma on_fd_led [led_rules]: "led c \<Longrightarrow> on_fd pid fd f c = Inr c' \<Longrightarrow> led c'"
  by (erule on_fd_cases) simp_all

lemma on_fd_frame:
  "on_fd pid fd f c = Inr c' \<Longrightarrow>
    ProcMap c' = ProcMap c \<and> GroupLeaders c' = GroupLeaders c \<and> Procs c' = Procs c \<and>
    FileStorage c' = FileStorage c \<and> Opts c' = Opts c"
  by (erule on_fd_cases) auto

lemma accounted_upd_file:
  assumes "a \<in> live_files c"
  shows "accounted (upd_file a f c) =
    accounted c - GetOutputSize (Files c a) + GetOutputSize (f (Files c a))"
proof -
  have "live_files (upd_file a f c) = live_files c"
    by (simp add: live_files_def)
  then show ?thesis
    using assms by (simp add: accounted_def sum.remove)
qed

lemma slot_live_file:
  "map_of (ProcMap c) pid = Some p \<Longrightarrow> slot (fds_of c p) i = Some a \<Longrightarrow> a \<in> live_files c"
  by (auto simp: live_files_def held_def addrs_slot dest: map_of_live)

lemma on_fd_accounted_same [acc_rules]:
  assumes "on_fd pid fd f c = Inr c'" and "\<And>s. GetOutputSize (f s) = GetOutputSize s"
  shows "accounted c' = accounted c"
  using assms(1)
proof (cases rule: on_fd_cases)
  case (2 p a)
  with assms(2) slot_live_file show ?thesis
    by (simp add: accounted_upd_file)
qed simp

lemma on_fd_total:
  "map_of (ProcMap c) pid \<noteq> None \<Longrightarrow> \<exists>c'. on_fd pid fd f c = Inr c'"
  by (auto simp: on_fd_def GetProcState_def split: option.splits)

section \<open>Closing and duplicating\<close>

text \<open>\<open>closed\<close>: the state after slot \<open>i\<close> of table \<open>p\<close>, holding file \<open>a\<close>, is closed.\<close>

definition closed :: "paddr \<Rightarrow> nat \<Rightarrow> faddr \<Rightarrow> tcontext \<Rightarrow> tcontext" where
  "closed p i a c = set_fds p ((fds_of c p)[i := None])
     (recorded (if count_list (fds_of c p) (Some a) = 1
                then [OutputOfFile (Files c a) (ProcInfo (Procs c p))] else []) c)"

lemma closed_simps [simp]:
  "ProcMap (closed p i a c) = ProcMap c" "GroupLeaders (closed p i a c) = GroupLeaders c"
  "Files (closed p i a c) = Files c" "NextFile (closed p i a c) = NextFile c"
  "NextProc (closed p i a c) = NextProc c" "Opts (closed p i a c) = Opts c"
  "Kills (closed p i a c) = Kills c" "live (closed p i a c) = live c"
  "fds_of (closed p i a c) q = (if q = p then (fds_of c p)[i := None] else fds_of c q)"
  by (simp_all add: closed_def)

lemma OpClose_eq:
  assumes "wf_ctx c" and p: "map_of (ProcMap c) pid = Some p"
  shows "OpClose pid fd c = Inr (case slot (fds_of c p) (unat fd) of
    None \<Rightarrow> c | Some a \<Rightarrow> closed p (unat fd) a c)"
  using TearDownFd_eq [OF wf_exclusive [OF assms(1) map_of_live [OF p]]] p
  by (auto simp: OpClose_def GetProcState_def closed_def split: option.splits)

lemma held_closed: "held (closed p i a c) q \<subseteq> held c q"
  using addrs_update_None [of "fds_of c p" i] by (simp add: held_def)

lemma closed_storage:
  "FileStorage (closed p i a c) = AddFileEntries
     (if count_list (fds_of c p) (Some a) = 1
      then [OutputOfFile (Files c a) (ProcInfo (Procs c p))] else []) (FileStorage c)"
  by (simp add: closed_def)

lemma closed_wf: "wf_ctx c \<Longrightarrow> wf_ctx (closed p i a c)"
  by (rule wf_transfer [of c _ p])
    (use held_closed [of p i a c] in \<open>auto simp: closed_storage wfD(5) AddFileEntries_ok\<close>)

lemma closed_led: "led c \<Longrightarrow> led (closed p i a c)"
  by (rule led_transfer [of c]) (use held_closed [of p i a c] in auto)

lemma count_list_update_None:
  assumes "slot v i = Some a"
  shows "count_list v (Some a) = Suc (count_list (v[i := None]) (Some a))"
proof -
  have i: "i < length v" "v ! i = Some a"
    using slot_SomeD [OF assms] by simp_all
  have "count_list v (Some a) = count (mset v) (Some a)"
    by (simp add: count_mset)
  also have "\<dots> = Suc (count (mset (v[i := None])) (Some a))"
    using i by (simp add: mset_update) (metis Suc_pred count_greater_zero_iff nth_mem_mset)
  finally show ?thesis
    by (simp add: count_mset)
qed

lemma addrs_closed_slot:
  assumes "slot v i = Some a"
  shows "addrs (v[i := None]) = (if count_list v (Some a) = 1 then addrs v - {a} else addrs v)"
proof -
  have i: "i < length v" "v ! i = Some a"
    using slot_SomeD [OF assms] by simp_all
  have other: "b \<in> addrs (v[i := None]) \<longleftrightarrow> b \<in> addrs v" if "b \<noteq> a" for b
    using i that by (auto simp: addrs_slot slot_update assms split: if_splits)
      (metis assms option.inject slot_update)
  moreover have "a \<in> addrs (v[i := None]) \<longleftrightarrow> count_list v (Some a) \<noteq> 1"
    using count_list_update_None [OF assms] by (simp add: addrs_def count_list_0_iff)
  moreover have "a \<in> addrs v"
    using assms by (auto simp: addrs_slot)
  ultimately show ?thesis
    by (intro set_eqI) (metis Diff_iff insert_iff empty_iff)
qed

lemma closed_accounted:
  assumes w: "wf_ctx c" and p: "p \<in> live c" and a: "slot (fds_of c p) i = Some a"
    and cap: "Capacity (FileStorage c) \<noteq> 0"
  shows "accounted (closed p i a c) = accounted c"
proof (cases "count_list (fds_of c p) (Some a) = 1")
  case True
  have ap: "a \<in> held c p"
    using a by (auto simp: held_def addrs_slot)
  have "held (closed p i a c) q = (if q = p then held c p - {a} else held c q)" for q
    using addrs_closed_slot [OF a] True by (simp add: held_def)
  then have "live_files (closed p i a c) = (\<Union>q\<in>live c. if q = p then held c p - {a} else held c q)"
    by (simp add: live_files_def)
  also have "\<dots> = live_files c - {a}"
    using wfD(3) [OF w p] ap p by (fastforce simp: live_files_def split: if_splits)
  finally have "live_files (closed p i a c) = live_files c - {a}" .
  moreover have "a \<in> live_files c"
    using ap p by (auto simp: live_files_def)
  ultimately show ?thesis
    using True cap
    by (simp add: accounted_def closed_storage GetStorageOutputSize_def AddFileEntry_OutputSize
        OutputOfFile_def sum.remove)
next
  case False
  have "held (closed p i a c) q = held c q" for q
    using addrs_closed_slot [OF a] False by (simp add: held_def)
  with False show ?thesis
    by (simp add: accounted_def live_files_def closed_storage)
qed

lemma OpClose_cases:
  assumes "wf_ctx c" and "OpClose pid fd c = Inr c'"
  obtains "c' = c"
  | p a where "map_of (ProcMap c) pid = Some p" "slot (fds_of c p) (unat fd) = Some a"
      "c' = closed p (unat fd) a c"
proof -
  obtain p where p: "map_of (ProcMap c) pid = Some p"
    using assms(2) by (cases "map_of (ProcMap c) pid") (simp_all add: OpClose_def GetProcState_def)
  note eq = OpClose_eq [OF assms(1) p, of fd]
  show thesis
  proof (cases "slot (fds_of c p) (unat fd)")
    case None
    then show thesis
      using assms(2) eq by (intro that(1)) simp
  next
    case (Some a)
    then have "c' = closed p (unat fd) a c"
      using assms(2) eq by simp
    then show thesis
      by (rule that(2) [OF p Some])
  qed
qed

lemma OpClose_wf [wf_rules]: "wf_ctx c \<Longrightarrow> OpClose pid fd c = Inr c' \<Longrightarrow> wf_ctx c'"
  using OpClose_cases [of c pid fd c' "wf_ctx c'"] closed_wf by blast

lemma OpClose_led [led_rules]:
  "wf_ctx c \<Longrightarrow> led c \<Longrightarrow> OpClose pid fd c = Inr c' \<Longrightarrow> led c'"
  using OpClose_cases [of c pid fd c' "led c'"] closed_led by blast

lemma OpClose_accounted [acc_rules]:
  assumes "wf_ctx c" "Capacity (FileStorage c) \<noteq> 0" "OpClose pid fd c = Inr c'"
  shows "accounted c' = accounted c"
  using assms(1,3)
  by (cases rule: OpClose_cases) (use assms in \<open>simp_all add: closed_accounted map_of_live\<close>)

lemma OpClose_total:
  "wf_ctx c \<Longrightarrow> map_of (ProcMap c) pid \<noteq> None \<Longrightarrow> \<exists>c'. OpClose pid fd c = Inr c'"
  using OpClose_eq by fastforce

lemma set_fds_self [simp]: "set_fds p (fds_of c p) c = c"
  by (cases c) (simp add: set_fds_def fds_of_def fun_eq_iff)

lemma grow_store:
  assumes "store_fd p (unat fd) x (grow_fds p fd c) = Inr c'"
  obtains v where "c' = set_fds p v c"
    "\<And>i. slot v i = (if i = unat fd then x else slot (fds_of c p) i)"
proof -
  define w where
    "w = (if unat fd \<ge> length (fds_of c p) then vec_resize (unat (fd + 1)) (fds_of c p) else fds_of c p)"
  have g: "grow_fds p fd c = set_fds p w c"
    by (simp add: grow_fds_def w_def)
  have len: "unat fd < length w" and c': "c' = set_fds p (w[unat fd := x]) c"
    using assms unfolding g by (auto simp: store_fd_def split: if_splits)
  have "slot w i = slot (fds_of c p) i" for i
  proof (cases "unat fd \<ge> length (fds_of c p)")
    case True
    with len have "length (fds_of c p) \<le> unat (fd + 1)"
      by (simp add: w_def)
    with True show ?thesis
      by (auto simp: w_def slot_vec_resize dest: slot_SomeD) (auto simp: slot_def)
  qed (simp add: w_def)
  with len have "slot (w[unat fd := x]) i = (if i = unat fd then x else slot (fds_of c p) i)" for i
    by (simp add: slot_update)
  with c' show thesis
    by (rule that)
qed

lemma addrs_fill:
  assumes "\<And>i. slot v i = (if i = k then Some a else slot w i)" and "slot w k = None"
  shows "addrs v = insert a (addrs w)"
proof (intro set_eqI iffI)
  fix b assume "b \<in> addrs v"
  then show "b \<in> insert a (addrs w)"
    using assms(1) by (auto simp: addrs_slot split: if_splits)
next
  fix b assume "b \<in> insert a (addrs w)"
  moreover have "a \<in> addrs v"
    using assms(1) [of k] by (auto simp: addrs_slot)
  moreover have "b \<in> addrs v" if "slot w i = Some b" for i
    using assms(1) [of i] assms(2) that by (cases "i = k") (auto simp: addrs_slot)
  ultimately show "b \<in> addrs v"
    by (auto simp: addrs_slot [of w])
qed

text \<open>What \<^verbatim>\<open>dup2\<close> does: closes the target, then lets it share the source's file.\<close>

lemma OpDup2_cases:
  assumes w: "wf_ctx c" and "OpDup2 pid oldfd newfd c = Inr (done, c')"
  obtains (same) "oldfd = newfd" "\<not> done" "c' = c"
  | (no_source) c1 where "oldfd \<noteq> newfd" "OpClose pid newfd c = Inr c1" "\<not> done" "c' = c1"
      "\<And>p. map_of (ProcMap c) pid = Some p \<Longrightarrow> slot (fds_of c p) (unat oldfd) = None"
  | (shared) p a c1 v where "oldfd \<noteq> newfd" "OpClose pid newfd c = Inr c1" "done"
      "map_of (ProcMap c) pid = Some p" "slot (fds_of c p) (unat oldfd) = Some a"
      "slot (fds_of c1 p) (unat oldfd) = Some a" "slot (fds_of c1 p) (unat newfd) = None"
      "c' = set_fds p v c1"
      "\<And>i. slot v i = (if i = unat newfd then Some a else slot (fds_of c1 p) i)"
proof -
  obtain p where p: "map_of (ProcMap c) pid = Some p"
    using assms(2) by (cases "map_of (ProcMap c) pid") (simp_all add: OpDup2_def GetProcState_def)
  show thesis
  proof (cases "oldfd = newfd")
    case True
    with assms(2) p show thesis
      by (intro that(1)) (auto simp: OpDup2_def GetProcState_def)
  next
    case False
    then have ne: "unat oldfd \<noteq> unat newfd"
      by (simp add: word_unat_eq_iff)
    obtain c1 where c1: "OpClose pid newfd c = Inr c1"
      using OpClose_total [OF w] p by fastforce
    have c1_eq: "c1 = (case slot (fds_of c p) (unat newfd) of
        None \<Rightarrow> c | Some a \<Rightarrow> closed p (unat newfd) a c)"
      using OpClose_eq [OF w p, of newfd] c1 by simp
    have guard: "(case slot (fds_of c p) (unat newfd) of None \<Rightarrow> Inr c | Some a \<Rightarrow> OpClose pid newfd c) = Inr c1"
      using c1 c1_eq by (auto split: option.splits)
    have s_new: "slot (fds_of c1 p) (unat newfd) = None"
      unfolding c1_eq by (auto simp: slot_def split: option.splits)
    have s_old: "slot (fds_of c1 p) (unat oldfd) = slot (fds_of c p) (unat oldfd)"
      unfolding c1_eq using ne by (auto simp: slot_def split: option.splits)
    show thesis
    proof (cases "slot (fds_of c1 p) (unat oldfd)")
      case None
      with assms(2) p False c1 guard s_old show thesis
        by (intro that(2)) (auto simp: OpDup2_def GetProcState_def)
    next
      case (Some a)
      then obtain c2 where c2: "store_fd p (unat newfd) (Some a) (grow_fds p newfd c1) = Inr c2"
          "c' = c2" "done"
        using assms(2) p False guard by (auto simp: OpDup2_def GetProcState_def bindR_eq_Inr_iff)
      from c2(1) obtain v where v: "c2 = set_fds p v c1"
          "\<And>i. slot v i = (if i = unat newfd then Some a else slot (fds_of c1 p) i)"
        by (rule grow_store) blast
      show thesis
      proof (rule that(3))
        show "slot (fds_of c p) (unat oldfd) = Some a"
          using Some s_old by simp
        show "c' = set_fds p v c1"
          using v(1) c2(2) by simp
      qed (fact False c1 c2 p Some s_new v(2))+
    qed
  qed
qed

lemma OpClose_frame:
  assumes "wf_ctx c" and "OpClose pid fd c = Inr c'"
  shows "ProcMap c' = ProcMap c" "GroupLeaders c' = GroupLeaders c" "Opts c' = Opts c"
    "Files c' = Files c" "Capacity (FileStorage c') = Capacity (FileStorage c)"
  using assms by (auto elim!: OpClose_cases simp: closed_storage)

lemma share_held:
  assumes "slot (fds_of c p) i = Some a" "slot (fds_of c p) k = None"
    and "\<And>j. slot v j = (if j = k then Some a else slot (fds_of c p) j)"
  shows "held (set_fds p v c) q = held c q"
proof -
  have "addrs v = insert a (addrs (fds_of c p))"
    using assms by (intro addrs_fill) auto
  also have "\<dots> = addrs (fds_of c p)"
    using assms(1) by (auto simp: addrs_slot)
  finally show ?thesis
    by (simp add: held_def)
qed

lemma set_fds_same_held:
  assumes "held (set_fds p v c) = held c"
  shows "wf_ctx (set_fds p v c) \<longleftrightarrow> wf_ctx c" and "led (set_fds p v c) \<longleftrightarrow> led c"
    and "accounted (set_fds p v c) = accounted c"
  by (simp_all only: wf_ctx_def led_def accounted_def live_files_def assms live_frames set_fds_simps)

lemma OpDup2_effect:
  assumes "wf_ctx c" and "OpDup2 pid oldfd newfd c = Inr (done, c')"
  obtains "c' = c"
  | c1 where "OpClose pid newfd c = Inr c1" "c' = c1"
  | c1 p v where "OpClose pid newfd c = Inr c1" "c' = set_fds p v c1" "held (set_fds p v c1) = held c1"
  using assms
proof (cases rule: OpDup2_cases)
  case (shared p a c1 v)
  have "held (set_fds p v c1) = held c1"
    using share_held [OF shared(6,7,9)] by (simp add: fun_eq_iff)
  with shared show thesis
    by (intro that(3))
qed (use that in blast)+

lemma OpDup2_wf [wf_rules]:
  assumes "wf_ctx c" "OpDup2 pid oldfd newfd c = Inr (done, c')"
  shows "wf_ctx c'"
  using assms
  by (cases rule: OpDup2_effect) (use assms in \<open>auto simp: set_fds_same_held intro: OpClose_wf\<close>)

lemma OpDup2_led [led_rules]:
  assumes "wf_ctx c" "led c" "OpDup2 pid oldfd newfd c = Inr (done, c')"
  shows "led c'"
  using assms(1,3)
  by (cases rule: OpDup2_effect) (use assms in \<open>auto simp: set_fds_same_held intro: OpClose_led\<close>)

lemma OpDup2_accounted [acc_rules]:
  assumes "wf_ctx c" "Capacity (FileStorage c) \<noteq> 0" "OpDup2 pid oldfd newfd c = Inr (done, c')"
  shows "accounted c' = accounted c"
  using assms(1,3)
  by (cases rule: OpDup2_effect)
    (use assms in \<open>auto simp: set_fds_same_held OpClose_accounted\<close>)

lemma OpDup2_frame:
  assumes "wf_ctx c" and "OpDup2 pid oldfd newfd c = Inr (done, c')"
  shows "ProcMap c' = ProcMap c" "GroupLeaders c' = GroupLeaders c" "Opts c' = Opts c"
    "Files c' = Files c" "Capacity (FileStorage c') = Capacity (FileStorage c)"
  using assms
  by (cases rule: OpDup2_effect; use assms in \<open>simp add: OpClose_frame [OF assms(1)]\<close>; fail)+

text \<open>\<^verbatim>\<open>dup3\<close> adds a change of one file's flags.\<close>

lemma OpDup3_effect:
  assumes w: "wf_ctx c" and "OpDup3 pid oldfd newfd flags c = Inr (done, c')"
  obtains "OpDup2 pid oldfd newfd c = Inr (done, c')" "\<not> done"
  | p a c1 where "OpDup2 pid oldfd newfd c = Inr (True, c1)" "done"
      "map_of (ProcMap c1) pid = Some p" "slot (fds_of c1 p) (unat newfd) = Some a"
      "c' = upd_file a (SetCloexecFlag (flags AND O_CLOEXEC \<noteq> 0)) c1"
proof -
  obtain d c1 where d: "OpDup2 pid oldfd newfd c = Inr (d, c1)"
    using assms(2) by (auto simp: OpDup3_def OpDup_def bindR_eq_Inr_iff)
  show thesis
  proof (cases d)
    case False
    with assms(2) d show thesis
      by (intro that(1)) (auto simp: OpDup3_def OpDup_def)
  next
    case True
    then obtain p where p: "map_of (ProcMap c1) pid = Some p"
      using assms(2) d by (cases "map_of (ProcMap c1) pid") (simp_all add: OpDup3_def OpDup_def GetProcState_def)
    show thesis
    proof (cases "slot (fds_of c1 p) (unat newfd)")
      case None
      with assms(2) d True p show thesis
        by (simp add: OpDup3_def OpDup_def GetProcState_def)
    next
      case (Some a)
      with assms(2) d True p show thesis
        by (intro that(2)) (auto simp: OpDup3_def OpDup_def GetProcState_def)
    qed
  qed
qed

lemma OpDup3_wf [wf_rules]:
  assumes "wf_ctx c" "OpDup3 pid oldfd newfd flags c = Inr (done, c')"
  shows "wf_ctx c'"
  using assms
  by (cases rule: OpDup3_effect) (use assms in \<open>auto intro: OpDup2_wf\<close>)

lemma OpDup3_led [led_rules]:
  assumes "wf_ctx c" "led c" "OpDup3 pid oldfd newfd flags c = Inr (done, c')"
  shows "led c'"
  using assms(1,3)
  by (cases rule: OpDup3_effect) (use assms in \<open>auto intro: OpDup2_led\<close>)

lemma OpDup3_accounted [acc_rules]:
  assumes "wf_ctx c" "Capacity (FileStorage c) \<noteq> 0" "OpDup3 pid oldfd newfd flags c = Inr (done, c')"
  shows "accounted c' = accounted c"
  using assms(1,3)
proof (cases rule: OpDup3_effect)
  case (2 p a c1)
  then show ?thesis
    using assms slot_live_file [OF 2(3,4)] by (simp add: accounted_upd_file OpDup2_accounted)
qed (use assms in \<open>auto simp: OpDup2_accounted\<close>)

section \<open>Opening\<close>

lemma OpOpenWriteFile_cases:
  assumes "OpOpenWriteFile os pid fd flags c = Inr c'"
  obtains p filename ks v where "map_of (ProcMap c) pid = Some p"
    "LinkTarget os (''/proc/'' @ show_int pid @ ''/fd/'' @ show_nat (unat fd)) = Some filename"
    "c' = set_fds p v (alloc_file (NewFileState (Stat os) filename flags) (c\<lparr>Kills := ks\<rparr>))"
    "\<And>i. slot v i = (if i = unat fd then Some (NextFile c) else slot (fds_of c p) i)"
proof -
  obtain p where p: "map_of (ProcMap c) pid = Some p"
    using assms by (cases "map_of (ProcMap c) pid") (simp_all add: OpOpenWriteFile_def GetProcState_def)
  obtain filename where f:
    "LinkTarget os (''/proc/'' @ show_int pid @ ''/fd/'' @ show_nat (unat fd)) = Some filename"
    using assms p
    by (cases "LinkTarget os (''/proc/'' @ show_int pid @ ''/fd/'' @ show_nat (unat fd))")
      (simp_all add: OpOpenWriteFile_def GetProcState_def ReadLink_def Let_def)
  define g where "g = grow_fds p fd c"
  define k where "k = (if InterruptionSignal (Opts g) \<noteq> 0
    then ProcessInterruptionTarget os pid filename g else g)"
  define ks where "ks = Kills k"
  have k: "k = g\<lparr>Kills := ks\<rparr>"
    by (simp add: ks_def) (simp add: k_def ProcessInterruptionTarget_def)
  define w where
    "w = (if unat fd \<ge> length (fds_of c p) then vec_resize (unat (fd + 1)) (fds_of c p) else fds_of c p)"
  have g: "g = set_fds p w c"
    by (simp add: g_def grow_fds_def w_def)
  let ?n = "NewFileState (Stat os) filename flags"
  have "store_fd p (unat fd) (Some (NextFile k)) (alloc_file ?n k) = Inr c'"
    using assms p f unfolding k_def g_def
    by (simp add: OpOpenWriteFile_def GetProcState_def ReadLink_def Let_def)
  moreover have "NextFile k = NextFile c"
    by (simp add: k g)
  ultimately have st: "store_fd p (unat fd) (Some (NextFile c)) (alloc_file ?n k) = Inr c'"
    by simp
  have fk: "fds_of (alloc_file ?n k) p = w"
    by (simp add: k g fds_of_def set_fds_def)
  have len: "unat fd < length w" and c': "c' = set_fds p (w[unat fd := Some (NextFile c)]) (alloc_file ?n k)"
    using st fk by (auto simp: store_fd_def split: if_splits)
  have "store_fd p (unat fd) (Some (NextFile c)) g = Inr (set_fds p (w[unat fd := Some (NextFile c)]) c)"
    using len by (simp add: store_fd_def g)
  then obtain v where v: "set_fds p (w[unat fd := Some (NextFile c)]) c = set_fds p v c"
      "\<And>i. slot v i = (if i = unat fd then Some (NextFile c) else slot (fds_of c p) i)"
    unfolding g_def by (rule grow_store) blast
  have "w[unat fd := Some (NextFile c)] = v"
    using arg_cong [OF v(1), of "\<lambda>c. fds_of c p"] by simp
  then have "c' = set_fds p v (alloc_file ?n (c\<lparr>Kills := ks\<rparr>))"
    unfolding c' k g by (cases c) (simp add: set_fds_def alloc_file_def fun_eq_iff)
  then show thesis
    by (rule that [OF p f _ v(2)])
qed

lemma Kills_frames [simp]:
  "fds_of (c\<lparr>Kills := ks\<rparr>) = fds_of c" "held (c\<lparr>Kills := ks\<rparr>) = held c" "live (c\<lparr>Kills := ks\<rparr>) = live c"
  by (simp_all add: held_def fds_of_def live_def fun_eq_iff)

lemma held_open:
  assumes "\<And>i. slot v i = (if i = k then Some a else slot (fds_of c p) i)"
  shows "held (set_fds p v c') q \<subseteq> (if q = p then insert a (held c p) else held c' q)"
  using assms by (auto simp: held_def addrs_slot split: if_splits)

lemma OpOpenWriteFile_wf [wf_rules]:
  assumes w: "wf_ctx c" and "OpOpenWriteFile os pid fd flags c = Inr c'"
  shows "wf_ctx c'"
  using assms(2)
proof (cases rule: OpOpenWriteFile_cases)
  case (1 p filename ks v)
  let ?c = "alloc_file (NewFileState (Stat os) filename flags) (c\<lparr>Kills := ks\<rparr>)"
  have "held ?c q = held c q" for q
    by simp
  then have "held c' q \<subseteq> held c q \<union> (if q = p then {NextFile c..<NextFile c'} else {})" for q
    using held_open [of v "unat fd" "NextFile c" c p ?c q, OF 1(4)] by (auto simp: 1(3) split: if_splits)
  note held = this
  show ?thesis
  proof (rule wf_transfer [OF w, where p = p])
    show "held c' q \<subseteq> held c q \<union> (if q = p then {NextFile c..<NextFile c'} else {})" for q
      by (rule held)
    show "storage_ok (FileStorage c')"
      using wfD(5) [OF w] by (simp add: 1(3))
  qed (simp_all add: 1(3))
qed

lemma OpOpenWriteFile_led [led_rules]:
  assumes l: "led c" and "OpOpenWriteFile os pid fd flags c = Inr c'"
    and "\<And>p. map_of (ProcMap c) pid = Some p \<Longrightarrow> has_leader c p"
  shows "led c'"
  using assms(2)
proof (cases rule: OpOpenWriteFile_cases)
  case (1 p filename ks v)
  let ?c = "alloc_file (NewFileState (Stat os) filename flags) (c\<lparr>Kills := ks\<rparr>)"
  have h: "held ?c q = held c q" for q
    by simp
  show ?thesis
  proof (rule led_transfer [OF l])
    show "held c q \<noteq> {} \<or> has_leader c q" if "q \<in> live c" "held c' q \<noteq> {}" for q
      using that assms(3) [OF 1(1)] h by (cases "q = p") (auto simp: 1(3))
  qed (simp_all add: 1(3))
qed

text \<open>A descriptor that was free before the call adds nothing to the total.\<close>

lemma OpOpenWriteFile_accounted [acc_rules]:
  assumes w: "wf_ctx c" and "OpOpenWriteFile os pid fd flags c = Inr c'"
    and free: "\<And>p. map_of (ProcMap c) pid = Some p \<Longrightarrow> slot (fds_of c p) (unat fd) = None"
  shows "accounted c' = accounted c"
  using assms(2)
proof (cases rule: OpOpenWriteFile_cases)
  case (1 p filename ks v)
  let ?n = "NewFileState (Stat os) filename flags"
  have h: "held c' q = (if q = p then insert (NextFile c) (held c q) else held c q)" for q
  proof -
    have "addrs v = insert (NextFile c) (addrs (fds_of c p))"
      using 1(4) free [OF 1(1)] by (intro addrs_fill)
    then show ?thesis
      by (simp add: 1(3) held_def)
  qed
  have lv: "live c' = live c"
    by (simp add: 1(3) live_def)
  have "live_files c' = insert (NextFile c) (live_files c)"
    using map_of_live [OF 1(1)] by (auto simp: live_files_def lv h split: if_splits)
  moreover have new: "NextFile c \<notin> live_files c"
    using wfD(2) [OF w] by (fastforce simp: live_files_def)
  moreover have "(\<Sum>a\<in>live_files c. GetOutputSize (Files c' a)) = (\<Sum>a\<in>live_files c. GetOutputSize (Files c a))"
    using new by (intro sum.cong) (auto simp: 1(3))
  ultimately show ?thesis
    by (simp add: accounted_def) (simp add: 1(3))
qed

end
