(* ===== verification/ContextReg.thy ===== *)
theory ContextReg
  imports ContextOps
begin

text \<open>
  Registration: threads, forked processes, execs and the first tracee. The copying loops are
  described by \<open>inherits\<close>; every registration ends by installing a fresh table under a process id,
  whose effect on the invariant and on the total is proved once.
\<close>

section \<open>Inherited tables\<close>

lemma slot_Cons_0 [simp]: "slot (x # v) 0 = x"
  by (simp add: slot_def)

lemma slot_Cons_Suc [simp]: "slot (x # v) (Suc i) = slot v i"
  by (simp add: slot_def)

lemma slot_take: "slot (take n v) i = (if i < n then slot v i else None)"
  by (simp add: slot_def)

text \<open>Each kept descriptor has a new file, a copy of the old one, which no other descriptor shares.\<close>

definition inherited ::
  "os \<Rightarrow> (file_state \<Rightarrow> bool) \<Rightarrow> tcontext \<Rightarrow> tcontext \<Rightarrow> faddr option \<Rightarrow> faddr option \<Rightarrow> bool" where
  "inherited os keep c c' x y \<longleftrightarrow>
     (case x of
        None \<Rightarrow> y = None
      | Some a \<Rightarrow>
          (if keep (Files c a) then
             \<exists>b. y = Some b \<and> NextFile c \<le> b \<and> b < NextFile c' \<and>
               Files c' b = CopyFileState (Stat os) (Files c a)
           else y = None))"

definition inherits ::
  "os \<Rightarrow> (file_state \<Rightarrow> bool) \<Rightarrow> tcontext \<Rightarrow> faddr option list \<Rightarrow> tcontext \<Rightarrow> faddr option list \<Rightarrow> bool" where
  "inherits os keep c fds c' newfds \<longleftrightarrow>
     (\<forall>i. inherited os keep c c' (slot fds i) (slot newfds i)) \<and>
     (\<forall>i j b. slot newfds i = Some b \<longrightarrow> slot newfds j = Some b \<longrightarrow> i = j)"

lemma inherited_None [simp]: "inherited os keep c c' None y \<longleftrightarrow> y = None"
  by (simp add: inherited_def)

lemma inherits_ConsI:
  assumes head: "inherited os keep c c' x y"
    and tail: "\<And>i. inherited os keep c c' (slot fds i) (slot newfds i)"
    and fresh: "\<And>i b. y = Some b \<Longrightarrow> slot newfds i \<noteq> Some b"
    and inj: "\<And>i j b. slot newfds i = Some b \<Longrightarrow> slot newfds j = Some b \<Longrightarrow> i = j"
  shows "inherits os keep c (x # fds) c' (y # newfds)"
  unfolding inherits_def
proof (intro conjI allI impI)
  show "inherited os keep c c' (slot (x # fds) i) (slot (y # newfds) i)" for i
    using head tail by (cases i) simp_all
  show "i = j" if "slot (y # newfds) i = Some b" "slot (y # newfds) j = Some b" for i j b
    using that fresh [where b = b] inj [where b = b] by (cases i; cases j; simp; blast)
qed

text \<open>What the loops leave alone.\<close>

definition only_new_files :: "tcontext \<Rightarrow> tcontext \<Rightarrow> bool" where
  "only_new_files c c' \<longleftrightarrow>
     ProcMap c' = ProcMap c \<and> GroupLeaders c' = GroupLeaders c \<and> FileStorage c' = FileStorage c \<and>
     Procs c' = Procs c \<and> NextProc c' = NextProc c \<and> Opts c' = Opts c \<and> Kills c' = Kills c \<and>
     NextFile c \<le> NextFile c' \<and> (\<forall>a<NextFile c. Files c' a = Files c a)"

lemma only_new_files_refl [simp]: "only_new_files c c"
  by (simp add: only_new_files_def)

lemma only_new_files_trans: "only_new_files c d \<Longrightarrow> only_new_files d e \<Longrightarrow> only_new_files c e"
  by (auto simp: only_new_files_def)

lemma only_new_files_alloc: "only_new_files c (alloc_file f c)"
  by (simp add: only_new_files_def)

lemma inherits_skip:
  "inherits os keep c fds c' newfds \<Longrightarrow> inherited os keep c c' x None \<Longrightarrow>
    inherits os keep c (x # fds) c' (None # newfds)"
  by (rule inherits_ConsI) (auto simp: inherits_def)

lemma inherits_keep:
  fixes os :: os and c :: tcontext and a :: faddr
  defines "d \<equiv> alloc_file (CopyFileState (Stat os) (Files c a)) c"
  assumes inh: "inherits os keep d fds c' newfds" and new: "only_new_files d c'"
    and k: "keep (Files c a)" and old: "addrs fds \<subseteq> {..<NextFile c}"
  shows "inherits os keep c (Some a # fds) c' (Some (NextFile c) # newfds)"
proof (rule inherits_ConsI)
  have tail: "inherited os keep d c' (slot fds i) (slot newfds i)" for i
    using inh by (simp add: inherits_def)
  show "inherited os keep c c' (Some a) (Some (NextFile c))"
    using new k by (auto simp: inherited_def only_new_files_def d_def)
  show "inherited os keep c c' (slot fds i) (slot newfds i)" for i
  proof (cases "slot fds i")
    case (Some b)
    then have "Files d b = Files c b"
      using old by (auto simp: addrs_slot d_def)
    moreover have "Suc (NextFile c) \<le> e \<Longrightarrow> NextFile c \<le> e" for e
      by simp
    ultimately show ?thesis
      using tail [of i] Some by (auto simp: inherited_def d_def split: if_splits)
  qed (use tail [of i] in simp)
  show "slot newfds i \<noteq> Some b" if "Some (NextFile c) = Some b" for i b
    using tail [of i] that by (auto simp: inherited_def d_def split: option.splits if_splits)
  show "slot newfds i = Some b \<Longrightarrow> slot newfds j = Some b \<Longrightarrow> i = j" for i j b
    using inh by (simp add: inherits_def)
qed

lemma copy_fds_inherits:
  "addrs fds \<subseteq> {..<NextFile c} \<Longrightarrow> copy_fds os keep fds c = (newfds, c') \<Longrightarrow>
    inherits os keep c fds c' newfds \<and> only_new_files c c' \<and> length newfds = length fds"
proof (induction os keep fds c arbitrary: newfds c' rule: copy_fds.induct)
  case (1 os keep c)
  then show ?case by (simp add: inherits_def)
next
  case (2 os keep fds c)
  then obtain vs where "copy_fds os keep fds c = (vs, c')" "newfds = None # vs"
    by (auto split: prod.splits)
  with 2 inherits_skip [of os keep c fds c' vs None] show ?case
    by (auto simp: addrs_Cons)
next
  case (3 os keep a fds c)
  show ?case
  proof (cases "keep (Files c a)")
    case False
    with 3(4) obtain vs where "copy_fds os keep fds c = (vs, c')" "newfds = None # vs"
      by (auto split: prod.splits)
    moreover have "inherited os keep c c' (Some a) None"
      using False by (simp add: inherited_def)
    ultimately show ?thesis
      using 3 False inherits_skip [of os keep c fds c' vs "Some a"] by (auto simp: addrs_Cons)
  next
    case True
    let ?d = "alloc_file (CopyFileState (Stat os) (Files c a)) c"
    obtain vs where vs: "copy_fds os keep fds ?d = (vs, c')" "newfds = Some (NextFile c) # vs"
      using 3(4) True by (auto split: prod.splits)
    have old: "addrs fds \<subseteq> {..<NextFile c}"
      using 3(3) by (auto simp: addrs_Cons)
    then have "addrs fds \<subseteq> {..<NextFile ?d}"
      by auto
    from 3(1) [OF True this vs(1)] have
      "inherits os keep ?d fds c' vs" "only_new_files ?d c'" "length vs = length fds"
      by simp_all
    with inherits_keep [of os keep c a fds c' vs, OF _ _ True old]
      only_new_files_trans [OF only_new_files_alloc] vs(2)
    show ?thesis
      by simp
  qed
qed

text \<open>The highest descriptor worth copying: all above it are empty or not kept.\<close>

lemma highest_fd_spec:
  "n \<le> length fds \<Longrightarrow> highest_fd c cloexecFree fds n < int n \<and>
    (\<forall>i a. highest_fd c cloexecFree fds n < int i \<longrightarrow> i < n \<longrightarrow> slot fds i = Some a \<longrightarrow>
      cloexecFree \<and> IsCloexecSet (Files c a))"
proof (induction n)
  case (Suc n)
  have "slot fds n = fds ! n"
    using Suc.prems by (simp add: slot_def)
  with Suc show ?case
    by (auto simp: less_Suc_eq split: option.splits)
qed simp

lemma copy_table_inherits:
  assumes old: "addrs fds \<subseteq> {..<NextFile c}"
    and copy: "copy_table os (\<lambda>f. cloexecFree \<longrightarrow> \<not> IsCloexecSet f) (GetHighestFd c fds cloexecFree) fds c
      = (newfds, c')"
  shows "inherits os (\<lambda>f. cloexecFree \<longrightarrow> \<not> IsCloexecSet f) c fds c' newfds" and "only_new_files c c'"
proof -
  let ?keep = "\<lambda>f. cloexecFree \<longrightarrow> \<not> IsCloexecSet f" and ?h = "GetHighestFd c fds cloexecFree"
  have above: "cloexecFree \<and> IsCloexecSet (Files c a)" if "?h < int i" "slot fds i = Some a" for i a
    using highest_fd_spec [of "length fds" fds c cloexecFree] that slot_SomeD [OF that(2)]
    by (auto simp: GetHighestFd_def)
  have "inherits os ?keep c (take (nat (?h + 1)) fds) c' newfds \<and> only_new_files c c'"
  proof (cases "0 \<le> ?h")
    case True
    have "addrs (take (nat (?h + 1)) fds) \<subseteq> addrs fds"
      by (auto simp: addrs_slot slot_take split: if_splits)
    with old copy True show ?thesis
      using copy_fds_inherits [of "take (nat (?h + 1)) fds" c os ?keep newfds c']
      by (simp add: copy_table_def nat_add_distrib)
  next
    case False
    with copy show ?thesis
      by (simp add: copy_table_def inherits_def)
  qed
  then have trimmed: "inherits os ?keep c (take (nat (?h + 1)) fds) c' newfds"
    and "only_new_files c c'"
    by simp_all
  then show "only_new_files c c'"
    by simp
  show "inherits os ?keep c fds c' newfds"
    unfolding inherits_def
  proof (intro conjI allI)
    fix i
    have t: "inherited os ?keep c c' (slot (take (nat (?h + 1)) fds) i) (slot newfds i)"
      using trimmed by (simp add: inherits_def)
    show "inherited os ?keep c c' (slot fds i) (slot newfds i)"
    proof (cases "i < nat (?h + 1)")
      case True
      with t show ?thesis
        by (simp add: slot_take)
    next
      case False
      then have "?h < int i" "slot newfds i = None"
        using t by (auto simp: slot_take)
      then show ?thesis
        using above by (auto simp: inherited_def split: option.splits)
    qed
  qed (use trimmed in \<open>simp add: inherits_def\<close>)
qed

section \<open>Installing a fresh table\<close>

lemma only_new_files_fds [simp]: "only_new_files c c' \<Longrightarrow> fds_of c' = fds_of c"
  by (simp add: only_new_files_def fds_of_def fun_eq_iff)

lemma only_new_files_held [simp]: "only_new_files c c' \<Longrightarrow> held c' = held c"
  by (simp add: held_def fun_eq_iff)

lemma only_new_files_live [simp]: "only_new_files c c' \<Longrightarrow> live c' = live c"
  by (simp add: only_new_files_def live_def)

lemma only_new_files_wf: "only_new_files c c' \<Longrightarrow> wf_ctx c \<Longrightarrow> wf_ctx c'"
  by (rule wf_transfer [of c]) (auto simp: only_new_files_def wf_ctx_def held_def fds_of_def)

lemma only_new_files_led: "only_new_files c c' \<Longrightarrow> led c \<Longrightarrow> led c'"
  by (rule led_transfer [of c]) (auto simp: only_new_files_def held_def fds_of_def)

lemma sum_live_files_old:
  assumes "wf_ctx c" and "\<And>a. a < NextFile c \<Longrightarrow> Files c' a = Files c a"
  shows "(\<Sum>a\<in>live_files c. GetOutputSize (Files c' a)) = (\<Sum>a\<in>live_files c. GetOutputSize (Files c a))"
  using assms wfD(2) [OF assms(1)] by (intro sum.cong) (auto simp: live_files_def)

lemma only_new_files_accounted: "only_new_files c c' \<Longrightarrow> wf_ctx c \<Longrightarrow> accounted c' = accounted c"
  using sum_live_files_old [of c c']
  by (simp add: accounted_def live_files_def only_new_files_def)
    (simp add: only_new_files_def held_def live_def fds_of_def)

lemma held_alloc_proc:
  "held (alloc_proc ps c) q = (if q = NextProc c then addrs (Fds ps) else held c q)"
  by (simp add: held_def)

lemma alloc_proc_wf:
  assumes w: "wf_ctx c"
  shows "wf_ctx (alloc_proc ps c)"
proof (rule wf_transfer [OF w, where p = 0])
  show "held (alloc_proc ps c) q \<subseteq>
    held c q \<union> (if q = 0 then {NextFile c..<NextFile (alloc_proc ps c)} else {})" if "q \<in> live c" for q
    using wfD(1) [OF w that] by (simp add: held_alloc_proc)
qed (use wfD(5) [OF w] in simp_all)

lemma alloc_proc_led: "wf_ctx c \<Longrightarrow> led c \<Longrightarrow> led (alloc_proc ps c)"
  by (rule led_transfer [of c]) (auto simp: held_alloc_proc dest: wfD(1))

lemma live_files_alloc_proc: "wf_ctx c \<Longrightarrow> live_files (alloc_proc ps c) = live_files c"
  unfolding live_files_def live_frames
  by (intro SUP_cong) (auto simp: held_alloc_proc dest: wfD(1))

lemma alloc_proc_accounted: "wf_ctx c \<Longrightarrow> accounted (alloc_proc ps c) = accounted c"
  by (simp add: accounted_def live_files_alloc_proc)

lemma other_known:
  "wf_ctx c \<Longrightarrow> map_of (ProcMap c) pid = None \<Longrightarrow>
    (\<exists>k. k \<noteq> pid \<and> map_of (ProcMap c) k = Some q) \<longleftrightarrow> q \<in> live c"
  by (metis live_map_of option.distinct(1) wf_distinct)

lemma live_install:
  assumes "wf_ctx c" and "map_of (ProcMap c) pid = None"
  shows "live (install pid p c) = insert p (live c)"
proof -
  have "q \<in> live (install pid p c) \<longleftrightarrow> Some p = Some q \<or> (\<exists>k. k \<noteq> pid \<and> map_of (ProcMap c) k = Some q)" for q
    using assms by (intro live_update) (auto simp: update_conv' distinct_update)
  then show ?thesis
    unfolding other_known [OF assms] by auto
qed

lemma install_wf:
  assumes w: "wf_ctx c" and fresh: "map_of (ProcMap c) pid = None"
    and p: "p < NextProc c" "p \<notin> live c" "held c p \<subseteq> {..<NextFile c}" "held c p \<inter> live_files c = {}"
  shows "wf_ctx (install pid p c)"
proof (rule wfI)
  note lv = live_install [OF w fresh, of p]
  have apart: "held c q \<inter> held c p = {}" if "q \<in> live c" for q
    using p(4) that by (auto simp: live_files_def)
  show "q < NextProc (install pid p c)" if "q \<in> live (install pid p c)" for q
    using that p wfD(1) [OF w] by (auto simp: lv)
  show "a < NextFile (install pid p c)"
    if "q \<in> live (install pid p c)" "a \<in> held (install pid p c) q" for q a
    using that p wfD(2) [OF w] by (auto simp: lv)
  show "held (install pid p c) q \<inter> held (install pid p c) r = {}"
    if "q \<in> live (install pid p c)" "r \<in> live (install pid p c)" "q \<noteq> r" for q r
    using that apart wfD(3) [OF w, of q r] by (auto simp: lv)
  show "GroupLeaders (install pid p c) \<subseteq> fst ` set (ProcMap (install pid p c))"
    using leader_known [OF w] by (fastforce simp: known_iff update_conv')
qed (use w in \<open>auto simp: wf_ctx_def distinct_update\<close>)

lemma install_led:
  assumes "wf_ctx c" "led c" and fresh: "map_of (ProcMap c) pid = None"
  shows "led (install pid p c)"
  unfolding led_def
proof (intro ballI impI)
  fix q assume q: "q \<in> live (install pid p c)" and ne: "held (install pid p c) q \<noteq> {}"
  show "\<exists>l\<in>GroupLeaders (install pid p c). map_of (ProcMap (install pid p c)) l = Some q"
  proof (cases "q = p")
    case True
    then show ?thesis
      by (intro bexI [of _ pid]) (simp_all add: update_conv')
  next
    case False
    with q ne assms obtain l where l: "l \<in> GroupLeaders c" "map_of (ProcMap c) l = Some q"
      by (auto simp: live_install led_def)
    moreover have "l \<noteq> pid"
      using l fresh by auto
    ultimately show ?thesis
      by (intro bexI [of _ l]) (simp_all add: update_conv')
  qed
qed

lemma install_accounted:
  assumes "wf_ctx c" "map_of (ProcMap c) pid = None" "held c p \<inter> live_files c = {}"
  shows "accounted (install pid p c) = accounted c + (\<Sum>a\<in>held c p. GetOutputSize (Files c a))"
proof -
  have "live_files (install pid p c) = held c p \<union> live_files c"
    using assms by (auto simp: live_files_def live_install)
  moreover have "finite (held c p)"
    by (simp add: held_def)
  ultimately show ?thesis
    using assms(3) by (simp add: accounted_def sum.union_disjoint)
qed

section \<open>Threads\<close>

lemma RegisterThread_wf [wf_rules]:
  assumes w: "wf_ctx c" and r: "RegisterThread pid thread c = Inr c'"
  shows "wf_ctx c'"
proof -
  obtain p where p: "map_of (ProcMap c) pid = Some p" and c': "c' = c\<lparr>ProcMap := AList.update thread p (ProcMap c)\<rparr>"
    using r by (auto simp: RegisterThread_def split: option.splits)
  have "q \<in> live c' \<longleftrightarrow> Some p = Some q \<or> (\<exists>k. k \<noteq> thread \<and> map_of (ProcMap c) k = Some q)" for q
    using w by (intro live_update) (auto simp: c' update_conv' distinct_update)
  then have sub: "q \<in> live c" if "q \<in> live c'" for q
    using that map_of_live [OF p] map_of_live by auto
  have h: "held c' = held c"
    by (simp add: c' held_def fds_of_def fun_eq_iff)
  show ?thesis
  proof (rule wfI)
    show "GroupLeaders c' \<subseteq> fst ` set (ProcMap c')"
      using leader_known [OF w] by (fastforce simp: c' known_iff update_conv')
    show "distinct (map fst (ProcMap c'))"
      using w by (simp add: c' distinct_update)
    show "q < NextProc c'" if "q \<in> live c'" for q
      using wfD(1) [OF w sub [OF that]] by (simp add: c')
    show "a < NextFile c'" if "q \<in> live c'" "a \<in> held c' q" for q a
      using wfD(2) [OF w sub [OF that(1)]] that(2) h by (simp add: c')
    show "held c' q \<inter> held c' r = {}" if "q \<in> live c'" "r \<in> live c'" "q \<noteq> r" for q r
      using wfD(3) [OF w sub [OF that(1)] sub [OF that(2)] that(3)] h by simp
    show "storage_ok (FileStorage c')"
      using wfD(5) [OF w] by (simp add: c')
  qed
qed

lemma RegisterThread_fresh:
  assumes w: "wf_ctx c" and r: "RegisterThread pid thread c = Inr c'"
    and fresh: "map_of (ProcMap c) thread = None"
  shows "live c' = live c" "held c' = held c"
proof -
  obtain p where p: "map_of (ProcMap c) pid = Some p" and c': "c' = c\<lparr>ProcMap := AList.update thread p (ProcMap c)\<rparr>"
    using r by (auto simp: RegisterThread_def split: option.splits)
  have "q \<in> live c' \<longleftrightarrow> Some p = Some q \<or> (\<exists>k. k \<noteq> thread \<and> map_of (ProcMap c) k = Some q)" for q
    using w by (intro live_update) (auto simp: c' update_conv' distinct_update)
  then show "live c' = live c"
    unfolding other_known [OF w fresh] using map_of_live [OF p] by auto
  show "held c' = held c"
    by (simp add: c' held_def fds_of_def fun_eq_iff)
qed

lemma RegisterThread_led [led_rules]:
  assumes w: "wf_ctx c" and l: "led c" and r: "RegisterThread pid thread c = Inr c'"
    and fresh: "map_of (ProcMap c) thread = None"
  shows "led c'"
proof -
  obtain p where c': "c' = c\<lparr>ProcMap := AList.update thread p (ProcMap c)\<rparr>"
    using r by (auto simp: RegisterThread_def split: option.splits)
  have "map_of (ProcMap c') k = map_of (ProcMap c) k" if "map_of (ProcMap c) k \<noteq> None" for k
    using that fresh by (auto simp: c' update_conv')
  moreover have "GroupLeaders c' = GroupLeaders c"
    by (simp add: c')
  ultimately show ?thesis
    using l unfolding led_def RegisterThread_fresh [OF w r fresh] by fastforce
qed

lemma RegisterThread_accounted [acc_rules]:
  assumes "wf_ctx c" and r: "RegisterThread pid thread c = Inr c'"
    and "map_of (ProcMap c) thread = None"
  shows "accounted c' = accounted c"
proof -
  have "FileStorage c' = FileStorage c" "Files c' = Files c"
    using r by (auto simp: RegisterThread_def split: option.splits)
  then show ?thesis
    by (simp add: accounted_def live_files_def RegisterThread_fresh [OF assms])
qed

section \<open>Processes\<close>

lemma inherits_new:
  assumes "inherits os keep c fds c' newfds"
  shows "addrs newfds \<subseteq> {NextFile c..<NextFile c'}"
proof
  fix b assume "b \<in> addrs newfds"
  then obtain i where b: "slot newfds i = Some b"
    by (auto simp: addrs_slot)
  have "inherited os keep c c' (slot fds i) (slot newfds i)"
    using assms by (simp add: inherits_def)
  with b show "b \<in> {NextFile c..<NextFile c'}"
    by (auto simp: inherited_def split: option.splits if_splits)
qed

lemma table_allocated: "wf_ctx c \<Longrightarrow> p \<in> live c \<Longrightarrow> addrs (fds_of c p) \<subseteq> {..<NextFile c}"
  using wfD(2) [of c p] by (auto simp: held_def)

lemma RegisterProcess_cases:
  assumes w: "wf_ctx c" and r: "RegisterProcess os parent child c = Inr c'"
  obtains p newfds c1 where "map_of (ProcMap c) parent = Some p" "map_of (ProcMap c) child = None"
    "inherits os (\<lambda>_. True) c (fds_of c p) c1 newfds" "only_new_files c c1"
    "c' = install child (NextProc c) (alloc_proc ((NewProcState os c child parent)\<lparr>Fds := newfds\<rparr>) c1)"
proof -
  obtain p where p: "map_of (ProcMap c) parent = Some p" "map_of (ProcMap c) child = None"
    using r by (auto simp: RegisterProcess_def GetProcState_def bindR_eq_Inr_iff split: option.splits)
  obtain newfds c1 where copy:
    "copy_table os (\<lambda>_. True) (GetHighestFd c (fds_of c p) False) (fds_of c p) c = (newfds, c1)"
    by fastforce
  have inh: "inherits os (\<lambda>_. True) c (fds_of c p) c1 newfds" "only_new_files c c1"
    using copy_table_inherits [of "fds_of c p" c os False newfds c1] copy
      table_allocated [OF w map_of_live [OF p(1)]] by simp_all
  have "NextProc c1 = NextProc c"
    using inh(2) by (simp add: only_new_files_def)
  then have "c' = install child (NextProc c)
      (alloc_proc ((NewProcState os c child parent)\<lparr>Fds := newfds\<rparr>) c1)"
    using r p copy by (simp add: RegisterProcess_def GetProcState_def)
  then show thesis
    by (rule that [OF p inh])
qed

text \<open>A fresh table that holds new files only can be installed.\<close>

lemma fresh_table:
  assumes w: "wf_ctx c" and new: "only_new_files c c1" and fds: "addrs newfds \<subseteq> {NextFile c..<NextFile c1}"
    and ps: "Fds ps = newfds"
  defines "d \<equiv> alloc_proc ps c1"
  shows "wf_ctx d" "led c \<Longrightarrow> led d" "accounted d = accounted c" "NextProc c \<notin> live d"
    "held d (NextProc c) = addrs newfds" "held d (NextProc c) \<inter> live_files d = {}"
    "NextProc c < NextProc d" "held d (NextProc c) \<subseteq> {..<NextFile d}" "live d = live c"
    "live_files d = live_files c" "ProcMap d = ProcMap c" "GroupLeaders d = GroupLeaders c"
    "Capacity (FileStorage d) = Capacity (FileStorage c)"
proof -
  have w1: "wf_ctx c1" and np: "NextProc c1 = NextProc c"
    using only_new_files_wf [OF new w] new by (simp_all add: only_new_files_def)
  show "wf_ctx d" "accounted d = accounted c"
    using alloc_proc_wf [OF w1] alloc_proc_accounted [OF w1] only_new_files_accounted [OF new w]
    by (simp_all add: d_def)
  show "led d" if "led c"
    using alloc_proc_led [OF w1 only_new_files_led [OF new that]] by (simp add: d_def)
  show lv: "live d = live c"
    using new by (simp add: d_def)
  show "NextProc c \<notin> live d"
    using wfD(1) [OF w] lv by auto
  show h: "held d (NextProc c) = addrs newfds"
    using np ps by (simp add: d_def held_alloc_proc)
  show lf: "live_files d = live_files c"
    using live_files_alloc_proc [OF w1] new by (simp add: d_def live_files_def)
  show "held d (NextProc c) \<inter> live_files d = {}"
    unfolding h lf using fds wfD(2) [OF w] by (fastforce simp: live_files_def)
  show "NextProc c < NextProc d" "held d (NextProc c) \<subseteq> {..<NextFile d}"
    using np fds unfolding h by (auto simp: d_def)
  show "ProcMap d = ProcMap c" "GroupLeaders d = GroupLeaders c"
    "Capacity (FileStorage d) = Capacity (FileStorage c)"
    using new by (simp_all add: d_def only_new_files_def)
qed

lemma RegisterProcess_wf [wf_rules]:
  assumes w: "wf_ctx c" and r: "RegisterProcess os parent child c = Inr c'"
  shows "wf_ctx c'"
  using assms
proof (cases rule: RegisterProcess_cases)
  case (1 p newfds c1)
  note fresh = fresh_table [OF w 1(4) inherits_new [OF 1(3)],
      of "(NewProcState os c child parent)\<lparr>Fds := newfds\<rparr>"]
  show ?thesis
    unfolding 1(5) using fresh 1(2) by (intro install_wf) simp_all
qed

lemma RegisterProcess_led [led_rules]:
  assumes w: "wf_ctx c" and l: "led c" and r: "RegisterProcess os parent child c = Inr c'"
  shows "led c'"
  using w r
proof (cases rule: RegisterProcess_cases)
  case (1 p newfds c1)
  note fresh = fresh_table [OF w 1(4) inherits_new [OF 1(3)],
      of "(NewProcState os c child parent)\<lparr>Fds := newfds\<rparr>"]
  show ?thesis
    unfolding 1(5) using fresh 1(2) l by (intro install_led) simp_all
qed

lemma inherits_output_0:
  assumes inh: "inherits os keep c fds c' newfds"
    and long: "\<And>i a. slot fds i = Some a \<Longrightarrow> MaxPos (Files c a) \<le> GetFileLength (Stat os) (Filename (Files c a))"
  shows "(\<Sum>a\<in>addrs newfds. GetOutputSize (Files c' a)) = 0"
proof (intro sum.neutral ballI)
  fix b assume "b \<in> addrs newfds"
  then obtain i where b: "slot newfds i = Some b"
    by (auto simp: addrs_slot)
  have "inherited os keep c c' (slot fds i) (slot newfds i)"
    using inh by (simp add: inherits_def)
  with b obtain a where "slot fds i = Some a" "Files c' b = CopyFileState (Stat os) (Files c a)"
    by (auto simp: inherited_def split: option.splits if_splits)
  with long show "GetOutputSize (Files c' b) = 0"
    by (simp add: GetOutputSize_def leD)
qed

lemma RegisterProcess_accounted [acc_rules]:
  assumes w: "wf_ctx c" and r: "RegisterProcess os parent child c = Inr c'"
    and long: "\<And>p i a. map_of (ProcMap c) parent = Some p \<Longrightarrow> slot (fds_of c p) i = Some a \<Longrightarrow>
      MaxPos (Files c a) \<le> GetFileLength (Stat os) (Filename (Files c a))"
  shows "accounted c' = accounted c"
  using w r
proof (cases rule: RegisterProcess_cases)
  case (1 p newfds c1)
  let ?ps = "(NewProcState os c child parent)\<lparr>Fds := newfds\<rparr>"
  note fresh = fresh_table [OF w 1(4) inherits_new [OF 1(3)], of ?ps]
  have "(\<Sum>a\<in>addrs newfds. GetOutputSize (Files c1 a)) = 0"
    using inherits_output_0 [OF 1(3) long [OF 1(1)]] .
  moreover have "accounted (install child (NextProc c) (alloc_proc ?ps c1)) =
    accounted (alloc_proc ?ps c1) +
      (\<Sum>a\<in>held (alloc_proc ?ps c1) (NextProc c). GetOutputSize (Files (alloc_proc ?ps c1) a))"
    using fresh 1(2) by (intro install_accounted) simp_all
  ultimately show ?thesis
    unfolding 1(5) using fresh by simp
qed

section \<open>Exec\<close>

lemma RegisterExec_cases:
  assumes w: "wf_ctx c" and r: "RegisterExec os pid c = Inr c'"
  obtains p newfds c1 ps where "map_of (ProcMap c) pid = Some p"
    "inherits os (\<lambda>f. \<not> IsCloexecSet f) c (fds_of c p) c1 newfds" "only_new_files c c1"
    "ps = (NewProcState os c pid (Ppid (snd (ProcInfo (Procs c p)))))\<lparr>Fds := newfds\<rparr>"
    "c' = install pid (NextProc c) (vanished pid p (alloc_proc ps c1))"
proof -
  obtain p where p: "map_of (ProcMap c) pid = Some p"
    using r by (auto simp: RegisterExec_def GetProcState_def split: option.splits)
  obtain newfds c1 where copy:
    "copy_table os (\<lambda>f. \<not> IsCloexecSet f) (GetHighestFd c (fds_of c p) True) (fds_of c p) c = (newfds, c1)"
    by fastforce
  have inh: "inherits os (\<lambda>f. \<not> IsCloexecSet f) c (fds_of c p) c1 newfds" "only_new_files c c1"
    using copy_table_inherits [of "fds_of c p" c os True newfds c1] copy
      table_allocated [OF w map_of_live [OF p]] by simp_all
  define ps where "ps = (NewProcState os c pid (Ppid (snd (ProcInfo (Procs c p)))))\<lparr>Fds := newfds\<rparr>"
  have np: "NextProc c1 = NextProc c"
    using inh(2) by (simp add: only_new_files_def)
  have "wf_ctx (alloc_proc ps c1)" "map_of (ProcMap (alloc_proc ps c1)) pid = Some p"
    using alloc_proc_wf [OF only_new_files_wf [OF inh(2) w]] inh(2) p by (simp_all add: only_new_files_def)
  then have "VanishProcess pid (alloc_proc ps c1) = Inr (vanished pid p (alloc_proc ps c1))"
    by (rule VanishProcess_eq)
  then have "c' = install pid (NextProc c) (vanished pid p (alloc_proc ps c1))"
    using r p copy np by (simp add: RegisterExec_def GetProcState_def ps_def)
  then show thesis
    by (rule that [OF p inh ps_def])
qed

text \<open>The state between the old table's end and the new one's installation.\<close>

lemma exec_vanished:
  assumes w: "wf_ctx c" and p: "map_of (ProcMap c) pid = Some p"
    and inh: "inherits os keep c (fds_of c p) c1 newfds" and new: "only_new_files c c1" and ps: "Fds ps = newfds"
  defines "v \<equiv> vanished pid p (alloc_proc ps c1)"
  shows "wf_ctx v" "led c \<Longrightarrow> led v" "map_of (ProcMap v) pid = None" "NextProc c < NextProc v"
    "NextProc c \<notin> live v" "held v (NextProc c) = addrs newfds" "held v (NextProc c) \<subseteq> {..<NextFile v}"
    "held v (NextProc c) \<inter> live_files v = {}" "Files v = Files c1"
    "led c \<Longrightarrow> Capacity (FileStorage c) \<noteq> 0 \<Longrightarrow> accounted v = accounted c"
proof -
  let ?d = "alloc_proc ps c1"
  note fresh = fresh_table [OF w new inherits_new [OF inh] ps]
  have pd: "map_of (ProcMap ?d) pid = Some p"
    using p fresh by simp
  have ne: "p \<noteq> NextProc c"
    using wfD(1) [OF w map_of_live [OF p]] by simp
  show "wf_ctx v"
    using wf_vanished [OF fresh(1)] by (simp add: v_def)
  show "led v" if "led c"
    using led_vanished [OF fresh(1) fresh(2) [OF that] pd] by (simp add: v_def)
  show "map_of (ProcMap v) pid = None"
    by (simp add: v_def delete_conv')
  show h: "held v (NextProc c) = addrs newfds"
    using ne fresh by (simp add: v_def)
  have sub: "live v \<subseteq> live ?d"
    using live_vanished_subset [OF fresh(1)] by (simp add: v_def)
  then show "NextProc c \<notin> live v"
    using fresh by auto
  have "live_files v \<subseteq> live_files ?d"
    using sub unfolding live_files_def v_def by (fastforce split: if_splits)
  then show "held v (NextProc c) \<inter> live_files v = {}"
    using fresh unfolding h by auto
  show "NextProc c < NextProc v" "held v (NextProc c) \<subseteq> {..<NextFile v}" "Files v = Files c1"
    using fresh unfolding h by (simp_all add: v_def)
  show "accounted v = accounted c" if "led c" "Capacity (FileStorage c) \<noteq> 0"
    using accounted_vanished [OF fresh(1) fresh(2) [OF that(1)] pd] that fresh by (simp add: v_def)
qed

lemma RegisterExec_wf [wf_rules]:
  assumes w: "wf_ctx c" and r: "RegisterExec os pid c = Inr c'"
  shows "wf_ctx c'"
  using assms
proof (cases rule: RegisterExec_cases)
  case (1 p newfds c1 ps)
  have ps: "Fds ps = newfds"
    by (simp add: 1(4))
  show ?thesis
    unfolding 1(5) using exec_vanished [OF w 1(1,2,3) ps] by (intro install_wf) simp_all
qed

lemma RegisterExec_led [led_rules]:
  assumes w: "wf_ctx c" and l: "led c" and r: "RegisterExec os pid c = Inr c'"
  shows "led c'"
  using w r
proof (cases rule: RegisterExec_cases)
  case (1 p newfds c1 ps)
  have ps: "Fds ps = newfds"
    by (simp add: 1(4))
  show ?thesis
    unfolding 1(5) using exec_vanished [OF w 1(1,2,3) ps] l by (intro install_led) simp_all
qed

lemma RegisterExec_accounted [acc_rules]:
  assumes w: "wf_ctx c" and l: "led c" and cap: "Capacity (FileStorage c) \<noteq> 0"
    and r: "RegisterExec os pid c = Inr c'"
    and long: "\<And>p i a. map_of (ProcMap c) pid = Some p \<Longrightarrow> slot (fds_of c p) i = Some a \<Longrightarrow>
      MaxPos (Files c a) \<le> GetFileLength (Stat os) (Filename (Files c a))"
  shows "accounted c' = accounted c"
  using w r
proof (cases rule: RegisterExec_cases)
  case (1 p newfds c1 ps)
  have ps: "Fds ps = newfds"
    by (simp add: 1(4))
  note v = exec_vanished [OF w 1(1,2,3) ps]
  have "(\<Sum>a\<in>addrs newfds. GetOutputSize (Files c1 a)) = 0"
    using inherits_output_0 [OF 1(2) long [OF 1(1)]] .
  moreover have "accounted c' = accounted (vanished pid p (alloc_proc ps c1)) +
    (\<Sum>a\<in>held (vanished pid p (alloc_proc ps c1)) (NextProc c).
       GetOutputSize (Files (vanished pid p (alloc_proc ps c1)) a))"
    unfolding 1(5) by (rule install_accounted) (use v in simp_all)
  ultimately show ?thesis
    using v(6,9,10) l cap by simp
qed

section \<open>Core dumps and the first tracee\<close>

lemma RegisterCoreDump_cases:
  assumes "RegisterCoreDump os pid termSig c = Inr c'"
  obtains "c' = c" | e where "c' = recorded [e] c"
  using assms
  by (auto simp: RegisterCoreDump_def SearchAndRegisterCoreDumpFile_def bindR_eq_Inr_iff Let_def
      recorded_def AddFileEntries_def split: if_splits)

lemma recorded_wf: "wf_ctx c \<Longrightarrow> wf_ctx (recorded es c)"
  by (rule wf_transfer [of c]) (use wfD(5) in \<open>auto simp: AddFileEntries_ok\<close>)

lemma recorded_led [simp]: "led (recorded es c) \<longleftrightarrow> led c"
  by (simp add: led_def)

lemma RegisterCoreDump_wf [wf_rules]:
  "wf_ctx c \<Longrightarrow> RegisterCoreDump os pid termSig c = Inr c' \<Longrightarrow> wf_ctx c'"
  using RegisterCoreDump_cases [of os pid termSig c c' "wf_ctx c'"] recorded_wf by blast

lemma RegisterCoreDump_led [led_rules]:
  assumes "led c" "RegisterCoreDump os pid termSig c = Inr c'"
  shows "led c'"
  using assms(2) by (cases rule: RegisterCoreDump_cases) (use assms in simp_all)

lemma NewContext_wf: "wf_ctx (NewContext opts)"
  by (rule wfI) (simp_all add: NewContext_def live_def NewFileStorage_ok)

lemma NewContext_led: "led (NewContext opts)"
  by (simp add: led_def live_def NewContext_def)

lemma NewContext_accounted: "accounted (NewContext opts) = 0"
  by (simp add: accounted_def live_files_def live_def NewContext_def GetStorageOutputSize_def NewFileStorage_def)

text \<open>One descriptor of \<^verbatim>\<open>FillFds\<close>, then all of them.\<close>

lemma fill_one_wf:
  assumes w: "wf_ctx c" and "slot (fds_of c p) fd = None"
  shows "wf_ctx (set_fds p ((fds_of c p)[fd := Some (NextFile c)]) (alloc_file f c))"
proof (rule wf_transfer [OF w, where p = p])
  show "held (set_fds p ((fds_of c p)[fd := Some (NextFile c)]) (alloc_file f c)) q \<subseteq>
    held c q \<union> (if q = p then {NextFile c..<NextFile (set_fds p ((fds_of c p)[fd := Some (NextFile c)])
      (alloc_file f c))} else {})" for q
    using addrs_update [of "fds_of c p" fd "NextFile c"] by (auto simp: held_def)
qed (use wfD(5) [OF w] in simp_all)

lemma fill_fds_wf:
  "wf_ctx c \<Longrightarrow> (\<And>i. i < n \<Longrightarrow> slot (fds_of c p) i = None) \<Longrightarrow> fill_fds os p pid n c = Inr c' \<Longrightarrow>
    wf_ctx c' \<and> ProcMap c' = ProcMap c \<and> GroupLeaders c' = GroupLeaders c \<and>
    (\<forall>q. q \<noteq> p \<longrightarrow> held c' q = held c q)"
proof (induction n arbitrary: c)
  case (Suc n)
  consider (skip) "fill_fds os p pid n c = Inr c'"
    | (fill) f where "fill_fds os p pid n
        (set_fds p ((fds_of c p)[n := Some (NextFile c)]) (alloc_file f c)) = Inr c'"
    using Suc.prems(3)
    by (auto simp: Let_def bindR_eq_Inr_iff split: if_splits)
  then show ?case
  proof cases
    case skip
    then show ?thesis
      using Suc by simp
  next
    case fill
    let ?d = "set_fds p ((fds_of c p)[n := Some (NextFile c)]) (alloc_file f c)"
    have "slot (fds_of ?d p) i = None" if "i < n" for i
      using Suc.prems(2) [of i] that by (auto simp: slot_def nth_list_update)
    from Suc.IH [OF fill_one_wf [OF Suc.prems(1,2)] this fill] show ?thesis
      by simp
  qed
qed simp

end
