(* ===== verification/ContextRun.thy ===== *)
theory ContextRun
  imports ContextReg
begin

text \<open>
  Whole-context operations: the first tracee, the exit of a system call, and the loop of
  \<^verbatim>\<open>PostProcess\<close> that makes every remaining process vanish.
\<close>

section \<open>The first tracee\<close>

lemma FillFds_effect:
  assumes w: "wf_ctx c" and empty: "fds_of c p = []" and r: "FillFds os p c = Inr c'"
  shows "wf_ctx c' \<and> ProcMap c' = ProcMap c \<and> GroupLeaders c' = GroupLeaders c \<and>
    (\<forall>q. q \<noteq> p \<longrightarrow> held c' q = held c q)"
proof -
  obtain h where h: "MyHighestFd os = Inr h"
    using r by (auto simp: FillFds_def bindR_eq_Inr_iff)
  have "h \<noteq> 0"
    using r h by (auto simp: FillFds_def)
  define n where "n = nat (h + 1)"
  show ?thesis
  proof (cases "h < 0")
    case True
    with r h have "c' = c"
      by (simp add: FillFds_def)
    with w show ?thesis
      by simp
  next
    case False
    with r h \<open>h \<noteq> 0\<close> have fill: "fill_fds os p (Pid (snd (ProcInfo (Procs c p)))) n
        (set_fds p (vec_resize n (fds_of c p)) c) = Inr c'"
      by (simp add: FillFds_def n_def Let_def)
    let ?d = "set_fds p (vec_resize n (fds_of c p)) c"
    have nil: "addrs (vec_resize n (fds_of c p)) = {}"
      using addrs_vec_resize [of "fds_of c p" n] empty by simp
    have "wf_ctx ?d"
    proof (rule wf_transfer [OF w, where p = p])
      show "held ?d q \<subseteq> held c q \<union> (if q = p then {NextFile c..<NextFile ?d} else {})" for q
        using nil by simp
    qed (use wfD(5) [OF w] in simp_all)
    moreover have "slot (fds_of ?d p) i = None" for i
      using nil by (simp add: addrs_empty_iff)
    ultimately show ?thesis
      using fill_fds_wf [OF _ _ fill] by simp
  qed
qed

lemma RegisterTracee_wf [wf_rules]:
  assumes w: "wf_ctx c" and l: "led c" and r: "RegisterTracee os pid c = Inr c'"
  shows "wf_ctx c'" "led c'"
proof -
  let ?d = "alloc_proc (NewProcState os c pid 0) c"
  let ?e = "install pid (NextProc c) ?d"
  have none: "map_of (ProcMap c) pid = None" and fill: "FillFds os (NextProc c) ?e = Inr c'"
    using r by (simp_all add: RegisterTracee_def bindR_eq_Inr_iff Let_def)
  have nil: "Fds (NewProcState os c pid 0) = []"
    by (simp add: NewProcState_def Let_def)
  note fresh = fresh_table [of c c "[]" "NewProcState os c pid 0", OF w _ _ nil]
  have we: "wf_ctx ?e"
    using fresh none by (intro install_wf) simp_all
  have le: "led ?e"
    using fresh none l by (intro install_led) simp_all
  have "fds_of ?e (NextProc c) = []"
    by (simp add: nil)
  from FillFds_effect [OF we this fill] have w': "wf_ctx c'"
    and c': "ProcMap c' = ProcMap ?e" "GroupLeaders c' = GroupLeaders ?e"
      "\<And>q. q \<noteq> NextProc c \<Longrightarrow> held c' q = held ?e q"
    by auto
  show "wf_ctx c'"
    by (rule w')
  show "led c'"
  proof (rule led_transfer [OF le c'(1,2)])
    fix q assume "held c' q \<noteq> {}"
    moreover have "has_leader ?e (NextProc c)"
      unfolding has_leader_def by (intro bexI [of _ pid]) (simp_all add: update_conv')
    ultimately show "held ?e q \<noteq> {} \<or> has_leader ?e q"
      using c'(3) by (cases "q = NextProc c") auto
  qed
qed

section \<open>The exit of a system call\<close>

text \<open>Every exit is at most one of the operations on descriptors.\<close>

lemma ignore_result_Inr: "ignore_result r = Inr c' \<longleftrightarrow> (\<exists>d. r = Inr (d, c'))"
  by (auto simp: ignore_result_def bindR_eq_Inr_iff)

lemma FcntlExit_cases:
  assumes "FcntlExit pid ret arg0 arg1 arg2 c = Inr c'"
  obtains "c' = c" | fd f where "on_fd pid fd f c = Inr c'" "\<And>s. GetOutputSize (f s) = GetOutputSize s"
  | fd newfd d where "OpDup2 pid fd newfd c = Inr (d, c')"
  | fd newfd fl d where "OpDup3 pid fd newfd fl c = Inr (d, c')"
proof -
  consider "arg1 = F_DUPFD" | "arg1 = F_DUPFD_CLOEXEC" | "arg1 = F_SETFL \<or> arg1 = F_SETFD"
    | "arg1 \<notin> {F_DUPFD, F_DUPFD_CLOEXEC, F_SETFL, F_SETFD}"
    by blast
  then show thesis
  proof cases
    case 1
    with assms that(3) show thesis
      by (auto simp: FcntlExit_def ignore_result_Inr OpDup_def)
  next
    case 2
    then have "arg1 \<noteq> F_DUPFD"
      by (simp add: fcntl_defs)
    with 2 assms that(4) show thesis
      by (auto simp: FcntlExit_def ignore_result_Inr)
  next
    case 3
    then have "arg1 \<noteq> F_DUPFD" "arg1 \<noteq> F_DUPFD_CLOEXEC"
      by (auto simp: fcntl_defs)
    with 3 assms have "on_fd pid arg0 (SetFlags arg2) c = Inr c'"
      by (simp add: FcntlExit_def OpSetFlag_def)
    then show thesis
      by (rule that(2)) simp
  next
    case 4
    with assms that(1) show thesis
      by (simp add: FcntlExit_def)
  qed
qed

lemma SyscallExit_cases:
  assumes "SyscallExit a os pid regs c = Inr c'"
  obtains (skip) "c' = c"
  | (onefile) fd f where "on_fd pid fd f c = Inr c'"
  | (newfile) fd flags where "OpOpenWriteFile os pid fd flags c = Inr c'"
  | (closing) fd where "OpClose pid fd c = Inr c'"
  | (dup2) fd newfd d where "OpDup2 pid fd newfd c = Inr (d, c')"
  | (dup3) fd newfd fl d where "OpDup3 pid fd newfd fl c = Inr (d, c')"
proof -
  have "c' = c \<or> (\<exists>fd f. on_fd pid fd f c = Inr c') \<or>
    (\<exists>fd flags. OpOpenWriteFile os pid fd flags c = Inr c') \<or> (\<exists>fd. OpClose pid fd c = Inr c') \<or>
    (\<exists>fd newfd d. OpDup2 pid fd newfd c = Inr (d, c')) \<or>
    (\<exists>fd newfd fl d. OpDup3 pid fd newfd fl c = Inr (d, c')) \<or>
    (\<exists>ret arg0 arg1 arg2. FcntlExit pid ret arg0 arg1 arg2 c = Inr c')"
    using assms unfolding SyscallExit_def Let_def OpWriteChangeOffset_def OpWriteNoOffsetChange_def
      OpResize_def OpSeek_def OpOpenFile_def OpDup_def ignore_result_Inr
    by (simp only: ignore_result_Inr OpDup_def split: if_splits) blast+
  then show thesis
    using that by (elim disjE exE FcntlExit_cases) blast+
qed

lemma SyscallExit_wf [wf_rules]:
  assumes w: "wf_ctx c" and r: "SyscallExit a os pid regs c = Inr c'"
  shows "wf_ctx c'"
  using r
  by (cases rule: SyscallExit_cases)
    (use w in \<open>auto intro: on_fd_wf OpOpenWriteFile_wf OpClose_wf OpDup2_wf OpDup3_wf\<close>)

lemma SyscallExit_led [led_rules]:
  assumes w: "wf_ctx c" and l: "led c" and r: "SyscallExit a os pid regs c = Inr c'"
    and "\<And>p. map_of (ProcMap c) pid = Some p \<Longrightarrow> has_leader c p"
  shows "led c'"
  using r
  by (cases rule: SyscallExit_cases)
    (use assms in \<open>auto intro: on_fd_led OpOpenWriteFile_led OpClose_led OpDup2_led OpDup3_led\<close>)

section \<open>Calls that fail\<close>

lemma negative_result:
  fixes w :: u64
  assumes "- 4095 \<le> sint w" "sint w < 0"
  shows "as_int w < 0" "as_ssize w \<le> 0"
proof -
  have "as_int w = signed_take_bit 31 (sint w)"
    by (simp add: as_int_def sint_uint signed_take_bit_take_bit uint_word_ariths take_bit_signed_take_bit unsigned_ucast_eq)
  also have "\<dots> = sint w"
    using assms by (intro signed_take_bit_int_eq_self) simp_all
  finally show "as_int w < 0" "as_ssize w \<le> 0"
    using assms by (simp_all add: as_ssize_def)
qed

lemma failed_call_skips:
  assumes "- 4095 \<le> sint (SYSCALL_RETDATA a regs)" "sint (SYSCALL_RETDATA a regs) < 0"
    and "SYSCALL_NR a regs \<noteq> SYS_close a"
  shows "SyscallExit a os pid regs c = Inr c"
proof -
  have "(0 \<le> as_int (SYSCALL_RETDATA a regs)) = False" "(0 < as_ssize (SYSCALL_RETDATA a regs)) = False"
    "(SYSCALL_NR a regs = SYS_close a) = False"
    using negative_result [OF assms(1,2)] assms(3) by simp_all
  then show ?thesis
    unfolding SyscallExit_def Let_def by (simp only: if_False if_cancel)
qed

section \<open>The end of the run\<close>

lemma bindR_cong [fundef_cong]:
  assumes "r = r'" and "\<And>x. r' = Inr x \<Longrightarrow> f x = g x"
  shows "bindR r f = bindR r' g"
  using assms by (cases r') simp_all

lemma teardown_all_ProcMap: "teardown_all p pinfo ks c = Inr c' \<Longrightarrow> ProcMap c' = ProcMap c"
  by (induction ks arbitrary: c)
    (auto simp: TearDownFd_def bindR_eq_Inr_iff Let_def set_fds_def split: option.splits if_splits)

lemma VanishProcess_ProcMap:
  assumes "VanishProcess pid c = Inr c'"
  shows "ProcMap c' = AList.delete pid (ProcMap c)" "pid \<in> fst ` set (ProcMap c)"
  using assms
  by (auto simp: VanishProcess_def bindR_eq_Inr_iff known_iff dest: teardown_all_ProcMap split: if_splits)

lemma VanishProcess_shorter:
  assumes "VanishProcess pid c = Inr c'"
  shows "length (ProcMap c') < length (ProcMap c)"
proof -
  obtain e where e: "e \<in> set (ProcMap c)" "fst e = pid"
    using VanishProcess_ProcMap(2) [OF assms] by auto
  have "length (filter (\<lambda>e. pid \<noteq> fst e) (ProcMap c)) < length (ProcMap c)"
    by (rule length_filter_less [OF e(1)]) (simp add: e(2))
  then show ?thesis
    by (simp add: VanishProcess_ProcMap(1) [OF assms] AList.delete_eq split_def)
qed

function VanishAll :: "tcontext \<Rightarrow> failure + tcontext" where
  "VanishAll c = (case ProcMap c of
       [] \<Rightarrow> Inr c
     | e # es \<Rightarrow> bindR (VanishProcess (fst e) c) VanishAll)"
  by pat_completeness auto
termination
  by (relation "measure (\<lambda>c. length (ProcMap c))") (auto dest: VanishProcess_shorter)

declare VanishAll.simps [simp del]

text \<open>
  Whatever the iteration order, the loop ends, every assertion on the way holds, and everything
  still open is in the total.
\<close>

lemma VanishAll_spec:
  assumes "wf_ctx c" "led c" "Capacity (FileStorage c) \<noteq> 0"
  shows "\<exists>c'. VanishAll c = Inr c' \<and> ProcMap c' = [] \<and> Opts c' = Opts c \<and>
    accounted c' = accounted c \<and> storage_ok (FileStorage c')"
  using assms
proof (induction c rule: VanishAll.induct)
  case (1 c)
  show ?case
  proof (cases "ProcMap c")
    case Nil
    with wfD(5) [OF "1.prems"(1)] show ?thesis
      by (simp add: VanishAll.simps [of c])
  next
    case (Cons e es)
    then obtain p where p: "map_of (ProcMap c) (fst e) = Some p"
      by (cases e) simp
    let ?v = "vanished (fst e) p c"
    have eq: "VanishProcess (fst e) c = Inr ?v"
      using VanishProcess_eq [OF "1.prems"(1) p] .
    have acc: "accounted ?v = accounted c"
      using accounted_vanished [OF "1.prems"(1,2) p "1.prems"(3)] .
    have "\<exists>c'. VanishAll ?v = Inr c' \<and> ProcMap c' = [] \<and> Opts c' = Opts ?v \<and>
        accounted c' = accounted ?v \<and> storage_ok (FileStorage c')"
    proof (rule "1.IH" [OF Cons eq])
      show "wf_ctx ?v"
        using wf_vanished [OF "1.prems"(1)] .
      show "led ?v"
        using led_vanished [OF "1.prems"(1,2) p] .
      show "Capacity (FileStorage ?v) \<noteq> 0"
        using "1.prems"(3) by simp
    qed
    with eq acc Cons show ?thesis
      by (simp add: VanishAll.simps [of c])
  qed
qed

lemma accounted_no_process:
  "ProcMap c = [] \<Longrightarrow> accounted c = GetStorageOutputSize (FileStorage c)"
  by (simp add: accounted_def live_files_def live_def)

end
