(* ===== verification/Report.thy ===== *)
theory Report
  imports ContextRun
begin

text \<open>
  \<^verbatim>\<open>HumanReadableSize\<close> of \<^verbatim>\<open>utils.cpp\<close>, and \<^verbatim>\<open>PrintReport\<close> and \<^verbatim>\<open>PostProcess\<close> of
  \<^verbatim>\<open>context.cpp\<close>: the text of the report, and the end of a run. Doubles appear in three places
  and are written out as exact arithmetic: \<^verbatim>\<open>bytes / 1024.0\<close> is exact below \<open>2 ^ 53\<close>, \<^verbatim>\<open>printf\<close>
  rounds an exact value to the nearest tenth with ties to even, and the logarithms are discussed
  where they are used.
\<close>

section \<open>Sizes for people\<close>

text \<open>
  \<^verbatim>\<open>int(std::log2(bytes))\<close>. Rounding the logarithm to a double lifts it to the next integer
  only within a hair of a power of two; divided by ten, as the code does, the one place where this
  shows is right below \<open>2 ^ 50\<close>.
\<close>

fun floor_log2 :: "nat \<Rightarrow> nat" where
  "floor_log2 n = (if n < 2 then 0 else Suc (floor_log2 (n div 2)))"

declare floor_log2.simps [simp del]

definition int_log2 :: "nat \<Rightarrow> nat" where
  "int_log2 n = (if n = 2 ^ 50 - 1 \<or> n = 2 ^ 50 - 2 then 50 else floor_log2 n)"

text \<open>\<^verbatim>\<open>sprintf(&buff[0], ...)\<close> into \<^verbatim>\<open>char buff[8]\<close>, the terminating null included.\<close>

definition sprintf_buff :: "string \<Rightarrow> failure + string" where
  "sprintf_buff s = (if length s < 8 then Inr s else Inl (Undefined ''buff[8]''))"

definition suffixes :: "string list" where
  "suffixes = [''b'', ''KiB'', ''MiB'', ''GiB'', ''PiB'']"

text \<open>The nearest integer to \<open>n / d\<close>, the even one of two.\<close>

definition round_half_even :: "nat \<Rightarrow> nat \<Rightarrow> nat" where
  "round_half_even n d =
     (let q = n div d; r = n mod d
      in if 2 * r < d \<or> 2 * r = d \<and> even q then q else q + 1)"

text \<open>\<^verbatim>\<open>"%3.1f"\<close> of the quotient \<open>n / d\<close>.\<close>

definition show_tenths :: "nat \<Rightarrow> string" where
  "show_tenths t = show_nat (t div 10) @ ''.'' @ show_nat (t mod 10)"

definition HumanReadableSize :: "u64 \<Rightarrow> failure + string" where
  "HumanReadableSize bytes =
     (let n = unat bytes
      in if n = 0 then Inr ''0''
         else let k = int_log2 n div 10
              in if k = 0 then sprintf_buff (show_nat n @ suffixes ! 0)
                 else if k \<ge> length suffixes then Inl (Undefined ''suffixes[k]'')
                 else if n \<ge> 100 * 1024 ^ k then sprintf_buff (show_nat (n div 1024 ^ k) @ suffixes ! k)
                 else sprintf_buff (show_tenths (round_half_even (10 * n) (1024 ^ k)) @ suffixes ! k))"

section \<open>The report\<close>

text \<open>
  What the report depends on outside the context: whether the file of \<^verbatim>\<open>--output\<close> opens (the text of
  \<^verbatim>\<open>strerror\<close> when it does not), the iteration order of the \<^verbatim>\<open>std::unordered_set\<close> of process infos,
  and the numeric value of a pointer.
\<close>

record report_env =
  OpenFails :: "string \<Rightarrow> string option"
  SetOrder :: "proc_info_ptr list \<Rightarrow> proc_info_ptr list"
  PointerValue :: "nat \<Rightarrow> nat"

datatype sink = StdErr | Truncated string | Appended string

record report =
  Diagnostics :: string
  Sink :: sink
  Text :: string

definition endl :: string where "endl = [char_of (10::nat)]"

definition setw :: "nat \<Rightarrow> string \<Rightarrow> string" where
  "setw width s = replicate (width - length s) CHR '' '' @ s"

definition OpenSink :: "report_env \<Rightarrow> options \<Rightarrow> string \<times> sink" where
  "OpenSink env opts =
     (if Output opts = [] then ([], StdErr)
      else case OpenFails env (Output opts) of
          Some err \<Rightarrow> (''Failed to open '' @ Output opts @ '': '' @ err @ endl, StdErr)
        | None \<Rightarrow> ([], if AppendOutput opts then Appended (Output opts) else Truncated (Output opts)))"

text \<open>
  \<^verbatim>\<open>int(std::log10(max) + 3)\<close>, exact for every \<^verbatim>\<open>max\<close> below \<open>10 ^ 15 - 4\<close>; above, the rounding of the
  double may add one blank column.
\<close>

definition ReportPadding :: "bool \<Rightarrow> output_file list \<Rightarrow> nat" where
  "ReportPadding human files =
     (let m = Max (insert 0 (set (map (unat \<circ> Size) files)))
      in if \<not> human \<and> m \<noteq> 0 then length (show_nat m) + 2 else 9)"

definition ShowSize :: "bool \<Rightarrow> u64 \<Rightarrow> failure + string" where
  "ShowSize human n = (if human then HumanReadableSize n else Inr (show_nat (unat n) @ ''b''))"

definition ReportHeader :: "options \<Rightarrow> output_file list \<Rightarrow> string" where
  "ReportHeader opts files =
     (if files = [] then []
      else ''Output tracer summary report'' @
        (if FilesInReport opts > 0 then '' (limit: '' @ show_int (FilesInReport opts) @ '')'' else []) @ endl)"

definition ProcRef :: "report_env \<Rightarrow> proc_info_ptr \<Rightarrow> string" where
  "ProcRef env p = show_int (Pid (snd p)) @ ''|'' @ show_nat (PointerValue env (fst p))"

text \<open>
  A line of the report. \<^verbatim>\<open>std::setw\<close> applies to the next item only, so the padded item is the number
  without its \<^verbatim>\<open>b\<close>, or the whole human readable size.
\<close>

definition ReportLine :: "report_env \<Rightarrow> options \<Rightarrow> nat \<Rightarrow> output_file \<Rightarrow> failure + string" where
  "ReportLine env opts padding e =
     bindR (if HumanReadableSizes opts
            then bindR (HumanReadableSize (Size e)) (\<lambda>s. Inr (setw padding s))
            else Inr (setw padding (show_nat (unat (Size e))) @ ''b''))
       (\<lambda>shown. Inr (shown @ '' '' @ OutFilename e @
          (if CommandLengthLimit opts \<noteq> 0 then '' (pid:'' @ ProcRef env (OutProcInfo e) @ '')'' else []) @ endl))"

fun ReportLines :: "report_env \<Rightarrow> options \<Rightarrow> nat \<Rightarrow> output_file list \<Rightarrow> failure + string" where
  "ReportLines env opts padding [] = Inr []"
| "ReportLines env opts padding (e # es) =
     bindR (ReportLine env opts padding e) (\<lambda>l.
       bindR (ReportLines env opts padding es) (\<lambda>ls. Inr (l @ ls)))"

definition LegendLine :: "report_env \<Rightarrow> proc_info_ptr \<Rightarrow> string" where
  "LegendLine env p =
     ''  '' @ ProcRef env p @ '' (ppid:'' @ show_int (Ppid (snd p)) @ '') '' @ CommandLine (snd p) @ endl"

text \<open>The set holds pointers: two infos with the same address are one element.\<close>

definition ProcInfoSet :: "output_file list \<Rightarrow> proc_info_ptr list" where
  "ProcInfoSet files = remdups (map OutProcInfo files)"

definition ReportLegend :: "report_env \<Rightarrow> options \<Rightarrow> output_file list \<Rightarrow> string" where
  "ReportLegend env opts files =
     (if CommandLengthLimit opts \<noteq> 0 \<and> ProcInfoSet files \<noteq> []
      then ''Proc legend:'' @ endl @ concat (map (LegendLine env) (SetOrder env (ProcInfoSet files)))
      else [])"

definition PrintReport :: "report_env \<Rightarrow> tcontext \<Rightarrow> failure + report" where
  "PrintReport env c =
     (let opts = Opts c;
          (diag, out) = OpenSink env opts;
          files = GetLargestFiles (FileStorage c);
          padding = ReportPadding (HumanReadableSizes opts) files
      in bindR (ReportLines env opts padding files) (\<lambda>body.
         bindR (ShowSize (HumanReadableSizes opts) (GetStorageOutputSize (FileStorage c))) (\<lambda>total.
           Inr \<lparr>Diagnostics = diag, Sink = out,
                Text = ReportHeader opts files @ body @ ReportLegend env opts files @
                       ''Total output: '' @ total @ endl\<rparr>)))"

text \<open>The exit code passes through; \<open>None\<close> is a run that was asked for no report.\<close>

definition PostProcess :: "report_env \<Rightarrow> int \<Rightarrow> tcontext \<Rightarrow> failure + (int \<times> report option)" where
  "PostProcess env rc c =
     bindR (VanishAll c) (\<lambda>c'.
       if FilesInReport (Opts c') \<noteq> 0
       then bindR (PrintReport env c') (\<lambda>r. Inr (rc, Some r))
       else Inr (rc, None))"

section \<open>Which sizes can be shown\<close>

lemma floor_log2_bounds: "n > 0 \<Longrightarrow> 2 ^ floor_log2 n \<le> n \<and> n < 2 ^ Suc (floor_log2 n)"
proof (induction n rule: floor_log2.induct)
  case (1 n)
  show ?case
  proof (cases "n < 2")
    case True
    with 1(2) show ?thesis
      by (simp add: floor_log2.simps [of n])
  next
    case False
    then have "2 ^ floor_log2 (n div 2) \<le> n div 2 \<and> n div 2 < 2 ^ Suc (floor_log2 (n div 2))"
      using 1(1) by simp
    then show ?thesis
      using False by (auto simp: floor_log2.simps [of n])
  qed
qed

text \<open>The unit that \<^verbatim>\<open>HumanReadableSize\<close> picks.\<close>

lemma unit_bounds:
  assumes "n > 0"
  shows "1024 ^ (floor_log2 n div 10) \<le> n" "n < 1024 ^ Suc (floor_log2 n div 10)"
proof -
  let ?l = "floor_log2 n"
  have p: "(1024::nat) ^ k = 2 ^ (10 * k)" for k
    by (simp add: power_mult)
  have "(2::nat) ^ (10 * (?l div 10)) \<le> 2 ^ ?l"
    by (rule power_increasing) simp_all
  then show "1024 ^ (?l div 10) \<le> n"
    using floor_log2_bounds [OF assms] unfolding p by linarith
  have "Suc ?l \<le> 10 * Suc (?l div 10)"
    by simp
  then have "(2::nat) ^ Suc ?l \<le> 2 ^ (10 * Suc (?l div 10))"
    by (rule power_increasing) simp
  then show "n < 1024 ^ Suc (?l div 10)"
    using floor_log2_bounds [OF assms] unfolding p by linarith
qed

lemma unit_unique:
  assumes "1024 ^ k \<le> n" "n < 1024 ^ Suc k"
  shows "floor_log2 n div 10 = k"
proof -
  have "n > 0"
    using assms(1) by (metis gr0I le_zero_eq power_not_zero zero_neq_numeral)
  note b = unit_bounds [OF this]
  have "(1024::nat) ^ (floor_log2 n div 10) < 1024 ^ Suc k" "(1024::nat) ^ k < 1024 ^ Suc (floor_log2 n div 10)"
    using b assms by linarith+
  then show ?thesis
    by (simp only: power_strict_increasing_iff one_less_numeral_iff semiring_norm)
qed

lemma int_log2_unit: "n < 2 ^ 50 - 2 \<Longrightarrow> int_log2 n = floor_log2 n"
  by (simp add: int_log2_def)

lemma int_log2_too_large:
  assumes "2 ^ 50 - 2 \<le> n"
  shows "5 \<le> int_log2 n div 10"
proof (cases "n = 2 ^ 50 - 1 \<or> n = 2 ^ 50 - 2")
  case True
  then show ?thesis
    by (auto simp: int_log2_def)
next
  case False
  then have n: "1024 ^ 5 \<le> n"
    using assms by simp
  have "floor_log2 n div 10 \<ge> 5"
  proof (rule ccontr)
    assume "\<not> ?thesis"
    then have "(1024::nat) ^ Suc (floor_log2 n div 10) \<le> 1024 ^ 5"
      by (intro power_increasing) simp_all
    then show False
      using n unit_bounds(2) [of n] by simp
  qed
  then show ?thesis
    using False by (simp add: int_log2_def)
qed

lemma length_show_nat: "n < 10 ^ k \<Longrightarrow> 0 < k \<Longrightarrow> length (show_nat n) \<le> k"
proof (induction k arbitrary: n)
  case (Suc k)
  show ?case
  proof (cases "n < 10")
    case True
    then show ?thesis
      by (simp add: show_nat.simps [of n])
  next
    case False
    then have "k > 0" "n div 10 < 10 ^ k"
      using Suc.prems by (cases k; simp; fail) (use Suc.prems in simp)
    then show ?thesis
      using Suc.IH [of "n div 10"] False by (simp add: show_nat.simps [of n])
  qed
qed simp

lemma round_half_even_error:
  assumes "d > 0"
  shows "2 * (round_half_even n d * d) \<le> 2 * n + d" "2 * n \<le> 2 * (round_half_even n d * d) + d"
proof -
  let ?q = "n div d" and ?r = "n mod d"
  have n: "n = ?q * d + ?r" and r: "?r < d"
    using assms by simp_all
  have q1: "(?q + 1) * d = ?q * d + d"
    by simp
  have "2 * (round_half_even n d * d) \<le> 2 * n + d \<and> 2 * n \<le> 2 * (round_half_even n d * d) + d"
  proof (cases "2 * ?r < d \<or> 2 * ?r = d \<and> even ?q")
    case True
    then have "round_half_even n d = ?q"
      by (simp add: round_half_even_def Let_def)
    then have "round_half_even n d * d = ?q * d"
      by simp
    moreover have "2 * ?r \<le> d"
      using True by linarith
    ultimately show ?thesis
      using n by (intro conjI; linarith)
  next
    case False
    then have e: "round_half_even n d = ?q + 1" and "d \<le> 2 * ?r"
      by (auto simp: round_half_even_def Let_def)
    moreover have "round_half_even n d * d = ?q * d + d"
      unfolding e by (rule q1)
    ultimately show ?thesis
      using n r by (intro conjI; linarith)
  qed
  then show "2 * (round_half_even n d * d) \<le> 2 * n + d" "2 * n \<le> 2 * (round_half_even n d * d) + d"
    by simp_all
qed

text \<open>A tie above an odd number goes up.\<close>

lemma round_half_even_ge:
  assumes "d > 0"
  shows "1000 \<le> round_half_even n d \<longleftrightarrow> 1999 * d \<le> 2 * n"
proof -
  let ?q = "n div d" and ?r = "n mod d"
  have n: "n = ?q * d + ?r" and r: "?r < d"
    using assms by simp_all
  consider "?q \<le> 998" | "?q = 999" | "1000 \<le> ?q"
    by linarith
  then show ?thesis
  proof cases
    case 1
    then have "?q * d \<le> 998 * d"
      by simp
    then have "\<not> 1999 * d \<le> 2 * n"
      using n r by linarith
    moreover have "round_half_even n d \<le> 999"
      using 1 by (simp add: round_half_even_def Let_def)
    ultimately show ?thesis
      by simp
  next
    case 2
    then have "n = 999 * d + ?r"
      using n by simp
    then have "1999 * d \<le> 2 * n \<longleftrightarrow> d \<le> 2 * ?r"
      by linarith
    moreover have "1000 \<le> round_half_even n d \<longleftrightarrow> d \<le> 2 * ?r"
      using 2 by (auto simp: round_half_even_def Let_def)
    ultimately show ?thesis
      by simp
  next
    case 3
    then have "1000 * d \<le> ?q * d"
      by simp
    then have "1999 * d \<le> 2 * n"
      using n by linarith
    moreover have "1000 \<le> round_half_even n d"
      using 3 by (simp add: round_half_even_def Let_def)
    ultimately show ?thesis
      by simp
  qed
qed

lemma length_show_nat_gt: "10 ^ k \<le> n \<Longrightarrow> k < length (show_nat n)"
proof (induction k arbitrary: n)
  case 0
  then show ?case
    by simp
next
  case (Suc k)
  then have "10 \<le> n" "10 ^ k \<le> n div 10"
    using div_le_mono [of "10 ^ Suc k" n 10] le_trans [of 10 "10 ^ Suc k" n] by simp_all
  then show ?case
    using Suc.IH [of "n div 10"] by (simp add: show_nat.simps [of n])
qed

lemma length_show_tenths: "length (show_tenths t) < 5 \<longleftrightarrow> t < 1000"
proof -
  have one: "length (show_nat (t mod 10)) = 1"
    by (simp add: show_nat.simps)
  show ?thesis
  proof (cases "t < 1000")
    case True
    then have "length (show_nat (t div 10)) \<le> 2"
      by (intro length_show_nat) simp_all
    then show ?thesis
      using True one by (simp add: show_tenths_def)
  next
    case False
    then have "2 < length (show_nat (t div 10))"
      by (intro length_show_nat_gt) simp
    then show ?thesis
      using False one by (simp add: show_tenths_def)
  qed
qed

lemma length_suffix: "k < 5 \<Longrightarrow> k \<noteq> 0 \<Longrightarrow> length (suffixes ! k) = 3"
  by (simp add: suffixes_def nth_Cons split: nat.splits)

text \<open>What is printed, by the unit \<open>k\<close> of the size.\<close>

lemma human_small: "0 < unat b \<Longrightarrow> unat b < 1024 \<Longrightarrow> HumanReadableSize b = Inr (show_nat (unat b) @ ''b'')"
proof -
  assume b: "0 < unat b" "unat b < 1024"
  then have "floor_log2 (unat b) div 10 = 0"
    by (intro unit_unique) simp_all
  moreover have "length (show_nat (unat b)) \<le> 4"
    using b by (intro length_show_nat) simp_all
  ultimately show ?thesis
    using b by (simp add: HumanReadableSize_def int_log2_unit sprintf_buff_def suffixes_def)
qed

lemma human_unit:
  assumes k: "k \<noteq> 0" "k < 5" and b: "1024 ^ k \<le> unat b" "unat b < 1024 ^ Suc k" "unat b < 2 ^ 50 - 2"
  shows "100 * 1024 ^ k \<le> unat b \<Longrightarrow>
      HumanReadableSize b = Inr (show_nat (unat b div 1024 ^ k) @ suffixes ! k)"
    and "unat b < 100 * 1024 ^ k \<Longrightarrow> 20 * unat b < 1999 * 1024 ^ k \<Longrightarrow>
      HumanReadableSize b = Inr (show_tenths (round_half_even (10 * unat b) (1024 ^ k)) @ suffixes ! k)"
    and "unat b < 100 * 1024 ^ k \<Longrightarrow> 1999 * 1024 ^ k \<le> 20 * unat b \<Longrightarrow>
      HumanReadableSize b = Inl (Undefined ''buff[8]'')"
proof -
  have pos: "unat b \<noteq> 0"
    using b(1) by (metis le_zero_eq power_not_zero zero_neq_numeral)
  have unit: "int_log2 (unat b) div 10 = k"
    using unit_unique [OF b(1,2)] int_log2_unit [OF b(3)] by simp
  have len: "length (suffixes ! k) = 3" "\<not> length suffixes \<le> k"
    using k length_suffix by (simp_all add: suffixes_def)
  have t: "1000 \<le> round_half_even (10 * unat b) (1024 ^ k) \<longleftrightarrow> 1999 * 1024 ^ k \<le> 2 * (10 * unat b)"
    by (rule round_half_even_ge) simp
  show "HumanReadableSize b = Inr (show_nat (unat b div 1024 ^ k) @ suffixes ! k)"
    if "100 * 1024 ^ k \<le> unat b"
  proof -
    have "unat b div 1024 ^ k < 1024"
      using b(2) by (simp add: less_mult_imp_div_less mult.commute)
    then have "length (show_nat (unat b div 1024 ^ k)) \<le> 4"
      by (intro length_show_nat) simp_all
    then show ?thesis
      using that pos unit k len by (simp add: HumanReadableSize_def Let_def sprintf_buff_def)
  qed
  have tenths: "HumanReadableSize b =
      sprintf_buff (show_tenths (round_half_even (10 * unat b) (1024 ^ k)) @ suffixes ! k)"
    if "unat b < 100 * 1024 ^ k"
    using that pos unit k len by (simp add: HumanReadableSize_def Let_def)
  show "HumanReadableSize b = Inr (show_tenths (round_half_even (10 * unat b) (1024 ^ k)) @ suffixes ! k)"
    if "unat b < 100 * 1024 ^ k" "20 * unat b < 1999 * 1024 ^ k"
    using tenths [OF that(1)] that(2) t length_show_tenths [of "round_half_even (10 * unat b) (1024 ^ k)"]
    by (simp add: sprintf_buff_def len)
  show "HumanReadableSize b = Inl (Undefined ''buff[8]'')"
    if "unat b < 100 * 1024 ^ k" "1999 * 1024 ^ k \<le> 20 * unat b"
    using tenths [OF that(1)] that(2) t length_show_tenths [of "round_half_even (10 * unat b) (1024 ^ k)"]
    by (simp add: sprintf_buff_def len)
qed

lemma human_too_large:
  assumes "2 ^ 50 - 2 \<le> unat b"
  shows "HumanReadableSize b = Inl (Undefined ''suffixes[k]'')"
proof -
  have "unat b \<noteq> 0" "5 \<le> int_log2 (unat b) div 10"
    using assms int_log2_too_large by auto
  then show ?thesis
    by (simp add: HumanReadableSize_def Let_def suffixes_def)
qed

text \<open>The unit of a size that is not too large.\<close>

lemma unit_obtain:
  fixes n :: nat
  assumes "1024 \<le> n" "n < 2 ^ 50 - 2"
  obtains k where "k \<noteq> 0" "k < 5" "1024 ^ k \<le> n" "n < 1024 ^ Suc k"
proof
  let ?k = "floor_log2 n div 10"
  have pos: "n > 0"
    using assms by simp
  show b: "1024 ^ ?k \<le> n" "n < 1024 ^ Suc ?k"
    by (rule unit_bounds [OF pos])+
  show "?k \<noteq> 0"
    using b(2) assms(1) by (metis leD power_one_right One_nat_def)
  have "(1024::nat) ^ ?k < 1024 ^ 5"
    using b(1) assms(2) by simp
  then show "?k < 5"
    by (simp only: power_strict_increasing_iff one_less_numeral_iff semiring_norm)
qed

section \<open>A report without rounding never fails\<close>

definition PlainLine :: "report_env \<Rightarrow> options \<Rightarrow> nat \<Rightarrow> output_file \<Rightarrow> string" where
  "PlainLine env opts padding e =
     setw padding (show_nat (unat (Size e))) @ ''b'' @ '' '' @ OutFilename e @
     (if CommandLengthLimit opts \<noteq> 0 then '' (pid:'' @ ProcRef env (OutProcInfo e) @ '')'' else []) @ endl"

lemma ReportLines_plain:
  "\<not> HumanReadableSizes opts \<Longrightarrow>
    ReportLines env opts padding files = Inr (concat (map (PlainLine env opts padding) files))"
  by (induction files) (simp_all add: ReportLine_def PlainLine_def)

lemma PrintReport_plain:
  assumes "\<not> HumanReadableSizes (Opts c)"
  shows "PrintReport env c =
    (let opts = Opts c; files = GetLargestFiles (FileStorage c) in
     Inr \<lparr>Diagnostics = fst (OpenSink env opts), Sink = snd (OpenSink env opts),
          Text = ReportHeader opts files @ concat (map (PlainLine env opts (ReportPadding False files)) files) @
                 ReportLegend env opts files @ ''Total output: '' @
                 (show_nat (unat (GetStorageOutputSize (FileStorage c))) @ ''b'') @ endl\<rparr>)"
  using assms by (simp add: PrintReport_def ReportLines_plain ShowSize_def Let_def split: prod.splits)

lemma PostProcess_run:
  assumes "wf_ctx c" "led c" "Capacity (FileStorage c) \<noteq> 0"
  obtains c' where "VanishAll c = Inr c'" "Opts c' = Opts c" "storage_ok (FileStorage c')"
    "GetStorageOutputSize (FileStorage c') = accounted c"
  using VanishAll_spec [OF assms] accounted_no_process by metis

text \<open>The report at the end of a run, with sizes in bytes.\<close>

lemma PostProcess_reports:
  assumes "wf_ctx c" "led c" "Capacity (FileStorage c) \<noteq> 0" "\<not> HumanReadableSizes (Opts c)" "FilesInReport (Opts c) \<noteq> 0"
  shows "\<exists>r body. PostProcess env rc c = Inr (rc, Some r) \<and>
    Text r = body @ ''Total output: '' @ (show_nat (unat (accounted c)) @ ''b'') @ endl"
proof -
  obtain c' where c': "VanishAll c = Inr c'" "Opts c' = Opts c" "GetStorageOutputSize (FileStorage c') = accounted c"
    using PostProcess_run [OF assms(1-3)] by metis
  then obtain r where r: "PrintReport env c' = Inr r"
    and body: "\<exists>body. Text r = body @ ''Total output: '' @ (show_nat (unat (accounted c)) @ ''b'') @ endl"
    using assms(4) by (simp add: PrintReport_plain Let_def)
  show ?thesis
    using c' r body assms(5) by (simp add: PostProcess_def)
qed

end
