(* ===== verification/CoreSearch.thy ===== *)
theory CoreSearch
  imports Cores
begin

text \<open>
  What \<^verbatim>\<open>RecoverCoreDumpFile\<close> should find: the file that the kernel writes. \<open>core_name\<close> expands a pattern as
  \<^verbatim>\<open>core(5)\<close> says, with the values of all specifiers; the mask of the code, which knows three of them and
  puts a star for the others, matches that name.
\<close>

section \<open>The kernel's name\<close>

fun core_name :: "(char \<Rightarrow> string) \<Rightarrow> string \<Rightarrow> string" where
  "core_name spec [] = []"
| "core_name spec [c] = (if c = CHR ''%'' then [] else [c])"
| "core_name spec (c # d # ds) =
     (if c = CHR ''%'' then (if d = CHR ''%'' then [d] else spec d) @ core_name spec ds
      else c # core_name spec (d # ds))"

text \<open>The specifiers that the code knows have the values it uses.\<close>

definition kernel_specs :: "pid \<Rightarrow> string \<Rightarrow> int \<Rightarrow> (char \<Rightarrow> string) \<Rightarrow> bool" where
  "kernel_specs pid comm termSig spec \<longleftrightarrow>
     spec CHR ''p'' = show_int pid \<and> spec CHR ''e'' = comm \<and> spec CHR ''s'' = show_int termSig"

section \<open>Matching with stars\<close>

fun glob :: "string \<Rightarrow> string \<Rightarrow> bool" where
  "glob [] s \<longleftrightarrow> s = []"
| "glob (c # p) s \<longleftrightarrow>
     (if c = CHR ''*'' then list_ex (\<lambda>k. glob p (drop k s)) [0..<Suc (length s)]
      else (case s of [] \<Rightarrow> False | d # ds \<Rightarrow> c = d \<and> glob p ds))"

lemma glob_star: "glob p t \<Longrightarrow> glob (CHR ''*'' # p) (s @ t)"
  by (auto simp: list_ex_iff intro!: bexI [of _ "length s"])

lemma glob_char: "glob p t \<Longrightarrow> glob (c # p) (c # t)"
proof (cases "c = CHR ''*''")
  case True
  assume "glob p t"
  then show ?thesis
    using glob_star [of p t "[c]"] True by simp
qed simp

lemma glob_text: "glob p t \<Longrightarrow> glob (s @ p) (s @ t)"
  by (induction s) (simp_all only: append.simps glob_char)

lemma ResolveMask_glob:
  "ResolveMask pid comm termSig pat = Inr r \<Longrightarrow> CHR 0x00 \<notin> set pat \<Longrightarrow> kernel_specs pid comm termSig spec \<Longrightarrow>
    glob r (core_name spec pat)"
proof (induction spec pat arbitrary: r rule: core_name.induct)
  case (2 spec c)
  then show ?case
    by (auto split: if_splits)
next
  case (3 spec c d ds)
  show ?case
  proof (cases "c = CHR ''%''")
    case True
    let ?out = "if d = CHR 0x00 then [] else if d = CHR ''%'' then [d] else if d = CHR ''p'' then show_int pid
        else if d = CHR ''e'' then comm else if d = CHR ''s'' then show_int termSig else ''*''"
    obtain q where q: "ResolveMask pid comm termSig ds = Inr q" "r = ?out @ q"
      using 3(3) True by (auto simp: bindR_eq_Inr_iff Let_def)
    have ih: "glob q (core_name spec ds)"
      using 3(1) [OF True q(1)] 3(4,5) by simp
    have d: "d \<noteq> CHR 0x00"
      using 3(4) by auto
    have spec: "spec CHR ''p'' = show_int pid" "spec CHR ''e'' = comm" "spec CHR ''s'' = show_int termSig"
      using 3(5) by (simp_all add: kernel_specs_def)
    consider "d = CHR ''%''" | "d \<noteq> CHR ''%''" "?out = spec d" | "d \<noteq> CHR ''%''" "?out = ''*''"
      using d spec by (cases "d = CHR ''p'' \<or> d = CHR ''e'' \<or> d = CHR ''s''") auto
    then show ?thesis
    proof cases
      case 1
      then show ?thesis
        using glob_text [OF ih, of "''%''"] True by (simp add: q(2))
    next
      case 2
      then show ?thesis
        using glob_text [OF ih, of "spec d"] True by (simp add: q(2))
    next
      case 3
      then show ?thesis
        using glob_star [OF ih, of "spec d"] True by (simp add: q(2))
    qed
  next
    case False
    obtain q where "ResolveMask pid comm termSig (d # ds) = Inr q" "r = c # q"
      using False 3(3) by (auto simp: bindR_eq_Inr_iff)
    moreover have "CHR 0x00 \<notin> set (d # ds)"
      using 3(4) by simp
    ultimately have "glob (c # q) (c # core_name spec (d # ds))" "r = c # q"
      using 3(2) [OF False _ _ 3(5)] by (blast intro: glob_char)+
    then show ?thesis
      using False by (simp only: core_name.simps if_False)
  qed
qed simp

text \<open>A resolved mask has no other special characters than those of its parts.\<close>

lemma show_nat_chars: "c \<in> set (show_nat n) \<Longrightarrow> is_digit c"
  using show_nat_digits [of n] by (simp add: list_all_iff)

definition only_stars :: "string \<Rightarrow> bool" where
  "only_stars s \<longleftrightarrow> CHR ''?'' \<notin> set s \<and> CHR ''['' \<notin> set s"

lemma only_stars_show_int: "only_stars (show_int n)"
  using show_nat_chars [of "CHR ''?''" "nat \<bar>n\<bar>"] show_nat_chars [of "CHR ''[''" "nat \<bar>n\<bar>"]
  by (auto simp: only_stars_def show_int_def is_digit_def)

lemma ResolveMask_only_stars:
  "ResolveMask pid comm termSig pat = Inr r \<Longrightarrow> only_stars pat \<Longrightarrow> only_stars comm \<Longrightarrow> only_stars r"
proof (induction pid comm termSig pat arbitrary: r rule: ResolveMask.induct)
  case (1 pid comm termSig)
  then show ?case
    by simp
next
  case (2 pid comm termSig c cs)
  show ?case
  proof (cases "c = CHR ''%''")
    case True
    then obtain d ds where cs: "cs = d # ds"
      using 2(3) by (cases cs) auto
    then obtain q out where q: "ResolveMask pid comm termSig ds = Inr q" "r = out @ q"
      and out: "out \<in> {[], [d], show_int pid, comm, show_int termSig, ''*''}"
      using 2(3) True by (auto simp: bindR_eq_Inr_iff Let_def split: if_splits)
    have "only_stars q"
      using 2(1) [OF True cs refl q(1)] 2(4,5) cs by (auto simp: only_stars_def)
    moreover have "only_stars out"
      using out 2(4,5) cs only_stars_show_int by (auto simp: only_stars_def)
    ultimately show ?thesis
      by (simp add: q(2) only_stars_def)
  next
    case False
    then obtain q where "ResolveMask pid comm termSig cs = Inr q" "r = c # q"
      using 2(3) by (auto simp: bindR_eq_Inr_iff)
    then show ?thesis
      using 2(2) [OF False] 2(4,5) by (auto simp: only_stars_def)
  qed
qed

section \<open>The search\<close>

lemma FirstMatch_Some:
  "FirstMatch os pat entries = Some name \<Longrightarrow> (name, True) \<in> set entries \<and> FnMatch os pat name"
  by (induction entries) (auto split: if_splits)

lemma FirstMatch_found: "(name, True) \<in> set entries \<Longrightarrow> FnMatch os pat name \<Longrightarrow> \<exists>n. FirstMatch os pat entries = Some n"
  by (induction entries) auto

text \<open>\<^verbatim>\<open>fnmatch\<close> with \<^verbatim>\<open>FNM_NOESCAPE\<close>, on masks in which the star is the only special character.\<close>

definition fnmatch_stars :: "os \<Rightarrow> bool" where
  "fnmatch_stars os \<longleftrightarrow> (\<forall>m s. only_stars m \<longrightarrow> FnMatch os m s = glob m s)"

lemma rfind_slash_join: "CHR ''/'' \<notin> set b \<Longrightarrow> rfind_slash (d @ ''/'' @ b) = Some (d, b)"
proof -
  assume "CHR ''/'' \<notin> set b"
  then have "x \<noteq> CHR ''/''" if "x \<in> set (rev b)" for x
    using that by auto
  then show ?thesis
    using dropWhile_append2 [of "rev b" "\<lambda>c. c \<noteq> CHR ''/''"] takeWhile_append2 [of "rev b" "\<lambda>c. c \<noteq> CHR ''/''"]
    by (simp add: rfind_slash_def)
qed

lemma DefaultPattern_absolute:
  assumes "ReadFileSafe os ''/proc/sys/kernel/core_pattern'' (-1) = dir @ ''/'' @ base"
    and "CHR ''/'' \<notin> set base" "take 1 (dir @ ''/'') = ''/''"
  shows "DefaultPattern os cwd = \<lparr>Path = dir @ ''/'', Mask = base\<rparr>"
proof -
  have "take 1 (dir @ ''/'' @ base) = ''/''"
    using assms(3) by (cases dir) simp_all
  then show ?thesis
    using assms rfind_slash_join [OF assms(2), of dir]
    by (auto simp: DefaultPattern_def Let_def GetDirName_def GetBaseName_def)
qed

lemma RecoverCoreDumpFile_found:
  assumes pat: "DefaultPattern os cwd = \<lparr>Path = path, Mask = base\<rparr>"
    and base: "well_paired base" "CHR 0x00 \<notin> set base" "only_stars base" "only_stars comm"
    and fn: "fnmatch_stars os" and specs: "kernel_specs pid comm termSig spec"
    and dir: "DirEntries os path = Some entries" "(core_name spec base, True) \<in> set entries"
  obtains r name where "ResolveMask pid comm termSig base = Inr r"
    "RecoverCoreDumpFile os pid comm cwd termSig = Inr (path @ name)"
    "(name, True) \<in> set entries" "glob r name"
proof -
  obtain r where r: "ResolveMask pid comm termSig base = Inr r"
    using base(1) ResolveMask_Inr_iff by blast
  have match: "FnMatch os r s = glob r s" for s
    using fn ResolveMask_only_stars [OF r base(3,4)] by (simp add: fnmatch_stars_def)
  obtain name where name: "FirstMatch os r entries = Some name"
    using FirstMatch_found [OF dir(2)] match ResolveMask_glob [OF r base(2) specs] by blast
  have "RecoverCoreDumpFile os pid comm cwd termSig = Inr (path @ name)"
    by (simp add: RecoverCoreDumpFile_def CorePatterns_def pat r dir(1) name)
  moreover have "(name, True) \<in> set entries" "glob r name"
    using FirstMatch_Some [OF name] unfolding match by (rule conjunct1, rule conjunct2)
  ultimately show thesis
    by (rule that [OF r])
qed

end
