(* ===== verification/FileProps.thy ===== *)
theory FileProps
  imports Report CoreSearch
begin

text \<open>
  Properties of the parts that touch no process: the file states, the storage of the report's
  entries, the string and \<^verbatim>\<open>/proc\<close> utilities, the masks of core dumps, and the sizes for people.
\<close>

section \<open>File states\<close>

text \<open>
  C25: For every sequence of writes, positioned writes, resizes and seeks that stays below \<open>2 ^ 64\<close>,
  the 64-bit fields of a \<^verbatim>\<open>TFileState\<close> are the offset and the highest position of the abstract
  cursor, and \<^verbatim>\<open>GetOutputSize\<close> is the growth over the initial size.
\<close>

theorem output_is_growth:
  assumes "ops_fit ops (abs_cursor s)"
  shows "abs_cursor (file_run ops s) = cursor_run ops (abs_cursor s) \<and>
    unat (GetOutputSize (file_run ops s)) = snd (cursor_run ops (abs_cursor s)) - unat (InitSize s)"
  using file_run_refines [OF assms] file_run_output [OF assms] by simp_all

theorem output_is_growth_witness:
  "abs_cursor (file_run [WriteOp 5, SeekOp 2, WriteOp 1] (NewFileState (\<lambda>_. Some 0) ''f'' O_WRONLY)) = (3, 5)"
proof -
  let ?s = "NewFileState (\<lambda>_. Some 0) ''f'' O_WRONLY"
  have s: "abs_cursor ?s = (0, 0)"
    by (simp add: NewFileState_def abs_cursor_def IsAppendSet_def open_flag_defs GetFileLength_def)
  have "abs_cursor (file_run [WriteOp 5, SeekOp 2, WriteOp 1] ?s) = cursor_run [WriteOp 5, SeekOp 2, WriteOp 1] (abs_cursor ?s)"
    by (rule output_is_growth [THEN conjunct1]) (simp add: s)
  then show ?thesis
    by (simp add: s cursor_run_def)
qed

text \<open>
  A file opened for appending is credited with exactly the bytes written to it one after the
  other, whatever was in it before.
\<close>

theorem appended_output:
  assumes "IsAppendSet (NewFileState stat f flags)"
    and "unat (GetFileLength stat f) + sum_list (map unat ns) < 2 ^ 64"
  shows "unat (GetOutputSize (file_run (map WriteOp ns) (NewFileState stat f flags))) = sum_list (map unat ns)"
proof (cases "ns = []")
  case True
  then show ?thesis
    by (simp add: file_run_def)
next
  case False
  let ?s = "NewFileState stat f flags"
  have "unat (CurrPos ?s) = unat (GetFileLength stat f)" "MaxPos ?s = 0"
    using assms(1) NewFileState_cursor [of stat f flags]
    by (simp_all add: abs_cursor_def unat_eq_zero)
  then show ?thesis
    using writes_output [of ?s ns] assms(2) False by simp
qed

theorem appended_output_witness:
  "unat (GetOutputSize (file_run (map WriteOp [3, 4]) (NewFileState (\<lambda>_. Some 10) ''log'' O_APPEND))) = 7"
  using appended_output [of "\<lambda>_. Some 10" "''log''" O_APPEND "[3, 4]"]
  by (simp add: IsAppendSet_def open_flag_defs NewFileState_def GetFileLength_def)

text \<open>
  The copy that a forked child gets starts at the parent's offset but measures against the length
  the file has by then, so of the child's writes only what reaches past that length is counted.
\<close>

theorem child_copy_output:
  assumes "unat (CurrPos s) + sum_list (map unat ns) < 2 ^ 64" and "ns \<noteq> []"
    and "MaxPos s \<le> GetFileLength stat (Filename s)"
  shows "unat (GetOutputSize (file_run (map WriteOp ns) (CopyFileState stat s))) =
    (unat (CurrPos s) + sum_list (map unat ns)) - unat (GetFileLength stat (Filename s))"
proof -
  have "unat (MaxPos s) \<le> unat (GetFileLength stat (Filename s))"
    using assms(3) by (simp add: word_le_nat_alt)
  then show ?thesis
    using writes_output [of "CopyFileState stat s" ns] assms(1,2) by (auto simp: max_def)
qed

text \<open>
  The witness is a second child: the first one has written 100 bytes, the copy still stands at 0, and
  the 50 bytes of the second are not counted.
\<close>

theorem child_copy_output_witness:
  "GetOutputSize (file_run (map WriteOp [50])
     (CopyFileState (\<lambda>_. Some 100) (NewFileState (\<lambda>_. Some 0) ''f'' O_WRONLY))) = 0"
  using child_copy_output [of "NewFileState (\<lambda>_. Some 0) ''f'' O_WRONLY" "[50]" "\<lambda>_. Some 100"]
  by (simp add: NewFileState_def IsAppendSet_def open_flag_defs GetFileLength_def unat_eq_zero)

section \<open>The storage\<close>

text \<open>
  C24: The sizes that a bounded storage reports are those of sorting every accepted entry by size
  and keeping the first \<open>k\<close>.
\<close>

theorem report_is_top_k:
  "map Size (GetLargestFiles (AddFileEntries fs (NewFileStorage (int k) storeEmpty))) =
     largest k (map Size (filter (accepts (NewFileStorage (int k) storeEmpty)) fs))"
proof -
  let ?st = "NewFileStorage (int k) storeEmpty" and ?xs = "map Size (filter (accepts (NewFileStorage (int k) storeEmpty)) fs)"
  have cap: "Capacity (AddFileEntries fs ?st) = int k"
  proof -
    have "Capacity (AddFileEntries gs st) = Capacity st" for gs st
      unfolding AddFileEntries_def by (induction gs arbitrary: st) simp_all
    then show ?thesis
      by (simp add: NewFileStorage_def)
  qed
  have "holds_largest (rev ?xs) (AddFileEntries fs ?st)"
    using holds_largest_all [OF holds_largest_new, of "int k" storeEmpty fs] by simp
  then have "map Size (GetLargestFiles (AddFileEntries fs ?st)) = largest k (rev ?xs)"
    using GetLargestFiles_sizes cap by fastforce
  also have "\<dots> = largest k ?xs"
    by (rule largest_mset_cong) simp
  finally show ?thesis .
qed

text \<open>
  With a nonzero capacity the total counts every entry, also those that the bounded queue dropped;
  with capacity zero nothing is counted.
\<close>

theorem total_counts_every_entry:
  "GetStorageOutputSize (AddFileEntries fs (NewFileStorage cap storeEmpty)) =
    (if cap = 0 then 0 else sum_list (map Size fs))"
proof (cases "cap = 0")
  case True
  have "Capacity st = 0 \<Longrightarrow> AddFileEntries gs st = st" for gs st
    unfolding AddFileEntries_def by (induction gs) (simp_all add: AddFileEntry_def)
  then show ?thesis
    using True by (simp add: GetStorageOutputSize_def NewFileStorage_def)
next
  case False
  then show ?thesis
    using AddFileEntries_OutputSize [of "NewFileStorage cap storeEmpty" fs]
    by (simp add: GetStorageOutputSize_def NewFileStorage_def)
qed

section \<open>Utilities\<close>


definition status_text :: string where
  "status_text = replicate 495 CHR ''x'' @ ''FDSize:'' @ ''64'' @ replicate 7 CHR ''y''"

lemma status_text_size: "after_first ''FDSize:'' (take 511 status_text) = Some (''64'' @ replicate 7 CHR ''y'')"
proof -
  have step: "after_first ''FDSize:'' (replicate k CHR ''x'' @ ''FDSize:'' @ t) = Some t" for k t
  proof (induction k)
    case 0
    then show ?case
      by (simp add: after_first.simps [of _ "_ # _"])
  next
    case (Suc k)
    then show ?case
      by (simp add: after_first.simps [of _ "_ # _"])
  qed
  have "take 511 status_text = status_text"
    by (simp add: status_text_def)
  then show ?thesis
    using step [of 495 "''64'' @ replicate 7 CHR ''y''"] by (simp add: status_text_def)
qed

definition some_os :: os where
  "some_os = \<lparr>Stat = (\<lambda>_. None), LinkTarget = (\<lambda>_. Some ''/tmp/out''), FileText = (\<lambda>_. None),
     WorkingDir = None, DirEntries = (\<lambda>_. None), FnMatch = (\<lambda>p n. p = n),
     FdFlags = (\<lambda>fd. if fd \<in> {0, 1, 2, 5} then 0 else -1),
     FdRegular = (\<lambda>fd. Some (fd = 5)), StatusReads = [ReadBytes status_text]\<rparr>"


text \<open>
  A first \<^verbatim>\<open>read\<close> of \<^verbatim>\<open>/proc/self/status\<close> that returns fewer bytes than the buffer holds makes the
  second one write outside the buffer: its target \<^verbatim>\<open>&line + size\<close> counts in arrays, not bytes.
\<close>

theorem short_status_read_overflows:
  assumes "StatusReads os = ReadBytes bytes # ReadBytes bytes2 # rs"
    and "0 < length bytes" "length bytes < 511" "0 < length bytes2"
  shows "MyHighestFd os = Inl (Undefined ''write outside line'')"
  using read_status_short_read [OF assms(2-4), of rs] assms(1) by (simp add: MyHighestFd_def)

theorem short_status_read_overflows_witness:
  "MyHighestFd (some_os\<lparr>StatusReads := [ReadBytes ''Name:'', ReadBytes ''FDSize: 64'']\<rparr>) =
    Inl (Undefined ''write outside line'')"
  by (rule short_status_read_overflows [of _ "''Name:''" "''FDSize: 64''" "[]"]) simp_all

section \<open>Core dumps\<close>

text \<open>Resolving a mask succeeds unless the mask ends in a \<^verbatim>\<open>%\<close> that starts a specifier.\<close>

theorem resolve_mask_total:
  "(\<exists>r. ResolveMask pid comm termSig pat = Inr r) \<longleftrightarrow> well_paired pat"
  by (rule ResolveMask_Inr_iff)

text \<open>
  A \<^verbatim>\<open>core_pattern\<close> without a slash and without a pipe gives the empty mask, so the core dump that
  the kernel writes to the working directory under that name is not looked for.
\<close>

theorem relative_pattern_gives_empty_mask:
  assumes "ReadFileSafe os ''/proc/sys/kernel/core_pattern'' (-1) = pat"
    and "pat \<noteq> []" "CHR ''/'' \<notin> set pat" "take 1 pat \<noteq> ''|''"
  shows "DefaultPattern os cwd = \<lparr>Path = cwd @ ''/'', Mask = []\<rparr>"
proof -
  have "take 1 pat \<noteq> ''/''"
    using assms(2,3) by (cases pat) auto
  moreover have "GetBaseName pat = []"
    using assms(3) rfind_slash_None [of pat] by (simp add: GetBaseName_def)
  ultimately show ?thesis
    using assms by (simp add: DefaultPattern_def Let_def)
qed

theorem relative_pattern_gives_empty_mask_witness:
  "DefaultPattern (some_os\<lparr>FileText := (\<lambda>_. Some ''core'')\<rparr>) ''/home'' = \<lparr>Path = ''/home/'', Mask = []\<rparr>"
  using relative_pattern_gives_empty_mask [of "some_os\<lparr>FileText := (\<lambda>_. Some ''core'')\<rparr>" "''core''" "''/home''"]
  by (simp add: ReadFileSafe_def StripString_def is_ws_def)


text \<open>\<^verbatim>\<open>cat\<close>, process 7, was killed by \<^verbatim>\<open>SIGSEGV\<close>.\<close>

definition core_os :: os where
  "core_os = some_os\<lparr>FileText := (\<lambda>_. Some ''/cores/core.%e.%p''), FnMatch := glob,
     DirEntries := (\<lambda>_. Some [(''notes'', True), (''core.cat.7'', True)])\<rparr>"


section \<open>Sizes for people\<close>

lemma unit_of_tie:
  fixes n :: nat
  assumes k: "k \<noteq> 0" "k < 5" "1024 ^ k \<le> n" "n < 1024 ^ Suc k"
  shows "(\<exists>j\<in>{1, 2, 3, 4}. 1999 * 1024 ^ j \<le> 20 * n \<and> n < 100 * 1024 ^ j) \<longleftrightarrow>
    1999 * 1024 ^ k \<le> 20 * n \<and> n < 100 * 1024 ^ k" (is "?L \<longleftrightarrow> ?R k")
proof
  assume ?L
  then obtain j where j: "?R j"
    by (rule bexE)
  then have "1024 ^ j \<le> n" "n < 1024 ^ Suc j"
    by simp_all
  then have "floor_log2 n div 10 = j"
    by (rule unit_unique)
  then show "?R k"
    using j unit_unique [OF k(3,4)] by simp
next
  assume r: "?R k"
  have "k = 1 \<or> k = 2 \<or> k = 3 \<or> k = 4"
    using k(1,2) by linarith
  then have "k \<in> {1, 2, 3, 4}"
    by simp
  with r show ?L
    by (rule bexI)
qed

lemma human_overflows_in_unit:
  assumes k: "k \<noteq> 0" "k < 5" "1024 ^ k \<le> unat b" "unat b < 1024 ^ Suc k" and b: "unat b < 2 ^ 50 - 2"
  shows "(\<exists>e. HumanReadableSize b = Inl e) \<longleftrightarrow> 1999 * 1024 ^ k \<le> 20 * unat b \<and> unat b < 100 * 1024 ^ k"
proof -
  note u = human_unit [OF k(1,2) _ _ b]
  show ?thesis
  proof (cases "unat b < 100 * 1024 ^ k")
    case True
    then show ?thesis
      using u(2) [OF k(3,4) True] u(3) [OF k(3,4) True] by (cases "20 * unat b < 1999 * 1024 ^ k") simp_all
  next
    case False
    then show ?thesis
      using u(1) [OF k(3,4)] by simp
  qed
qed

text \<open>
  C34: \<^verbatim>\<open>HumanReadableSize\<close> leaves its buffers exactly for the sizes from \<open>2 ^ 50 - 2\<close> on, which have
  no suffix, and for those that round to a hundred units without reaching it, whose text of eight
  characters does not fit \<^verbatim>\<open>char buff[8]\<close>.
\<close>

theorem human_readable_size_overflows_iff:
  "(\<exists>e. HumanReadableSize b = Inl e) \<longleftrightarrow>
     2 ^ 50 - 2 \<le> unat b \<or>
     (\<exists>k\<in>{1, 2, 3, 4}. 1999 * 1024 ^ k \<le> 20 * unat b \<and> unat b < 100 * 1024 ^ k)"
proof -
  let ?n = "unat b"
  consider "?n < 1024" | "1024 \<le> ?n" "?n < 2 ^ 50 - 2" | "2 ^ 50 - 2 \<le> ?n"
    by linarith
  then show ?thesis
  proof cases
    case 1
    then have "\<exists>r. HumanReadableSize b = Inr r"
      using human_small [of b] by (cases "?n = 0") (simp_all add: HumanReadableSize_def)
    then show ?thesis
      using 1 by auto
  next
    case 2
    then obtain k where k: "k \<noteq> 0" "k < 5" "1024 ^ k \<le> ?n" "?n < 1024 ^ Suc k"
      by (rule unit_obtain)
    then have "(\<exists>e. HumanReadableSize b = Inl e) \<longleftrightarrow>
        (\<exists>k\<in>{1, 2, 3, 4}. 1999 * 1024 ^ k \<le> 20 * ?n \<and> ?n < 100 * 1024 ^ k)"
      by (simp only: human_overflows_in_unit [OF k 2(2)] unit_of_tie [OF k])
    then show ?thesis
      using 2(2) by (simp only: not_le [symmetric] simp_thms)
  next
    case 3
    then show ?thesis
      using human_too_large [of b] by simp
  qed
qed

text \<open>
  Below a hundred units the text shows tenths of the unit, and they are the nearest: at most half
  a tenth away from the size.
\<close>

theorem human_readable_size_tenths:
  assumes "k \<in> {1, 2, 3, 4}" "1024 ^ k \<le> unat b" "20 * unat b < 1999 * 1024 ^ k"
  shows "\<exists>t. HumanReadableSize b = Inr (show_tenths t @ suffixes ! k) \<and>
    2 * (t * 1024 ^ k) \<le> 2 * (10 * unat b) + 1024 ^ k \<and> 2 * (10 * unat b) \<le> 2 * (t * 1024 ^ k) + 1024 ^ k"
proof -
  have lt: "unat b < 1024 ^ Suc k" "unat b < 100 * 1024 ^ k" "k \<noteq> 0" "k < 5"
    using assms by auto
  have "(1024::nat) ^ k \<le> 1024 ^ 4"
    using lt(4) by (intro power_increasing) simp_all
  then have "unat b < 2 ^ 50 - 2"
    using lt(2) by simp
  then have "HumanReadableSize b = Inr (show_tenths (round_half_even (10 * unat b) (1024 ^ k)) @ suffixes ! k)"
    using human_unit(2) [OF lt(3,4) assms(2) lt(1)] lt(2) assms(3) by simp
  then show ?thesis
    using round_half_even_error [of "1024 ^ k" "10 * unat b"] by fastforce
qed

theorem human_readable_size_tenths_witness:
  "\<exists>t. HumanReadableSize 1280 = Inr (show_tenths t @ suffixes ! 1) \<and> 12 \<le> t \<and> t \<le> 13"
  using human_readable_size_tenths [of 1 1280] by auto

end
