(* ===== verification/Ptrace.thy ===== *)
theory Ptrace
  imports Registers Utils
begin

text \<open>
  \<^verbatim>\<open>ptrace.cpp\<close>: the wrappers of \<^verbatim>\<open>ptrace\<close>, and \<^verbatim>\<open>GetCloneFlags\<close> of \<^verbatim>\<open>syscall.cpp\<close>. An answer of
  the kernel is \<open>Inl\<close> of an \<^verbatim>\<open>errno\<close> or \<open>Inr\<close> of what it wrote back. A tracee that is gone
  (\<^verbatim>\<open>ESRCH\<close>) is reported as \<open>-1\<close>, any other error ends the tracer.
\<close>

section \<open>Wrappers\<close>

type_synonym 'a answer = "int + 'a"

definition ESRCH :: int where "ESRCH = 3"
definition EINTR :: int where "EINTR = 4"
definition ECHILD :: int where "ECHILD = 10"

definition PtraceSafeCall :: "int \<Rightarrow> int \<Rightarrow> failure + int" where
  "PtraceSafeCall res errno =
     (if res = -1 then (if errno \<noteq> ESRCH then Inl (Exit 2) else Inr (-1)) else Inr res)"

text \<open>Requests that carry nothing back: restarting, continuing and writing registers.\<close>

definition PtraceRequest :: "int option \<Rightarrow> failure + int" where
  "PtraceRequest err = (case err of None \<Rightarrow> PtraceSafeCall 0 0 | Some errno \<Rightarrow> PtraceSafeCall (-1) errno)"

definition PtraceGetEventMsg :: "int answer \<Rightarrow> failure + int" where
  "PtraceGetEventMsg ans =
     (case ans of
        Inl errno \<Rightarrow> bindR (PtraceSafeCall (-1) errno) (\<lambda>_. Inr (-1))
      | Inr data \<Rightarrow> Inr data)"

text \<open>
  \<^verbatim>\<open>PTRACE_PEEKUSER\<close> returns the word itself, read at a byte offset of the user area, whose head is
  the register block, and the library clears \<^verbatim>\<open>errno\<close>. A word of \<open>-1\<close> is then taken for an error.
\<close>

definition PtracePeekUser :: "user_regs answer \<Rightarrow> nat \<Rightarrow> failure + int" where
  "PtracePeekUser ans offset =
     (case ans of
        Inl errno \<Rightarrow> PtraceSafeCall (-1) errno
      | Inr regs \<Rightarrow> PtraceSafeCall (sint (regs (offset div 8))) 0)"

text \<open>The registers come back in an argument, which a failed call leaves as it was: \<open>None\<close>.\<close>

definition PtraceGetRegs :: "user_regs answer \<Rightarrow> failure + user_regs option" where
  "PtraceGetRegs ans =
     (case ans of
        Inl errno \<Rightarrow> bindR (PtraceSafeCall (-1) errno) (\<lambda>_. Inr None)
      | Inr regs \<Rightarrow> Inr (Some regs))"

definition PtraceTraceMe :: "int option \<Rightarrow> failure + unit" where
  "PtraceTraceMe err = (case err of None \<Rightarrow> Inr () | Some _ \<Rightarrow> Inl (Exit 2))"

definition PtraceSetOptions :: "int option \<Rightarrow> failure + unit" where
  "PtraceSetOptions err = (case err of None \<Rightarrow> Inr () | Some _ \<Rightarrow> Inl (Exit 2))"

section \<open>Clone flags\<close>

text \<open>
  On aarch64 the function reads \<^verbatim>\<open>regs[2]\<close>, and does so also when the call failed and left the block
  uninitialised.
\<close>

definition GetCloneFlags :: "arch \<Rightarrow> user_regs answer \<Rightarrow> failure + int" where
  "GetCloneFlags a ans =
     (case a of
        X86_64 \<Rightarrow> PtracePeekUser ans (8 * RDI)
      | AArch64 \<Rightarrow> bindR (PtraceGetRegs ans) (\<lambda>r. case r of
            None \<Rightarrow> Inl (Undefined ''uninitialised registers'')
          | Some regs \<Rightarrow> Inr (sint (regs 2))))"

definition CLONE_THREAD :: int where "CLONE_THREAD = 0x10000"

definition IsThread :: "int \<Rightarrow> bool" where
  "IsThread cloneFlags \<longleftrightarrow> cloneFlags AND CLONE_THREAD \<noteq> 0"

lemma GetCloneFlags_first_argument:
  assumes "SYSCALL_ARG0 X86_64 regs \<noteq> - 1"
  shows "GetCloneFlags X86_64 (Inr regs) = Inr (sint (SYSCALL_ARG0 X86_64 regs))"
proof -
  have "sint (regs RDI) \<noteq> - 1"
  proof
    assume "sint (regs RDI) = - 1"
    then have "(word_of_int (sint (regs RDI)) :: u64) = word_of_int (- 1)"
      by (rule arg_cong)
    then show False
      using assms by (simp add: SYSCALL_ARG0_def)
  qed
  then show ?thesis
    by (simp add: GetCloneFlags_def PtracePeekUser_def PtraceSafeCall_def SYSCALL_ARG0_def)
qed

section \<open>Events\<close>

definition PTRACE_EVENT_FORK :: nat where "PTRACE_EVENT_FORK = 1"
definition PTRACE_EVENT_VFORK :: nat where "PTRACE_EVENT_VFORK = 2"
definition PTRACE_EVENT_CLONE :: nat where "PTRACE_EVENT_CLONE = 3"
definition PTRACE_EVENT_EXEC :: nat where "PTRACE_EVENT_EXEC = 4"
definition PTRACE_EVENT_VFORK_DONE :: nat where "PTRACE_EVENT_VFORK_DONE = 5"
definition PTRACE_EVENT_EXIT :: nat where "PTRACE_EVENT_EXIT = 6"
definition PTRACE_EVENT_SECCOMP :: nat where "PTRACE_EVENT_SECCOMP = 7"

lemmas ptrace_event_defs =
  PTRACE_EVENT_FORK_def PTRACE_EVENT_VFORK_def PTRACE_EVENT_CLONE_def PTRACE_EVENT_EXEC_def
  PTRACE_EVENT_VFORK_DONE_def PTRACE_EVENT_EXIT_def PTRACE_EVENT_SECCOMP_def

definition StrPtraceEventName :: "int \<Rightarrow> string" where
  "StrPtraceEventName event =
     (if event = int PTRACE_EVENT_CLONE then ''PTRACE_EVENT_CLONE''
      else if event = int PTRACE_EVENT_EXEC then ''PTRACE_EVENT_EXEC''
      else if event = int PTRACE_EVENT_EXIT then ''PTRACE_EVENT_EXIT''
      else if event = int PTRACE_EVENT_FORK then ''PTRACE_EVENT_FORK''
      else if event = int PTRACE_EVENT_SECCOMP then ''PTRACE_EVENT_SECCOMP''
      else if event = int PTRACE_EVENT_VFORK then ''PTRACE_EVENT_VFORK''
      else if event = int PTRACE_EVENT_VFORK_DONE then ''PTRACE_EVENT_VFORK_DONE''
      else ''PTRACE_EVENT_UNKNOWN'')"

section \<open>Wait statuses\<close>

text \<open>The macros of \<^verbatim>\<open>sys/wait.h\<close> on the 32-bit status.\<close>

definition WTERMSIG :: "u32 \<Rightarrow> nat" where "WTERMSIG status = unat (status AND 0x7f)"
definition WEXITSTATUS :: "u32 \<Rightarrow> nat" where "WEXITSTATUS status = unat (drop_bit 8 (status AND 0xff00))"
definition WSTOPSIG :: "u32 \<Rightarrow> nat" where "WSTOPSIG status = WEXITSTATUS status"
definition WIFEXITED :: "u32 \<Rightarrow> bool" where "WIFEXITED status \<longleftrightarrow> WTERMSIG status = 0"
definition WIFSIGNALED :: "u32 \<Rightarrow> bool" where
  "WIFSIGNALED status \<longleftrightarrow> WTERMSIG status \<noteq> 0 \<and> WTERMSIG status \<noteq> 0x7f"
definition WIFSTOPPED :: "u32 \<Rightarrow> bool" where "WIFSTOPPED status \<longleftrightarrow> status AND 0xff = 0x7f"
definition WCOREDUMP :: "u32 \<Rightarrow> bool" where "WCOREDUMP status \<longleftrightarrow> status AND 0x80 \<noteq> 0"

text \<open>\<^verbatim>\<open>(unsigned int)status >> 16\<close>.\<close>

definition EventOf :: "u32 \<Rightarrow> nat" where "EventOf status = unat (drop_bit 16 status)"

text \<open>What \<^verbatim>\<open>wait3\<close> and \<^verbatim>\<open>waitpid\<close> return: an error, or a process and its status.\<close>

datatype wait_result = WaitError int | WaitStatus pid u32

end
