(* ===== verification/Tracer.thy ===== *)
theory Tracer
  imports Report Ptrace
begin

text \<open>
  \<^verbatim>\<open>optrace.cpp\<close>: the tracer's loop and what surrounds it. The kernel is the input of the model:
  one turn of the loop gets the result of \<^verbatim>\<open>wait3\<close> and the kernel's answers to whatever \<^verbatim>\<open>ptrace\<close>
  requests the turn makes. The requests that let a tracee run are the output, kept in a log.
\<close>

section \<open>State, inputs and outputs\<close>

datatype action = Restart pid int | Proceed pid int | WriteRegs pid user_regs

record tracer =
  Ctx :: tcontext
  SyscallState :: "pid \<rightharpoonup> int" \<comment> \<open>\<^verbatim>\<open>syscallStateMap\<close>\<close>
  Suspended :: "pid \<rightharpoonup> u32" \<comment> \<open>\<^verbatim>\<open>suspendedThreads\<close>\<close>
  TraceeExitCode :: int
  Log :: "action list"

record setting =
  Arch :: arch
  Tracee :: pid
  FollowsForks :: bool
  WaitsDaemons :: bool
  SecComp :: bool
  SecCompVer :: nat

record answers =
  EventMsg :: "int answer"
  PeekedRegs :: "user_regs answer"
  Regs :: "user_regs answer"
  RequestError :: "action \<Rightarrow> int option"
  Machine :: os

definition SEC_COMP_V1 :: nat where "SEC_COMP_V1 = 1"
definition SEC_COMP_V2 :: nat where "SEC_COMP_V2 = 2"
definition EXIT_CODE_UNKNOWN :: int where "EXIT_CODE_UNKNOWN = - 1"
definition SYSCALL_UNDEFINED :: int where "SYSCALL_UNDEFINED = - 1"

lemmas tracer_consts = SEC_COMP_V1_def SEC_COMP_V2_def EXIT_CODE_UNKNOWN_def SYSCALL_UNDEFINED_def

definition request :: "answers \<Rightarrow> action \<Rightarrow> tracer \<Rightarrow> failure + tracer" where
  "request ans act s = bindR (PtraceRequest (RequestError ans act)) (\<lambda>_. Inr (s\<lparr>Log := Log s @ [act]\<rparr>))"

definition PtraceRestartSyscall :: "answers \<Rightarrow> pid \<Rightarrow> int \<Rightarrow> tracer \<Rightarrow> failure + tracer" where
  "PtraceRestartSyscall ans pid signal s = request ans (Restart pid signal) s"

definition PtraceContinueSyscall :: "answers \<Rightarrow> pid \<Rightarrow> int \<Rightarrow> tracer \<Rightarrow> failure + tracer" where
  "PtraceContinueSyscall ans pid signal s = request ans (Proceed pid signal) s"

definition PtraceSetRegs :: "answers \<Rightarrow> pid \<Rightarrow> user_regs \<Rightarrow> tracer \<Rightarrow> failure + tracer" where
  "PtraceSetRegs ans pid regs s = request ans (WriteRegs pid regs) s"

definition in_ctx :: "(tcontext \<Rightarrow> failure + tcontext) \<Rightarrow> tracer \<Rightarrow> failure + tracer" where
  "in_ctx f s = bindR (f (Ctx s)) (\<lambda>c. Inr (s\<lparr>Ctx := c\<rparr>))"

definition set_state :: "pid \<Rightarrow> int \<Rightarrow> tracer \<Rightarrow> tracer" where
  "set_state pid v s = s\<lparr>SyscallState := (SyscallState s)(pid \<mapsto> v)\<rparr>"

section \<open>The parts of a turn\<close>

definition vanishThread :: "answers \<Rightarrow> pid \<Rightarrow> bool \<Rightarrow> tracer \<Rightarrow> failure + tracer" where
  "vanishThread ans pid notify s =
     bindR (assertR ''syscallStateMap.find(pid) != syscallStateMap.end()'' (SyscallState s pid \<noteq> None)) (\<lambda>_.
       let s1 = s\<lparr>SyscallState := (SyscallState s)(pid := None)\<rparr>
       in bindR (if notify then in_ctx (VanishProcess pid) s1 else Inr s1) (\<lambda>s2.
            PtraceRestartSyscall ans pid 0 s2))"

text \<open>How a turn goes on: with the next one, or with the return of \<^verbatim>\<open>RunTracer\<close>.\<close>

datatype outcome = Again tracer | Return int tracer

definition ExitStatus :: "u32 \<Rightarrow> int option" where
  "ExitStatus status =
     (if WIFSTOPPED status then None
      else if WIFSIGNALED status then Some (128 + int (WTERMSIG status))
      else if WIFEXITED status then Some (int (WEXITSTATUS status))
      else None)"

definition HandleExit ::
  "setting \<Rightarrow> answers \<Rightarrow> pid \<Rightarrow> int \<Rightarrow> tracer \<Rightarrow> failure + outcome" where
  "HandleExit cfg ans pid exitCode s =
     bindR (vanishThread ans pid True s) (\<lambda>s1.
       if pid = Tracee cfg then
         (if FollowsForks cfg \<and> WaitsDaemons cfg then
            Inr (Again (if TraceeExitCode s1 = EXIT_CODE_UNKNOWN then s1\<lparr>TraceeExitCode := exitCode\<rparr> else s1))
          else Inr (Return exitCode s1))
       else Inr (Again s1))"

text \<open>A part of the turn ends it with \<^verbatim>\<open>continue\<close>, or hands \<open>syscallStop\<close> to the next part.\<close>

datatype flow = Skip tracer | Through bool tracer

definition HandleNewChild :: "setting \<Rightarrow> answers \<Rightarrow> pid \<Rightarrow> pid \<Rightarrow> bool \<Rightarrow> tracer \<Rightarrow> failure + tracer" where
  "HandleNewChild cfg ans pid child isThread s =
     bindR (in_ctx (if isThread then RegisterThread pid child
                    else RegisterProcess (Machine ans) pid child) s) (\<lambda>s1.
       let s2 = set_state child SYSCALL_UNDEFINED s1
       in if Suspended s2 child \<noteq> None then
            let s3 = s2\<lparr>Suspended := (Suspended s2)(child := None)\<rparr>
            in bindR (if SecComp cfg then PtraceContinueSyscall ans child 0 s3
                      else PtraceRestartSyscall ans child 0 s3) (\<lambda>s4.
                 Inr (set_state child SYSCALL_UNDEFINED s4))
          else Inr s2)"

definition HandleEvent ::
  "setting \<Rightarrow> answers \<Rightarrow> pid \<Rightarrow> nat \<Rightarrow> bool \<Rightarrow> tracer \<Rightarrow> failure + flow" where
  "HandleEvent cfg ans pid event syscallStop s =
     bindR (PtraceGetEventMsg (EventMsg ans)) (\<lambda>reportedPid.
       if reportedPid < 0 then bindR (PtraceRestartSyscall ans pid 0 s) (\<lambda>s1. Inr (Skip s1))
       else if event = PTRACE_EVENT_CLONE then
         bindR (GetCloneFlags (Arch cfg) (PeekedRegs ans)) (\<lambda>cloneFlags.
           if cloneFlags < 0 then bindR (PtraceRestartSyscall ans pid 0 s) (\<lambda>s1. Inr (Skip s1))
           else bindR (HandleNewChild cfg ans pid reportedPid (IsThread cloneFlags) s) (\<lambda>s1.
             Inr (Through syscallStop s1)))
       else if event = PTRACE_EVENT_FORK \<or> event = PTRACE_EVENT_VFORK then
         bindR (HandleNewChild cfg ans pid reportedPid False s) (\<lambda>s1. Inr (Through syscallStop s1))
       else if event = PTRACE_EVENT_EXEC then
         bindR (in_ctx (RegisterExec (Machine ans) pid) s) (\<lambda>s1.
           bindR (if reportedPid \<noteq> pid then vanishThread ans reportedPid False s1 else Inr s1) (\<lambda>s2.
             Inr (Through syscallStop s2)))
       else if event = PTRACE_EVENT_SECCOMP then
         (if SecCompVer cfg = SEC_COMP_V1
          then bindR (PtraceRestartSyscall ans pid 0 s) (\<lambda>s1. Inr (Skip s1))
          else Inr (Through True (set_state pid SYSCALL_UNDEFINED s)))
       else Inr (Through syscallStop s))"

text \<open>\<^verbatim>\<open>int& threadPrevSyscall = <long>\<close>.\<close>

definition to_int32 :: "int \<Rightarrow> int" where
  "to_int32 n = sint (word_of_int n :: u32)"

text \<open>The result of a system call stop: go on, \<^verbatim>\<open>continue\<close>, or \<^verbatim>\<open>return -2\<close>.\<close>

datatype stop_flow = StopDone tracer | StopSkip tracer | StopAbort tracer

definition HandleSyscallStop :: "setting \<Rightarrow> answers \<Rightarrow> pid \<Rightarrow> tracer \<Rightarrow> failure + stop_flow" where
  "HandleSyscallStop cfg ans pid s =
     bindR (PtraceGetRegs (Regs ans)) (\<lambda>r. case r of
         None \<Rightarrow> bindR (PtraceRestartSyscall ans pid 0 s) (\<lambda>s1. Inr (StopSkip s1))
       | Some regs \<Rightarrow>
           (case SyscallState s pid of
              None \<Rightarrow> Inl (Assertion ''syscallStateMap.find(pid) != syscallStateMap.end()'')
            | Some prev \<Rightarrow>
                if prev = SYSCALL_UNDEFINED then
                  let number = to_int32 (GetSyscallNumber (Arch cfg) regs);
                      s1 = set_state pid number s
                  in if number = -2 then Inr (StopAbort s1)
                     else let s2 = s1\<lparr>Ctx := SyscallEnter pid regs (Ctx s1)\<rparr>
                          in (case Arch cfg of
                                X86_64 \<Rightarrow> Inr (StopDone s2)
                              | AArch64 \<Rightarrow> bindR (PtraceSetRegs ans pid (regs(9 := regs 0)) s2)
                                            (\<lambda>s3. Inr (StopDone s3)))
                else
                  bindR (in_ctx (SyscallExit (Arch cfg) (Machine ans) pid regs)
                          (set_state pid SYSCALL_UNDEFINED s)) (\<lambda>s1. Inr (StopDone s1))))"

definition ResumeTracee ::
  "setting \<Rightarrow> answers \<Rightarrow> pid \<Rightarrow> bool \<Rightarrow> int \<Rightarrow> tracer \<Rightarrow> failure + tracer" where
  "ResumeTracee cfg ans pid syscallStop signal s =
     (if SecComp cfg then
        if syscallStop \<and> SyscallState s pid \<noteq> Some SYSCALL_UNDEFINED
        then PtraceRestartSyscall ans pid signal s
        else PtraceContinueSyscall ans pid signal s
      else PtraceRestartSyscall ans pid signal s)"

section \<open>A turn and the loop\<close>

definition HandleStop :: "setting \<Rightarrow> answers \<Rightarrow> pid \<Rightarrow> u32 \<Rightarrow> tracer \<Rightarrow> failure + outcome" where
  "HandleStop cfg ans pid status s =
     (let sysgood = WSTOPSIG status = 0x85;
          signal = (if sysgood then 0 else int (WSTOPSIG status));
          event = EventOf status
      in if SyscallState s pid = None then Inr (Again (s\<lparr>Suspended := (Suspended s)(pid \<mapsto> status)\<rparr>))
         else bindR (if event \<noteq> 0 then HandleEvent cfg ans pid event sysgood s else Inr (Through sysgood s))
           (\<lambda>flow. case flow of
              Skip s1 \<Rightarrow> Inr (Again s1)
            | Through syscallStop s1 \<Rightarrow>
                bindR (if syscallStop then HandleSyscallStop cfg ans pid s1 else Inr (StopDone s1))
                  (\<lambda>stop. case stop of
                     StopSkip s2 \<Rightarrow> Inr (Again s2)
                   | StopAbort s2 \<Rightarrow> Inr (Return (-2) s2)
                   | StopDone s2 \<Rightarrow> bindR (ResumeTracee cfg ans pid syscallStop signal s2) (\<lambda>s3. Inr (Again s3)))))"

definition turn :: "setting \<Rightarrow> wait_result \<Rightarrow> answers \<Rightarrow> tracer \<Rightarrow> failure + outcome" where
  "turn cfg w ans s =
     (case w of
        WaitError errno \<Rightarrow>
          if errno = EINTR then Inr (Again s)
          else if errno = ECHILD then
            Inr (Return (if TraceeExitCode s = EXIT_CODE_UNKNOWN then 128 + SIGKILL else TraceeExitCode s) s)
          else Inl (Exit 2)
      | WaitStatus pid status \<Rightarrow>
          if WIFSTOPPED status then HandleStop cfg ans pid status s
          else if \<not> WIFSIGNALED status \<and> \<not> WIFEXITED status then Inl (Exit 2)
          else bindR (if WIFSIGNALED status \<and> WCOREDUMP status
                      then in_ctx (RegisterCoreDump (Machine ans) pid (int (WTERMSIG status))) s else Inr s)
                 (\<lambda>s1. case ExitStatus status of
                    None \<Rightarrow> Inl (Exit 2)
                  | Some exitCode \<Rightarrow> HandleExit cfg ans pid exitCode s1))"

text \<open>The loop over a sequence of inputs; a sequence that ends leaves the tracer waiting.\<close>

fun turns :: "setting \<Rightarrow> (wait_result \<times> answers) list \<Rightarrow> tracer \<Rightarrow> failure + outcome" where
  "turns cfg [] s = Inr (Again s)"
| "turns cfg ((w, ans) # inputs) s =
     bindR (turn cfg w ans s) (\<lambda>out. case out of
         Again s1 \<Rightarrow> turns cfg inputs s1
       | Return rc s1 \<Rightarrow> Inr (Return rc s1))"

definition StartTracer :: "setting \<Rightarrow> tcontext \<Rightarrow> tracer" where
  "StartTracer cfg c =
     \<lparr>Ctx = c, SyscallState = [Tracee cfg \<mapsto> SYSCALL_UNDEFINED], Suspended = (\<lambda>_. None),
      TraceeExitCode = EXIT_CODE_UNKNOWN, Log = []\<rparr>"

end
