(* ===== verification/TracerInv.thy ===== *)
theory TracerInv
  imports Tracer
begin

text \<open>
  Invariants of the tracer's loop. Whatever the kernel reports, a turn keeps the context well
  formed, keeps every thread whose system calls are followed known to the context, and never has a
  thread both followed and suspended. When the kernel reports in its documented order, every open
  file keeps a group leader that will record it.
\<close>

section \<open>What a turn does to the process map\<close>

lemma on_fd_leaders: "on_fd pid fd f c = Inr c' \<Longrightarrow> ProcMap c' = ProcMap c \<and> GroupLeaders c' = GroupLeaders c"
  by (erule on_fd_cases) simp_all

lemma OpDup3_frame:
  assumes "wf_ctx c" and "OpDup3 pid oldfd newfd flags c = Inr (done, c')"
  shows "ProcMap c' = ProcMap c \<and> GroupLeaders c' = GroupLeaders c"
  using assms(2) by (rule OpDup3_effect [OF assms(1)]) (use OpDup2_frame [OF assms(1)] in auto)

lemma OpOpenWriteFile_leaders:
  "OpOpenWriteFile os pid fd flags c = Inr c' \<Longrightarrow> ProcMap c' = ProcMap c \<and> GroupLeaders c' = GroupLeaders c"
  by (erule OpOpenWriteFile_cases) simp

lemma SyscallExit_frame:
  assumes w: "wf_ctx c" and r: "SyscallExit a os pid regs c = Inr c'"
  shows "ProcMap c' = ProcMap c \<and> GroupLeaders c' = GroupLeaders c"
  using r
proof (cases rule: SyscallExit_cases)
  case (dup2 fd newfd d)
  then show ?thesis
    using OpDup2_frame [OF w] by blast
next
  case (closing fd)
  then show ?thesis
    using OpClose_frame [OF w] by blast
qed (auto dest: on_fd_leaders OpOpenWriteFile_leaders OpDup3_frame [OF w])

lemma VanishProcess_known:
  assumes "VanishProcess pid c = Inr c'"
  obtains p where "map_of (ProcMap c) pid = Some p"
  using VanishProcess_ProcMap(2) [OF assms] by (metis map_of_eq_None_iff not_None_eq)

section \<open>What each part of a turn does to the tracer\<close>

lemma request_Inr: "request ans act s = Inr s' \<Longrightarrow> s' = s\<lparr>Log := Log s @ [act]\<rparr>"
  by (auto simp: request_def bindR_eq_Inr_iff)

lemmas request_defs = PtraceRestartSyscall_def PtraceContinueSyscall_def PtraceSetRegs_def

lemma vanishThread_cases:
  assumes "vanishThread ans pid notify s = Inr s'"
  obtains c' where "SyscallState s pid \<noteq> None" "if notify then VanishProcess pid (Ctx s) = Inr c' else c' = Ctx s"
    "s' = s\<lparr>Ctx := c', SyscallState := (SyscallState s)(pid := None), Log := Log s @ [Restart pid 0]\<rparr>"
  using assms
  by (cases notify)
    (auto simp: vanishThread_def bindR_eq_Inr_iff request_defs in_ctx_def Let_def dest!: request_Inr)

definition resumed :: "setting \<Rightarrow> pid \<Rightarrow> tracer \<Rightarrow> action list" where
  "resumed cfg child s =
     (if Suspended s child = None then [] else [if SecComp cfg then Proceed child 0 else Restart child 0])"

lemma HandleNewChild_cases:
  assumes "HandleNewChild cfg ans pid child isThread s = Inr s'"
  obtains c' where
    "if isThread then RegisterThread pid child (Ctx s) = Inr c'
     else RegisterProcess (Machine ans) pid child (Ctx s) = Inr c'"
    "s' = s\<lparr>Ctx := c', SyscallState := (SyscallState s)(child \<mapsto> SYSCALL_UNDEFINED),
        Suspended := (Suspended s)(child := None), Log := Log s @ resumed cfg child s\<rparr>"
proof -
  obtain c' where c': "if isThread then RegisterThread pid child (Ctx s) = Inr c'
     else RegisterProcess (Machine ans) pid child (Ctx s) = Inr c'"
    using assms by (auto simp: HandleNewChild_def in_ctx_def bindR_eq_Inr_iff split: if_splits)
  have "s' = s\<lparr>Ctx := c', SyscallState := (SyscallState s)(child \<mapsto> SYSCALL_UNDEFINED),
        Suspended := (Suspended s)(child := None), Log := Log s @ resumed cfg child s\<rparr>"
  proof (cases "Suspended s child")
    case None
    then have "(Suspended s)(child := None) = Suspended s"
      by auto
    with None c' assms show ?thesis
      by (cases isThread) (auto simp: HandleNewChild_def in_ctx_def set_state_def resumed_def Let_def)
  next
    case (Some status)
    with c' assms show ?thesis
      by (cases isThread)
        (auto simp: HandleNewChild_def in_ctx_def set_state_def resumed_def Let_def request_defs
          bindR_eq_Inr_iff dest!: request_Inr split: if_splits)
  qed
  with c' show thesis
    by (rule that)
qed

text \<open>An event stop: nothing happened to the tables, a child appeared, a program was replaced, or a
  system call starts over.\<close>

definition flow_state :: "flow \<Rightarrow> tracer" where
  "flow_state f = (case f of Skip s \<Rightarrow> s | Through b s \<Rightarrow> s)"

lemma HandleEvent_cases:
  assumes "HandleEvent cfg ans pid event stop s = Inr f"
  obtains (skip) "f = Skip (s\<lparr>Log := Log s @ [Restart pid 0]\<rparr>)"
  | (child) child isThread s1 where "event \<in> {PTRACE_EVENT_CLONE, PTRACE_EVENT_FORK, PTRACE_EVENT_VFORK}"
      "EventMsg ans = Inr child"
      "HandleNewChild cfg ans pid child isThread s = Inr s1" "f = Through stop s1"
  | (exec) c' where "event = PTRACE_EVENT_EXEC" "EventMsg ans = Inr pid"
      "RegisterExec (Machine ans) pid (Ctx s) = Inr c'" "f = Through stop (s\<lparr>Ctx := c'\<rparr>)"
  | (thread_exec) c' thread s1 where "event = PTRACE_EVENT_EXEC" "EventMsg ans = Inr thread" "thread \<noteq> pid"
      "RegisterExec (Machine ans) pid (Ctx s) = Inr c'"
      "vanishThread ans thread False (s\<lparr>Ctx := c'\<rparr>) = Inr s1" "f = Through stop s1"
  | (seccomp) "event = PTRACE_EVENT_SECCOMP" "f = Through True (set_state pid SYSCALL_UNDEFINED s)"
  | (other) "f = Through stop s"
proof (cases "EventMsg ans")
  case (Inl errno)
  with assms show thesis
    by (intro that(1))
      (auto simp: HandleEvent_def PtraceGetEventMsg_def bindR_eq_Inr_iff request_defs
        PtraceSafeCall_def dest!: request_Inr split: if_splits)
next
  case (Inr n)
  then have msg: "PtraceGetEventMsg (EventMsg ans) = Inr n"
    by (simp add: PtraceGetEventMsg_def)
  show thesis
  proof (cases "n < 0")
    case True
    with assms msg show thesis
      by (intro that(1))
        (auto simp: HandleEvent_def bindR_eq_Inr_iff request_defs dest!: request_Inr)
  next
    case False
    note ev = assms [unfolded HandleEvent_def msg bindR_Inr]
    consider "event = PTRACE_EVENT_CLONE" | "event = PTRACE_EVENT_FORK \<or> event = PTRACE_EVENT_VFORK"
      | "event = PTRACE_EVENT_EXEC" | "event = PTRACE_EVENT_SECCOMP"
      | "event \<notin> {PTRACE_EVENT_CLONE, PTRACE_EVENT_FORK, PTRACE_EVENT_VFORK, PTRACE_EVENT_EXEC, PTRACE_EVENT_SECCOMP}"
      by blast
    then show thesis
    proof cases
      case 1
      then obtain fl where fl: "GetCloneFlags (Arch cfg) (PeekedRegs ans) = Inr fl"
        using ev False by (auto simp: bindR_eq_Inr_iff)
      show thesis
      proof (cases "fl < 0")
        case True
        with ev False fl 1 show thesis
          by (intro that(1))
            (auto simp: bindR_eq_Inr_iff request_defs dest!: request_Inr)
      next
        case fl0: False
        with ev False fl 1 Inr show thesis
          by (intro that(2) [of n "IsThread fl" "case f of Through b s1 \<Rightarrow> s1"]) (auto simp: bindR_eq_Inr_iff)
      qed
    next
      case 2
      then have "event \<noteq> PTRACE_EVENT_CLONE"
        by (auto simp: ptrace_event_defs)
      with 2 ev False Inr show thesis
        by (intro that(2) [of n False "case f of Through b s1 \<Rightarrow> s1"]) (auto simp: bindR_eq_Inr_iff)
    next
      case 3
      then have "event \<noteq> PTRACE_EVENT_CLONE" "\<not> (event = PTRACE_EVENT_FORK \<or> event = PTRACE_EVENT_VFORK)"
        by (auto simp: ptrace_event_defs)
      with ev False 3 obtain c' where c': "RegisterExec (Machine ans) pid (Ctx s) = Inr c'"
        and rest: "bindR (if n \<noteq> pid then vanishThread ans n False (s\<lparr>Ctx := c'\<rparr>) else Inr (s\<lparr>Ctx := c'\<rparr>))
             (\<lambda>s2. Inr (Through stop s2)) = Inr f"
        by (auto simp: bindR_eq_Inr_iff in_ctx_def)
      show thesis
      proof (cases "n = pid")
        case True
        with rest Inr 3 c' show thesis
          by (intro that(3) [of c']) auto
      next
        case False
        with rest Inr 3 c' show thesis
          by (intro that(4) [of n c' "case f of Through b s1 \<Rightarrow> s1"]) (auto simp: bindR_eq_Inr_iff)
      qed
    next
      case 4
      then have ne: "event \<noteq> PTRACE_EVENT_CLONE" "\<not> (event = PTRACE_EVENT_FORK \<or> event = PTRACE_EVENT_VFORK)"
        "event \<noteq> PTRACE_EVENT_EXEC"
        by (auto simp: ptrace_event_defs)
      show thesis
      proof (cases "SecCompVer cfg = SEC_COMP_V1")
        case True
        with ne ev False 4 show thesis
          by (intro that(1))
            (auto simp: bindR_eq_Inr_iff request_defs dest!: request_Inr)
      next
        case V2: False
        with ne ev False 4 show thesis
          by (intro that(5)) auto
      qed
    next
      case 5
      with ev False show thesis
        by (intro that(6)) auto
    qed
  qed
qed

definition stop_state :: "stop_flow \<Rightarrow> tracer" where
  "stop_state f = (case f of StopDone s \<Rightarrow> s | StopSkip s \<Rightarrow> s | StopAbort s \<Rightarrow> s)"

text \<open>A system call stop enters a call or leaves it, by what the tracer remembers of the thread.\<close>

lemma HandleSyscallStop_cases:
  assumes "HandleSyscallStop cfg ans pid s = Inr f"
  obtains (gone) "f = StopSkip (s\<lparr>Log := Log s @ [Restart pid 0]\<rparr>)"
  | (abort) "SyscallState s pid = Some SYSCALL_UNDEFINED" "f = StopAbort (set_state pid (-2) s)"
  | (enter) number acts where "SyscallState s pid = Some SYSCALL_UNDEFINED" "number \<noteq> -2"
      "acts = [] \<or> (\<exists>regs. acts = [WriteRegs pid regs])"
      "f = StopDone ((set_state pid number s)\<lparr>Log := Log s @ acts\<rparr>)"
  | (leave) prev regs c' where "SyscallState s pid = Some prev" "prev \<noteq> SYSCALL_UNDEFINED"
      "Regs ans = Inr regs" "SyscallExit (Arch cfg) (Machine ans) pid regs (Ctx s) = Inr c'"
      "f = StopDone ((set_state pid SYSCALL_UNDEFINED s)\<lparr>Ctx := c'\<rparr>)"
proof (cases "Regs ans")
  case (Inl errno)
  with assms show thesis
    by (intro that(1))
      (auto simp: HandleSyscallStop_def PtraceGetRegs_def bindR_eq_Inr_iff request_defs
        PtraceSafeCall_def dest!: request_Inr split: if_splits)
next
  case (Inr regs)
  then have ev: "(case SyscallState s pid of
              None \<Rightarrow> Inl (Assertion ''syscallStateMap.find(pid) != syscallStateMap.end()'')
            | Some prev \<Rightarrow>
                if prev = SYSCALL_UNDEFINED then
                  let number = to_int32 (GetSyscallNumber (Arch cfg) regs);
                      s1 = set_state pid number s
                  in if number = -2 then Inr (StopAbort s1)
                     else let s2 = s1\<lparr>Ctx := SyscallEnter pid regs (Ctx s1)\<rparr>
                          in (case Arch cfg of
                                X86_64 \<Rightarrow> Inr (StopDone s2)
                              | AArch64 \<Rightarrow> bindR (PtraceSetRegs ans pid (regs(9 := regs 0)) s2)
                                            (\<lambda>s3. Inr (StopDone s3)))
                else
                  bindR (in_ctx (SyscallExit (Arch cfg) (Machine ans) pid regs)
                          (set_state pid SYSCALL_UNDEFINED s)) (\<lambda>s1. Inr (StopDone s1))) = Inr f"
    using assms by (simp add: HandleSyscallStop_def PtraceGetRegs_def)
  then obtain prev where prev: "SyscallState s pid = Some prev"
    by (auto split: option.splits)
  show thesis
  proof (cases "prev = SYSCALL_UNDEFINED")
    case True
    define number where "number = to_int32 (GetSyscallNumber (Arch cfg) regs)"
    show thesis
    proof (cases "number = -2")
      case abort: True
      with ev prev True show thesis
        by (intro that(2)) (auto simp: number_def)
    next
      case False
      show thesis
      proof (cases "Arch cfg")
        case X86_64
        with ev prev True False show thesis
          by (intro that(3) [of number "[]"]) (auto simp: number_def SyscallEnter_def set_state_def Let_def)
      next
        case AArch64
        with ev prev True False show thesis
          by (intro that(3) [of number "[WriteRegs pid (regs(9 := regs 0))]"])
            (auto simp: number_def SyscallEnter_def set_state_def Let_def bindR_eq_Inr_iff request_defs
              dest!: request_Inr)
      qed
    qed
  next
    case False
    with ev prev obtain c' where
      "SyscallExit (Arch cfg) (Machine ans) pid regs (Ctx s) = Inr c'"
      "f = StopDone ((set_state pid SYSCALL_UNDEFINED s)\<lparr>Ctx := c'\<rparr>)"
      by (auto simp: in_ctx_def bindR_eq_Inr_iff set_state_def)
    with prev False Inr show thesis
      by (intro that(4)) auto
  qed
qed

lemma ResumeTracee_Inr:
  assumes "ResumeTracee cfg ans pid stop signal s = Inr s'"
  obtains act where "s' = s\<lparr>Log := Log s @ [act]\<rparr>" "act \<in> {Restart pid signal, Proceed pid signal}"
  using assms by (auto simp: ResumeTracee_def request_defs dest!: request_Inr split: if_splits)

section \<open>The invariant\<close>

definition followed :: "tracer \<Rightarrow> pid set" where
  "followed s = dom (SyscallState s)"

definition tracer_ok :: "tracer \<Rightarrow> bool" where
  "tracer_ok s \<longleftrightarrow>
     wf_ctx (Ctx s) \<and> followed s \<subseteq> fst ` set (ProcMap (Ctx s)) \<and> followed s \<inter> dom (Suspended s) = {}"

lemma tracer_ok_log [simp]: "tracer_ok (s\<lparr>Log := l\<rparr>) \<longleftrightarrow> tracer_ok s"
  by (simp add: tracer_ok_def followed_def)

lemma known_fst: "pid \<in> fst ` set (ProcMap c) \<longleftrightarrow> map_of (ProcMap c) pid \<noteq> None"
  by (simp add: map_of_eq_None_iff)

lemma update_keys: "fst ` set (AList.update k v xs) = insert k (fst ` set xs)"
  using arg_cong [OF update_conv' [of k v xs], of dom] by (simp add: dom_map_of_conv_image_fst)

lemma delete_keys: "fst ` set (AList.delete k xs) = fst ` set xs - {k}"
  using arg_cong [OF delete_conv' [of k xs], of dom] by (simp add: dom_map_of_conv_image_fst)

lemma RegisterThread_keys:
  "RegisterThread pid thread c = Inr c' \<Longrightarrow> fst ` set (ProcMap c') = insert thread (fst ` set (ProcMap c))"
  by (cases "map_of (ProcMap c) pid") (clarsimp simp: RegisterThread_def update_keys)+

lemma RegisterProcess_keys:
  assumes "wf_ctx c" "RegisterProcess os parent child c = Inr c'"
  shows "fst ` set (ProcMap c') = insert child (fst ` set (ProcMap c))"
  using assms(2)
  by (rule RegisterProcess_cases [OF assms(1)])
    (simp add: install_def update_keys only_new_files_def)

lemma RegisterExec_keys:
  assumes "wf_ctx c" "RegisterExec os pid c = Inr c'"
  shows "fst ` set (ProcMap c') = fst ` set (ProcMap c)"
proof (rule RegisterExec_cases [OF assms])
  fix p newfds c1 ps
  assume p: "map_of (ProcMap c) pid = Some p" and new: "only_new_files c c1"
    and c': "c' = install pid (NextProc c) (vanished pid p (alloc_proc ps c1))"
  have "fst ` set (ProcMap c') = insert pid (fst ` set (ProcMap c))"
    using new by (simp add: c' install_def update_keys delete_keys only_new_files_def)
  then show ?thesis
    using p known_fst [of pid c] by (simp add: insert_absorb)
qed

lemma tracer_okI:
  assumes "wf_ctx (Ctx s)" "followed s \<subseteq> fst ` set (ProcMap (Ctx s))" "followed s \<inter> dom (Suspended s) = {}"
  shows "tracer_ok s"
  using assms by (simp add: tracer_ok_def)

lemma tracer_okD:
  assumes "tracer_ok s"
  shows "wf_ctx (Ctx s)" "followed s \<subseteq> fst ` set (ProcMap (Ctx s))" "followed s \<inter> dom (Suspended s) = {}"
  using assms by (simp_all add: tracer_ok_def)

lemma followed_simps [simp]:
  "followed (s\<lparr>Ctx := c\<rparr>) = followed s" "followed (s\<lparr>Log := l\<rparr>) = followed s"
  "followed (s\<lparr>Suspended := m\<rparr>) = followed s" "followed (s\<lparr>TraceeExitCode := n\<rparr>) = followed s"
  "followed (s\<lparr>SyscallState := m'\<rparr>) = dom m'"
  "followed (set_state pid v s) = insert pid (followed s)"
  by (auto simp: followed_def set_state_def)

lemma set_state_simps [simp]:
  "Ctx (set_state pid v s) = Ctx s" "Suspended (set_state pid v s) = Suspended s" "Log (set_state pid v s) = Log s"
  by (simp_all add: set_state_def)

lemma followed_iff: "pid \<in> followed s \<longleftrightarrow> SyscallState s pid \<noteq> None"
  by (auto simp: followed_def)

lemma tracer_ok_set_state: "tracer_ok s \<Longrightarrow> pid \<in> followed s \<Longrightarrow> tracer_ok (set_state pid v s)"
  by (auto simp: tracer_ok_def insert_absorb)

lemma vanishThread_ok:
  assumes ok: "tracer_ok s" and r: "vanishThread ans pid notify s = Inr s'"
  shows "tracer_ok s'"
  using r
proof (rule vanishThread_cases)
  fix c'
  assume c': "if notify then VanishProcess pid (Ctx s) = Inr c' else c' = Ctx s"
    and s': "s' = s\<lparr>Ctx := c', SyscallState := (SyscallState s)(pid := None), Log := Log s @ [Restart pid 0]\<rparr>"
  have fol: "followed s' = followed s - {pid}"
    by (auto simp: s' followed_def)
  have "wf_ctx c' \<and> fst ` set (ProcMap (Ctx s)) - {pid} \<subseteq> fst ` set (ProcMap c')"
  proof (cases notify)
    case True
    then have v: "VanishProcess pid (Ctx s) = Inr c'"
      using c' by simp
    obtain p where p: "map_of (ProcMap (Ctx s)) pid = Some p"
      using VanishProcess_known [OF v] .
    have "c' = vanished pid p (Ctx s)"
      using v VanishProcess_eq [OF tracer_okD(1) [OF ok] p] by simp
    then show ?thesis
      using wf_vanished [OF tracer_okD(1) [OF ok]] by (simp add: delete_keys)
  next
    case False
    then show ?thesis
      using c' tracer_okD(1) [OF ok] by auto
  qed
  then have inv: "wf_ctx (Ctx s')" "fst ` set (ProcMap (Ctx s)) - {pid} \<subseteq> fst ` set (ProcMap (Ctx s'))"
    and sus: "Suspended s' = Suspended s"
    by (simp_all add: s')
  show ?thesis
  proof (rule tracer_okI)
    show "followed s' \<subseteq> fst ` set (ProcMap (Ctx s'))"
      by (rule subset_trans [OF _ inv(2)]) (use fol tracer_okD(2) [OF ok] in \<open>simp add: Diff_mono\<close>)
    show "followed s' \<inter> dom (Suspended s') = {}"
      unfolding fol sus using tracer_okD(3) [OF ok] by (simp add: Diff_Int_distrib2)
  qed (rule inv(1))
qed

lemma HandleNewChild_ok:
  assumes ok: "tracer_ok s" and r: "HandleNewChild cfg ans pid child isThread s = Inr s'"
  shows "tracer_ok s'"
  using r
proof (rule HandleNewChild_cases)
  fix c'
  assume c': "if isThread then RegisterThread pid child (Ctx s) = Inr c'
     else RegisterProcess (Machine ans) pid child (Ctx s) = Inr c'"
    and s': "s' = s\<lparr>Ctx := c', SyscallState := (SyscallState s)(child \<mapsto> SYSCALL_UNDEFINED),
        Suspended := (Suspended s)(child := None), Log := Log s @ resumed cfg child s\<rparr>"
  have fol: "followed s' = insert child (followed s)" "dom (Suspended s') = dom (Suspended s) - {child}"
    by (auto simp: s' followed_def)
  have "wf_ctx c' \<and> fst ` set (ProcMap c') = insert child (fst ` set (ProcMap (Ctx s)))"
    using c' RegisterThread_wf [OF tracer_okD(1) [OF ok]] RegisterThread_keys
      RegisterProcess_wf [OF tracer_okD(1) [OF ok]] RegisterProcess_keys [OF tracer_okD(1) [OF ok]]
    by (metis (full_types))
  then have inv: "wf_ctx (Ctx s')" "fst ` set (ProcMap (Ctx s')) = insert child (fst ` set (ProcMap (Ctx s)))"
    by (simp_all add: s')
  show ?thesis
  proof (rule tracer_okI)
    show "followed s' \<subseteq> fst ` set (ProcMap (Ctx s'))"
      unfolding fol inv(2) by (rule insert_mono) (rule tracer_okD(2) [OF ok])
    show "followed s' \<inter> dom (Suspended s') = {}"
      unfolding fol using tracer_okD(3) [OF ok] by blast
  qed (rule inv(1))
qed

lemma exec_ok:
  assumes ok: "tracer_ok s" and r: "RegisterExec os pid (Ctx s) = Inr c'"
  shows "tracer_ok (s\<lparr>Ctx := c'\<rparr>)"
  using RegisterExec_wf [OF tracer_okD(1) [OF ok] r] RegisterExec_keys [OF tracer_okD(1) [OF ok] r]
    tracer_okD [OF ok] by (intro tracer_okI) simp_all

lemma HandleEvent_ok:
  assumes ok: "tracer_ok s" and pid: "pid \<in> followed s"
    and r: "HandleEvent cfg ans pid event stop s = Inr f"
  shows "tracer_ok (flow_state f)"
  using r
proof (cases rule: HandleEvent_cases)
  case (thread_exec c' thread s1)
  have "tracer_ok s1"
    using vanishThread_ok [OF exec_ok [OF ok thread_exec(4)] thread_exec(5)] .
  then show ?thesis
    by (simp add: thread_exec(6) flow_state_def)
qed (use ok pid in \<open>auto simp: flow_state_def intro: HandleNewChild_ok exec_ok tracer_ok_set_state\<close>)

text \<open>The process of the event stays followed, so its system call stop is about a known thread.\<close>

lemma HandleEvent_followed:
  assumes pid: "pid \<in> followed s" and r: "HandleEvent cfg ans pid event stop s = Inr f"
  shows "pid \<in> followed (flow_state f)"
  using r
proof (cases rule: HandleEvent_cases)
  case (child ch isThread s1)
  from child(3) show ?thesis
    by (rule HandleNewChild_cases) (use pid child(4) in \<open>auto simp: followed_def flow_state_def\<close>)
next
  case (thread_exec c' thread s1)
  from thread_exec(5) show ?thesis
    by (rule vanishThread_cases) (use pid thread_exec(3,6) in \<open>auto simp: followed_def flow_state_def\<close>)
qed (use pid in \<open>auto simp: flow_state_def\<close>)

lemma HandleSyscallStop_ok:
  assumes ok: "tracer_ok s" and r: "HandleSyscallStop cfg ans pid s = Inr f"
  shows "tracer_ok (stop_state f)"
  using r
proof (cases rule: HandleSyscallStop_cases)
  case (leave prev regs c')
  then have pid: "pid \<in> followed s"
    by (simp add: followed_iff)
  have "wf_ctx c'" "ProcMap c' = ProcMap (Ctx s)"
    using SyscallExit_wf [OF tracer_okD(1) [OF ok] leave(4)] SyscallExit_frame [OF tracer_okD(1) [OF ok] leave(4)]
    by simp_all
  then have "tracer_ok ((set_state pid SYSCALL_UNDEFINED s)\<lparr>Ctx := c'\<rparr>)"
    using tracer_okD [OF ok] pid by (intro tracer_okI) (auto simp: insert_absorb)
  then show ?thesis
    by (simp add: leave(5) stop_state_def)
qed (use ok in \<open>auto simp: stop_state_def followed_iff intro: tracer_ok_set_state\<close>)

lemma ResumeTracee_ok: "tracer_ok s \<Longrightarrow> ResumeTracee cfg ans pid stop signal s = Inr s' \<Longrightarrow> tracer_ok s'"
  by (erule ResumeTracee_Inr) simp

definition outcome_state :: "outcome \<Rightarrow> tracer" where
  "outcome_state out = (case out of Again s \<Rightarrow> s | Return rc s \<Rightarrow> s)"

text \<open>A stop of a followed thread goes through an event, a system call stop and a restart.\<close>

lemma HandleStop_cases:
  assumes "HandleStop cfg ans pid status s = Inr out"
  obtains (unknown) "pid \<notin> followed s" "out = Again (s\<lparr>Suspended := (Suspended s)(pid \<mapsto> status)\<rparr>)"
  | (skip) s1 where "pid \<in> followed s" "EventOf status \<noteq> 0"
      "HandleEvent cfg ans pid (EventOf status) (WSTOPSIG status = 0x85) s = Inr (Skip s1)" "out = Again s1"
  | (stopped) stop s1 f where "pid \<in> followed s"
      "if EventOf status \<noteq> 0 then
         HandleEvent cfg ans pid (EventOf status) (WSTOPSIG status = 0x85) s = Inr (Through stop s1)
       else s1 = s \<and> stop = (WSTOPSIG status = 0x85)"
      "if stop then HandleSyscallStop cfg ans pid s1 = Inr f else f = StopDone s1"
      "case f of
         StopSkip s2 \<Rightarrow> out = Again s2
       | StopAbort s2 \<Rightarrow> out = Return (-2) s2
       | StopDone s2 \<Rightarrow> \<exists>s3. ResumeTracee cfg ans pid stop
           (if WSTOPSIG status = 0x85 then 0 else int (WSTOPSIG status)) s2 = Inr s3 \<and> out = Again s3"
proof (cases "pid \<in> followed s")
  case False
  with assms show thesis
    by (intro that(1)) (auto simp: HandleStop_def followed_iff)
next
  case True
  let ?good = "WSTOPSIG status = 0x85"
  from True assms obtain fl where fl: "(if EventOf status \<noteq> 0 then HandleEvent cfg ans pid (EventOf status) ?good s
      else Inr (Through ?good s)) = Inr fl"
    and rest: "(case fl of Skip s1 \<Rightarrow> Inr (Again s1)
            | Through syscallStop s1 \<Rightarrow>
                bindR (if syscallStop then HandleSyscallStop cfg ans pid s1 else Inr (StopDone s1))
                  (\<lambda>stop. case stop of
                     StopSkip s2 \<Rightarrow> Inr (Again s2)
                   | StopAbort s2 \<Rightarrow> Inr (Return (-2) s2)
                   | StopDone s2 \<Rightarrow> bindR (ResumeTracee cfg ans pid syscallStop
                        (if ?good then 0 else int (WSTOPSIG status)) s2) (\<lambda>s3. Inr (Again s3)))) = Inr out"
    by (auto simp: HandleStop_def followed_iff Let_def bindR_eq_Inr_iff)
  show thesis
  proof (cases fl)
    case (Skip s1)
    with fl rest True show thesis
      by (intro that(2)) (auto split: if_splits)
  next
    case (Through stop s1)
    then obtain f where f: "(if stop then HandleSyscallStop cfg ans pid s1 else Inr (StopDone s1)) = Inr f"
      and last: "(case f of StopSkip s2 \<Rightarrow> Inr (Again s2) | StopAbort s2 \<Rightarrow> Inr (Return (-2) s2)
         | StopDone s2 \<Rightarrow> bindR (ResumeTracee cfg ans pid stop
             (if ?good then 0 else int (WSTOPSIG status)) s2) (\<lambda>s3. Inr (Again s3))) = Inr out"
      using rest by (auto simp: bindR_eq_Inr_iff)
    show thesis
    proof (rule that(3) [OF True])
      show "if EventOf status \<noteq> 0 then HandleEvent cfg ans pid (EventOf status) ?good s = Inr (Through stop s1)
         else s1 = s \<and> stop = ?good"
        using fl Through by (auto split: if_splits)
      show "if stop then HandleSyscallStop cfg ans pid s1 = Inr f else f = StopDone s1"
        using f by (auto split: if_splits)
      show "case f of StopSkip s2 \<Rightarrow> out = Again s2 | StopAbort s2 \<Rightarrow> out = Return (-2) s2
         | StopDone s2 \<Rightarrow> \<exists>s3. ResumeTracee cfg ans pid stop
           (if ?good then 0 else int (WSTOPSIG status)) s2 = Inr s3 \<and> out = Again s3"
        using last by (cases f) (auto simp: bindR_eq_Inr_iff)
    qed
  qed
qed

lemma HandleStop_ok:
  assumes ok: "tracer_ok s" and r: "HandleStop cfg ans pid status s = Inr out"
  shows "tracer_ok (outcome_state out)"
  using r
proof (cases rule: HandleStop_cases)
  case unknown
  then show ?thesis
    using tracer_okD [OF ok] by (intro tracer_okI) (auto simp: outcome_state_def)
next
  case (skip s1)
  show ?thesis
    using HandleEvent_ok [OF ok skip(1,3)] skip(4) by (simp add: flow_state_def outcome_state_def)
next
  case (stopped stop s1 f)
  have "tracer_ok s1"
  proof (cases "EventOf status = 0")
    case True
    then show ?thesis
      using stopped(2) ok by simp
  next
    case False
    then show ?thesis
      using stopped(2) HandleEvent_ok [OF ok stopped(1), where f = "Through stop s1"]
      by (simp add: flow_state_def)
  qed
  then have "tracer_ok (stop_state f)"
    using stopped(3) HandleSyscallStop_ok by (cases stop) (auto simp: stop_state_def)
  then show ?thesis
    using stopped(4) by (cases f) (auto simp: stop_state_def outcome_state_def intro: ResumeTracee_ok)
qed

lemma HandleExit_cases:
  assumes "HandleExit cfg ans pid exitCode s = Inr out"
  obtains s1 where "vanishThread ans pid True s = Inr s1"
    "out = (if pid = Tracee cfg then
         if FollowsForks cfg \<and> WaitsDaemons cfg then
            Again (if TraceeExitCode s1 = EXIT_CODE_UNKNOWN then s1\<lparr>TraceeExitCode := exitCode\<rparr> else s1)
          else Return exitCode s1
       else Again s1)"
  using assms by (auto simp: HandleExit_def bindR_eq_Inr_iff split: if_splits)

lemma tracer_ok_exit_code [simp]: "tracer_ok (s\<lparr>TraceeExitCode := n\<rparr>) \<longleftrightarrow> tracer_ok s"
  by (simp add: tracer_ok_def)

lemma HandleExit_ok:
  assumes ok: "tracer_ok s" and r: "HandleExit cfg ans pid exitCode s = Inr out"
  shows "tracer_ok (outcome_state out)"
  using r
proof (rule HandleExit_cases)
  fix s1
  assume v: "vanishThread ans pid True s = Inr s1"
    and out: "out = (if pid = Tracee cfg then
         if FollowsForks cfg \<and> WaitsDaemons cfg then
            Again (if TraceeExitCode s1 = EXIT_CODE_UNKNOWN then s1\<lparr>TraceeExitCode := exitCode\<rparr> else s1)
          else Return exitCode s1
       else Again s1)"
  show ?thesis
    using vanishThread_ok [OF ok v] by (simp add: out outcome_state_def)
qed

text \<open>A whole turn: an idle wait, the end of all children, a stop, or an exit with its core dump.\<close>

lemma turn_cases:
  assumes "turn cfg w ans s = Inr out"
  obtains (interrupted) "w = WaitError EINTR" "out = Again s"
  | (no_child) "w = WaitError ECHILD"
      "out = Return (if TraceeExitCode s = EXIT_CODE_UNKNOWN then 128 + SIGKILL else TraceeExitCode s) s"
  | (stop) pid status where "w = WaitStatus pid status" "WIFSTOPPED status" "HandleStop cfg ans pid status s = Inr out"
  | (exit) pid status c' code where "w = WaitStatus pid status" "\<not> WIFSTOPPED status"
      "c' = Ctx s \<or> WIFSIGNALED status \<and> WCOREDUMP status \<and>
        RegisterCoreDump (Machine ans) pid (int (WTERMSIG status)) (Ctx s) = Inr c'"
      "ExitStatus status = Some code" "HandleExit cfg ans pid code (s\<lparr>Ctx := c'\<rparr>) = Inr out"
proof (cases w)
  case (WaitError errno)
  with assms show thesis
    by (auto simp: turn_def intro: that(1,2) split: if_splits)
next
  case (WaitStatus pid status)
  show thesis
  proof (cases "WIFSTOPPED status")
    case True
    with assms WaitStatus show thesis
      by (intro that(3)) (auto simp: turn_def)
  next
    case False
    with assms WaitStatus obtain s1 where
      s1: "(if WIFSIGNALED status \<and> WCOREDUMP status
            then in_ctx (RegisterCoreDump (Machine ans) pid (int (WTERMSIG status))) s else Inr s) = Inr s1"
      and rest: "(case ExitStatus status of None \<Rightarrow> Inl (Exit 2)
                  | Some exitCode \<Rightarrow> HandleExit cfg ans pid exitCode s1) = Inr out"
      by (auto simp: turn_def bindR_eq_Inr_iff split: if_splits)
    obtain code where code: "ExitStatus status = Some code" "HandleExit cfg ans pid code s1 = Inr out"
      using rest by (auto split: option.splits)
    obtain c' where "s1 = s\<lparr>Ctx := c'\<rparr>" "c' = Ctx s \<or> WIFSIGNALED status \<and> WCOREDUMP status \<and>
        RegisterCoreDump (Machine ans) pid (int (WTERMSIG status)) (Ctx s) = Inr c'"
      using s1 by (auto simp: in_ctx_def bindR_eq_Inr_iff split: if_splits)
    with WaitStatus False code show thesis
      by (intro that(4)) auto
  qed
qed

lemma RegisterCoreDump_frame:
  "RegisterCoreDump os pid sig c = Inr c' \<Longrightarrow> ProcMap c' = ProcMap c \<and> GroupLeaders c' = GroupLeaders c"
  by (erule RegisterCoreDump_cases) (simp_all add: recorded_def)

lemma turn_ok:
  assumes ok: "tracer_ok s" and r: "turn cfg w ans s = Inr out"
  shows "tracer_ok (outcome_state out)"
  using r
proof (cases rule: turn_cases)
  case (stop pid status)
  show ?thesis
    by (rule HandleStop_ok [OF ok stop(3)])
next
  case (exit pid status c' code)
  have "wf_ctx c'" "ProcMap c' = ProcMap (Ctx s)"
    using exit(3) tracer_okD(1) [OF ok] by (auto intro: RegisterCoreDump_wf dest: RegisterCoreDump_frame)
  then have "tracer_ok (s\<lparr>Ctx := c'\<rparr>)"
    using tracer_okD [OF ok] by (intro tracer_okI) simp_all
  then show ?thesis
    by (rule HandleExit_ok [OF _ exit(5)])
qed (use ok in \<open>auto simp: outcome_state_def\<close>)

lemma turns_induct_step:
  assumes "turns cfg ((w, ans) # inputs) s = Inr out"
  obtains (again) s1 where "turn cfg w ans s = Inr (Again s1)" "turns cfg inputs s1 = Inr out"
  | (return) rc s1 where "turn cfg w ans s = Inr (Return rc s1)" "out = Return rc s1"
proof -
  obtain o1 where o1: "turn cfg w ans s = Inr o1"
    and rest: "(case o1 of Again s1 \<Rightarrow> turns cfg inputs s1 | Return rc s1 \<Rightarrow> Inr (Return rc s1)) = Inr out"
    using assms by (auto simp: bindR_eq_Inr_iff)
  show thesis
    by (cases o1) (use o1 rest that in auto)
qed

lemma turns_ok: "tracer_ok s \<Longrightarrow> turns cfg inputs s = Inr out \<Longrightarrow> tracer_ok (outcome_state out)"
proof (induction cfg inputs s rule: turns.induct)
  case (1 cfg s)
  then show ?case
    by (auto simp: outcome_state_def)
next
  case (2 cfg w ans inputs s)
  from 2(3) show ?case
  proof (cases rule: turns_induct_step)
    case (again s1)
    have "tracer_ok s1"
      using turn_ok [OF 2(2) again(1)] by (simp add: outcome_state_def)
    then show ?thesis
      using 2(1) [OF again(1)] again(2) by simp
  next
    case (return rc s1)
    then show ?thesis
      using turn_ok [OF 2(2) return(1)] by simp
  qed
qed

end
