(* ===== verification/TracerRun.thy ===== *)
theory TracerRun
  imports TracerInv
begin

text \<open>
  Two more facts about the loop: every stop of a followed thread is answered by exactly one restart,
  and, when the kernel reports in its documented order, whoever can still open a file has a group
  leader to record it, so that the final report misses nothing.
\<close>

section \<open>Restarts\<close>

definition resume_of :: "action \<Rightarrow> pid option" where
  "resume_of act = (case act of Restart pid _ \<Rightarrow> Some pid | Proceed pid _ \<Rightarrow> Some pid | WriteRegs _ _ \<Rightarrow> None)"

definition resumptions :: "pid \<Rightarrow> tracer \<Rightarrow> nat" where
  "resumptions pid s = length (filter (\<lambda>act. resume_of act = Some pid) (Log s))"

lemma resumptions_simps [simp]:
  "resumptions pid (s\<lparr>Log := Log s @ acts\<rparr>) =
    resumptions pid s + length (filter (\<lambda>act. resume_of act = Some pid) acts)"
  "resumptions pid (s\<lparr>Ctx := c\<rparr>) = resumptions pid s"
  "resumptions pid (set_state q v s) = resumptions pid s"
  by (simp_all add: resumptions_def)

lemma resume_of_simps [simp]:
  "resume_of (Restart pid n) = Some pid" "resume_of (Proceed pid n) = Some pid" "resume_of (WriteRegs pid regs) = None"
  by (simp_all add: resume_of_def)

lemma HandleNewChild_resumes:
  assumes "HandleNewChild cfg ans pid child isThread s = Inr s'"
  shows "resumptions q s' = resumptions q s + (if q = child \<and> Suspended s child \<noteq> None then 1 else 0)"
    and "Suspended s' child = None" "SyscallState s' child = Some SYSCALL_UNDEFINED"
  using assms by (auto elim!: HandleNewChild_cases simp: resumed_def resumptions_def)

lemma HandleEvent_resumes:
  assumes ok: "tracer_ok s" and pid: "pid \<in> followed s"
    and r: "HandleEvent cfg ans pid event stop s = Inr f"
  shows "resumptions pid (flow_state f) = resumptions pid s + (case f of Skip _ \<Rightarrow> 1 | Through _ _ \<Rightarrow> 0)"
  using r
proof (cases rule: HandleEvent_cases)
  case (child ch isThread s1)
  have "Suspended s pid = None"
    using tracer_okD(3) [OF ok] pid by blast
  then show ?thesis
    using HandleNewChild_resumes(1) [OF child(3), of pid] by (auto simp: child(4) flow_state_def)
next
  case (thread_exec c' thread s1)
  from thread_exec(5) have "resumptions pid s1 = resumptions pid s"
    by (rule vanishThread_cases) (use thread_exec(3) in \<open>simp add: resumptions_def\<close>)
  then show ?thesis
    by (simp add: thread_exec(6) flow_state_def)
qed (simp_all add: flow_state_def)

lemma HandleSyscallStop_resumes:
  assumes "HandleSyscallStop cfg ans pid s = Inr f"
  shows "resumptions pid (stop_state f) = resumptions pid s + (case f of StopSkip _ \<Rightarrow> 1 | _ \<Rightarrow> 0)"
  using assms
proof (cases rule: HandleSyscallStop_cases)
  case (enter number acts)
  have "filter (\<lambda>act. resume_of act = Some pid) acts = []"
    using enter(3) by auto
  then show ?thesis
    by (simp add: enter(4) stop_state_def resumptions_def)
qed (simp_all add: stop_state_def)

lemma HandleStop_resumes:
  assumes ok: "tracer_ok s" and pid: "pid \<in> followed s"
    and r: "HandleStop cfg ans pid status s = Inr (Again s')"
  shows "resumptions pid s' = Suc (resumptions pid s)"
  using r
proof (cases rule: HandleStop_cases)
  case (skip s1)
  then show ?thesis
    using HandleEvent_resumes [OF ok pid skip(3)] by (simp add: flow_state_def)
next
  case (stopped stop s1 f)
  have s1: "resumptions pid s1 = resumptions pid s"
    using stopped(2) HandleEvent_resumes [OF ok pid, where f = "Through stop s1"]
    by (cases "EventOf status = 0") (auto simp: flow_state_def)
  have f: "resumptions pid (stop_state f) = resumptions pid s + (case f of StopSkip _ \<Rightarrow> 1 | _ \<Rightarrow> 0)"
    using stopped(3) HandleSyscallStop_resumes [of cfg ans pid s1 f] s1
    by (cases stop) (auto simp: stop_state_def)
  show ?thesis
  proof (cases f)
    case (StopDone s2)
    then obtain s3 where "ResumeTracee cfg ans pid stop (if WSTOPSIG status = 0x85 then 0 else int (WSTOPSIG status)) s2
        = Inr s3" "s' = s3"
      using stopped(4) by auto
    then show ?thesis
      using f StopDone by (auto simp: stop_state_def elim!: ResumeTracee_Inr)
  qed (use stopped(4) f in \<open>auto simp: stop_state_def\<close>)
qed (use pid in simp)

section \<open>Leaders\<close>

text \<open>Every followed thread shares its table with a group leader.\<close>

definition followed_led :: "tracer \<Rightarrow> bool" where
  "followed_led s \<longleftrightarrow> led (Ctx s) \<and>
     (\<forall>pid\<in>followed s. \<forall>p. map_of (ProcMap (Ctx s)) pid = Some p \<longrightarrow> has_leader (Ctx s) p)"

text \<open>Only threads of \<open>K\<close> are followed and share the table of \<open>pid\<close>.\<close>

definition only_threads :: "tracer \<Rightarrow> pid \<Rightarrow> pid set \<Rightarrow> bool" where
  "only_threads s pid K \<longleftrightarrow>
     (\<forall>q\<in>followed s. map_of (ProcMap (Ctx s)) q = map_of (ProcMap (Ctx s)) pid \<longrightarrow> q \<in> K)"

text \<open>
  The order in which Linux reports, as \<^verbatim>\<open>ptrace(2)\<close> documents it: a new child's id is not in use, the
  exit of a group leader comes after the exits of its other threads, and an \<^verbatim>\<open>execve\<close> is reported when
  the other threads are gone, but for the calling one, whose old id the event carries.
\<close>

definition orderly :: "tracer \<Rightarrow> wait_result \<Rightarrow> answers \<Rightarrow> bool" where
  "orderly s w ans = (case w of
       WaitError _ \<Rightarrow> True
     | WaitStatus pid status \<Rightarrow>
         if WIFSTOPPED status then
           (case EventMsg ans of
              Inl _ \<Rightarrow> True
            | Inr n \<Rightarrow>
                (EventOf status \<in> {PTRACE_EVENT_CLONE, PTRACE_EVENT_FORK, PTRACE_EVENT_VFORK} \<longrightarrow>
                   map_of (ProcMap (Ctx s)) n = None) \<and>
                (EventOf status = PTRACE_EVENT_EXEC \<longrightarrow> only_threads s pid {pid, n}))
         else pid \<in> GroupLeaders (Ctx s) \<longrightarrow> only_threads s pid {pid})"

lemma followed_ledI:
  assumes "led (Ctx s)"
    and "\<And>pid p. pid \<in> followed s \<Longrightarrow> map_of (ProcMap (Ctx s)) pid = Some p \<Longrightarrow> has_leader (Ctx s) p"
  shows "followed_led s"
  using assms by (simp add: followed_led_def)

lemma followed_ledD:
  assumes "followed_led s"
  shows "led (Ctx s)"
    and "pid \<in> followed s \<Longrightarrow> map_of (ProcMap (Ctx s)) pid = Some p \<Longrightarrow> has_leader (Ctx s) p"
  using assms by (simp_all add: followed_led_def)

text \<open>Only the context and the followed threads matter.\<close>

lemma followed_led_cong:
  assumes "followed_led s" "Ctx s' = Ctx s" "followed s' \<subseteq> followed s"
  shows "followed_led s'"
  using assms by (auto simp: followed_led_def)

lemma has_leader_frame:
  assumes "ProcMap c' = ProcMap c" "GroupLeaders c' = GroupLeaders c"
  shows "has_leader c' p = has_leader c p"
  using assms by (simp add: has_leader_def)

lemma has_leader_kept:
  assumes "has_leader c p" and "\<And>l. l \<in> GroupLeaders c \<Longrightarrow> map_of (ProcMap c) l = Some p \<Longrightarrow>
    l \<in> GroupLeaders c' \<and> map_of (ProcMap c') l = Some p"
  shows "has_leader c' p"
  using assms by (auto simp: has_leader_def)

lemma vanish_led:
  assumes ok: "tracer_ok s" and l: "followed_led s"
    and only: "pid \<in> GroupLeaders (Ctx s) \<Longrightarrow> only_threads s pid {pid}"
    and r: "vanishThread ans pid True s = Inr s'"
  shows "followed_led s'"
  using r
proof (rule vanishThread_cases)
  fix c'
  assume "if True then VanishProcess pid (Ctx s) = Inr c' else c' = Ctx s"
    and s': "s' = s\<lparr>Ctx := c', SyscallState := (SyscallState s)(pid := None), Log := Log s @ [Restart pid 0]\<rparr>"
  then have v: "VanishProcess pid (Ctx s) = Inr c'"
    by simp
  note w = tracer_okD(1) [OF ok]
  obtain p where p: "map_of (ProcMap (Ctx s)) pid = Some p"
    using VanishProcess_known [OF v] .
  have c': "c' = vanished pid p (Ctx s)"
    using v VanishProcess_eq [OF w p] by simp
  have fol: "followed s' = followed s - {pid}" and ctx: "Ctx s' = c'"
    by (auto simp: s' followed_def)
  show ?thesis
  proof (rule followed_ledI)
    show "led (Ctx s')"
      unfolding ctx c' by (rule led_vanished [OF w followed_ledD(1) [OF l] p])
    fix q t
    assume q: "q \<in> followed s'" and t: "map_of (ProcMap (Ctx s')) q = Some t"
    then have q': "q \<in> followed s" "q \<noteq> pid"
      by (simp_all add: fol)
    then have t': "map_of (ProcMap (Ctx s)) q = Some t"
      using t by (simp add: ctx c' delete_conv')
    have other: "p \<noteq> t" if "pid \<in> GroupLeaders (Ctx s)"
      using only [OF that] q' t' p by (auto simp: only_threads_def)
    show "has_leader (Ctx s') t"
    proof (rule has_leader_kept [OF followed_ledD(2) [OF l q'(1) t']])
      fix k
      assume k: "k \<in> GroupLeaders (Ctx s)" "map_of (ProcMap (Ctx s)) k = Some t"
      then have "k \<noteq> pid"
        using other p by auto
      then show "k \<in> GroupLeaders (Ctx s') \<and> map_of (ProcMap (Ctx s')) k = Some t"
        using k by (simp add: ctx c' delete_conv')
    qed
  qed
qed

lemma child_led:
  assumes ok: "tracer_ok s" and l: "followed_led s" and pid: "pid \<in> followed s"
    and fresh: "map_of (ProcMap (Ctx s)) child = None"
    and r: "HandleNewChild cfg ans pid child isThread s = Inr s'"
  shows "followed_led s'"
  using r
proof (rule HandleNewChild_cases)
  fix c'
  assume c': "if isThread then RegisterThread pid child (Ctx s) = Inr c'
     else RegisterProcess (Machine ans) pid child (Ctx s) = Inr c'"
    and s': "s' = s\<lparr>Ctx := c', SyscallState := (SyscallState s)(child \<mapsto> SYSCALL_UNDEFINED),
        Suspended := (Suspended s)(child := None), Log := Log s @ resumed cfg child s\<rparr>"
  note w = tracer_okD(1) [OF ok]
  have fol: "followed s' = insert child (followed s)" and ctx: "Ctx s' = c'"
    by (auto simp: s' followed_def)
  have lead: "GroupLeaders (Ctx s) \<subseteq> GroupLeaders c'" "led c'"
    "\<And>q. q \<noteq> child \<Longrightarrow> map_of (ProcMap c') q = map_of (ProcMap (Ctx s)) q"
    "\<And>t. map_of (ProcMap c') child = Some t \<Longrightarrow> has_leader c' t"
  proof -
    have "GroupLeaders (Ctx s) \<subseteq> GroupLeaders c' \<and> led c' \<and>
      (\<forall>q. q \<noteq> child \<longrightarrow> map_of (ProcMap c') q = map_of (ProcMap (Ctx s)) q) \<and>
      (\<forall>t. map_of (ProcMap c') child = Some t \<longrightarrow> has_leader c' t)"
    proof (cases isThread)
      case True
      then have r: "RegisterThread pid child (Ctx s) = Inr c'"
        using c' by simp
      then obtain p where p: "map_of (ProcMap (Ctx s)) pid = Some p"
        and eq: "c' = Ctx s\<lparr>ProcMap := AList.update child p (ProcMap (Ctx s))\<rparr>"
        by (auto simp: RegisterThread_def split: option.splits)
      have "has_leader c' p"
        by (rule has_leader_kept [OF followed_ledD(2) [OF l pid p]]) (use fresh in \<open>auto simp: eq update_conv'\<close>)
      then show ?thesis
        using RegisterThread_led [OF w followed_ledD(1) [OF l] r fresh] by (simp add: eq update_conv')
    next
      case False
      then have r: "RegisterProcess (Machine ans) pid child (Ctx s) = Inr c'"
        using c' by simp
      then show ?thesis
      proof (rule RegisterProcess_cases [OF w])
        fix p newfds c1
        assume new: "only_new_files (Ctx s) c1" and eq: "c' = install child (NextProc (Ctx s))
          (alloc_proc ((NewProcState (Machine ans) (Ctx s) child pid)\<lparr>Fds := newfds\<rparr>) c1)"
        have "GroupLeaders c' = insert child (GroupLeaders (Ctx s))"
          "\<And>q. map_of (ProcMap c') q = (if q = child then Some (NextProc (Ctx s)) else map_of (ProcMap (Ctx s)) q)"
          using new by (simp_all add: eq install_def update_conv' only_new_files_def)
        then show ?thesis
          using RegisterProcess_led [OF w followed_ledD(1) [OF l] r] by (auto simp: has_leader_def)
      qed
    qed
    then show "GroupLeaders (Ctx s) \<subseteq> GroupLeaders c'" "led c'"
      "\<And>q. q \<noteq> child \<Longrightarrow> map_of (ProcMap c') q = map_of (ProcMap (Ctx s)) q"
      "\<And>t. map_of (ProcMap c') child = Some t \<Longrightarrow> has_leader c' t"
      by blast+
  qed
  show ?thesis
  proof (rule followed_ledI)
    show "led (Ctx s')"
      by (simp add: ctx lead)
    fix q t
    assume q: "q \<in> followed s'" and t: "map_of (ProcMap (Ctx s')) q = Some t"
    show "has_leader (Ctx s') t"
    proof (cases "q = child")
      case True
      then show ?thesis
        using t lead(4) by (simp add: ctx)
    next
      case False
      then have "q \<in> followed s" "map_of (ProcMap (Ctx s)) q = Some t"
        using q t lead(3) by (simp_all add: fol ctx)
      then have "has_leader (Ctx s) t"
        by (rule followed_ledD(2) [OF l])
      then show ?thesis
        unfolding ctx
      proof (rule has_leader_kept)
        fix k
        assume k: "k \<in> GroupLeaders (Ctx s)" "map_of (ProcMap (Ctx s)) k = Some t"
        then have "k \<noteq> child"
          using fresh by auto
        then show "k \<in> GroupLeaders c' \<and> map_of (ProcMap c') k = Some t"
          using k lead(1,3) by auto
      qed
    qed
  qed
qed

text \<open>After an \<^verbatim>\<open>execve\<close> the process leads a table of its own; nobody else followed used the old one.\<close>

lemma exec_effect:
  assumes w: "wf_ctx c" and r: "RegisterExec os pid c = Inr c'"
  shows "map_of (ProcMap c') = (map_of (ProcMap c))(pid \<mapsto> NextProc c)"
    and "GroupLeaders c' = insert pid (GroupLeaders c)"
proof -
  have "map_of (ProcMap c') = (map_of (ProcMap c))(pid \<mapsto> NextProc c) \<and>
    GroupLeaders c' = insert pid (GroupLeaders c)"
    using r
  proof (rule RegisterExec_cases [OF w])
    fix p newfds c1 ps
    assume new: "only_new_files c c1" and c': "c' = install pid (NextProc c) (vanished pid p (alloc_proc ps c1))"
    show ?thesis
      using new by (auto simp: c' install_def update_conv' delete_conv' only_new_files_def fun_eq_iff)
  qed
  then show "map_of (ProcMap c') = (map_of (ProcMap c))(pid \<mapsto> NextProc c)"
    "GroupLeaders c' = insert pid (GroupLeaders c)"
    by simp_all
qed

lemma exec_led:
  assumes ok: "tracer_ok s" and l: "followed_led s" and pid: "pid \<in> followed s"
    and only: "only_threads s pid {pid, n}" and r: "RegisterExec os pid (Ctx s) = Inr c'"
    and s': "Ctx s' = c'" "followed s' \<subseteq> followed s" "n \<noteq> pid \<Longrightarrow> n \<notin> followed s'"
  shows "followed_led s'"
proof (rule followed_ledI)
  note w = tracer_okD(1) [OF ok]
  note eff = exec_effect [OF w r]
  show "led (Ctx s')"
    unfolding s'(1) by (rule RegisterExec_led [OF w followed_ledD(1) [OF l] r])
  fix q t
  assume q: "q \<in> followed s'" and t: "map_of (ProcMap (Ctx s')) q = Some t"
  show "has_leader (Ctx s') t"
  proof (cases "q = pid")
    case True
    then show ?thesis
      using t eff by (auto simp: s'(1) has_leader_def)
  next
    case False
    then have t': "map_of (ProcMap (Ctx s)) q = Some t" and q': "q \<in> followed s"
      using t q s'(2) by (auto simp: s'(1) eff)
    have "q \<noteq> n"
      using q s'(3) False by blast
    then have other: "map_of (ProcMap (Ctx s)) pid \<noteq> Some t"
      using only q' False t' by (auto simp: only_threads_def)
    show ?thesis
    proof (rule has_leader_kept [OF followed_ledD(2) [OF l q' t']])
      fix k
      assume "k \<in> GroupLeaders (Ctx s)" "map_of (ProcMap (Ctx s)) k = Some t"
      then show "k \<in> GroupLeaders (Ctx s') \<and> map_of (ProcMap (Ctx s')) k = Some t"
        using other by (auto simp: s'(1) eff)
    qed
  qed
qed

lemma HandleEvent_led:
  assumes ok: "tracer_ok s" and l: "followed_led s" and pid: "pid \<in> followed s"
    and ord: "\<And>n. EventMsg ans = Inr n \<Longrightarrow>
      (event \<in> {PTRACE_EVENT_CLONE, PTRACE_EVENT_FORK, PTRACE_EVENT_VFORK} \<longrightarrow> map_of (ProcMap (Ctx s)) n = None) \<and>
      (event = PTRACE_EVENT_EXEC \<longrightarrow> only_threads s pid {pid, n})"
    and r: "HandleEvent cfg ans pid event stop s = Inr f"
  shows "followed_led (flow_state f)"
  using r
proof (cases rule: HandleEvent_cases)
  case (child ch isThread s1)
  have "map_of (ProcMap (Ctx s)) ch = None"
    using ord [OF child(2)] child(1) by blast
  then have "followed_led s1"
    using child_led [OF ok l pid _ child(3)] by simp
  then show ?thesis
    by (simp add: child(4) flow_state_def)
next
  case (exec c')
  have "only_threads s pid {pid, pid}"
    using ord [OF exec(2)] exec(1) by blast
  then have "followed_led (s\<lparr>Ctx := c'\<rparr>)"
    by (rule exec_led [OF ok l pid _ exec(3)]) simp_all
  then show ?thesis
    by (simp add: exec(4) flow_state_def)
next
  case (thread_exec c' thread s1)
  have only: "only_threads s pid {pid, thread}"
    using ord [OF thread_exec(2)] thread_exec(1) by blast
  from thread_exec(5) have "followed_led s1"
  proof (rule vanishThread_cases)
    fix c1
    assume c1: "if False then VanishProcess thread (Ctx (s\<lparr>Ctx := c'\<rparr>)) = Inr c1 else c1 = Ctx (s\<lparr>Ctx := c'\<rparr>)"
      and s1: "s1 = s\<lparr>Ctx := c'\<rparr>\<lparr>Ctx := c1, SyscallState := (SyscallState (s\<lparr>Ctx := c'\<rparr>))(thread := None),
        Log := Log (s\<lparr>Ctx := c'\<rparr>) @ [Restart thread 0]\<rparr>"
    have "Ctx s1 = c'" "followed s1 = followed s - {thread}"
      using c1 by (auto simp: s1 followed_def)
    then show ?thesis
      by (intro exec_led [OF ok l pid only thread_exec(4)]) auto
  qed
  then show ?thesis
    by (simp add: thread_exec(6) flow_state_def)
next
  case seccomp
  then show ?thesis
    using pid by (auto simp: flow_state_def intro!: followed_led_cong [OF l])
qed (use l in \<open>auto simp: flow_state_def intro: followed_led_cong\<close>)

lemma HandleSyscallStop_led:
  assumes ok: "tracer_ok s" and l: "followed_led s" and r: "HandleSyscallStop cfg ans pid s = Inr f"
  shows "followed_led (stop_state f)"
  using r
proof (cases rule: HandleSyscallStop_cases)
  case (leave prev regs c')
  have pid: "pid \<in> followed s"
    using leave(1) by (simp add: followed_iff)
  note w = tracer_okD(1) [OF ok]
  have fr: "ProcMap c' = ProcMap (Ctx s)" "GroupLeaders c' = GroupLeaders (Ctx s)"
    using SyscallExit_frame [OF w leave(4)] by simp_all
  have "followed_led ((set_state pid SYSCALL_UNDEFINED s)\<lparr>Ctx := c'\<rparr>)"
  proof (rule followed_ledI)
    have "led c'"
      by (rule SyscallExit_led [OF w followed_ledD(1) [OF l] leave(4)]) (rule followed_ledD(2) [OF l pid])
    then show "led (Ctx ((set_state pid SYSCALL_UNDEFINED s)\<lparr>Ctx := c'\<rparr>))"
      by simp
    fix q t
    assume "q \<in> followed ((set_state pid SYSCALL_UNDEFINED s)\<lparr>Ctx := c'\<rparr>)"
      "map_of (ProcMap (Ctx ((set_state pid SYSCALL_UNDEFINED s)\<lparr>Ctx := c'\<rparr>))) q = Some t"
    then have "q \<in> followed s" "map_of (ProcMap (Ctx s)) q = Some t"
      using pid by (auto simp: fr)
    then show "has_leader (Ctx ((set_state pid SYSCALL_UNDEFINED s)\<lparr>Ctx := c'\<rparr>)) t"
      using followed_ledD(2) [OF l] has_leader_frame [OF fr] by simp
  qed
  then show ?thesis
    by (simp add: leave(5) stop_state_def)
qed (use l in \<open>auto simp: stop_state_def followed_iff intro!: followed_led_cong [OF l]\<close>)

lemma HandleStop_led:
  assumes ok: "tracer_ok s" and l: "followed_led s"
    and ord: "orderly s (WaitStatus pid status) ans" "WIFSTOPPED status"
    and r: "HandleStop cfg ans pid status s = Inr out"
  shows "followed_led (outcome_state out)"
  using r
proof (cases rule: HandleStop_cases)
  case unknown
  then show ?thesis
    by (auto simp: outcome_state_def intro!: followed_led_cong [OF l])
next
  case (skip s1)
  have "followed_led (flow_state (Skip s1))"
    by (rule HandleEvent_led [OF ok l skip(1) _ skip(3)]) (use ord in \<open>auto simp: orderly_def\<close>)
  then show ?thesis
    using skip(4) by (simp add: flow_state_def outcome_state_def)
next
  case (stopped stop s1 f)
  have s1: "tracer_ok s1 \<and> followed_led s1"
  proof (cases "EventOf status = 0")
    case True
    then show ?thesis
      using stopped(2) ok l by simp
  next
    case False
    then have ev: "HandleEvent cfg ans pid (EventOf status) (WSTOPSIG status = 0x85) s = Inr (Through stop s1)"
      using stopped(2) by simp
    have "followed_led (flow_state (Through stop s1))"
      by (rule HandleEvent_led [OF ok l stopped(1) _ ev]) (use ord in \<open>auto simp: orderly_def\<close>)
    then show ?thesis
      using HandleEvent_ok [OF ok stopped(1) ev] by (simp add: flow_state_def)
  qed
  have f: "followed_led (stop_state f)"
    using stopped(3) HandleSyscallStop_led s1 by (cases stop) (auto simp: stop_state_def)
  show ?thesis
  proof (cases f)
    case (StopDone s2)
    then obtain s3 where r3: "ResumeTracee cfg ans pid stop (if WSTOPSIG status = 0x85 then 0 else int (WSTOPSIG status)) s2
        = Inr s3" and out: "out = Again s3"
      using stopped(4) by auto
    show ?thesis
      using r3
    proof (rule ResumeTracee_Inr)
      fix act
      assume "s3 = s2\<lparr>Log := Log s2 @ [act]\<rparr>"
      then show ?thesis
        using f StopDone by (simp add: out outcome_state_def stop_state_def followed_led_def)
    qed
  qed (use stopped(4) f in \<open>auto simp: stop_state_def outcome_state_def\<close>)
qed

lemma turn_led:
  assumes ok: "tracer_ok s" and l: "followed_led s" and ord: "orderly s w ans"
    and r: "turn cfg w ans s = Inr out"
  shows "followed_led (outcome_state out)"
  using r
proof (cases rule: turn_cases)
  case (stop pid status)
  then show ?thesis
    using HandleStop_led [OF ok l _ stop(2,3)] ord by simp
next
  case (exit pid status c' code)
  note w = tracer_okD(1) [OF ok]
  have fr: "wf_ctx c'" "led c'" "ProcMap c' = ProcMap (Ctx s)" "GroupLeaders c' = GroupLeaders (Ctx s)"
    using exit(3) w followed_ledD(1) [OF l]
    by (auto intro: RegisterCoreDump_wf RegisterCoreDump_led dest: RegisterCoreDump_frame)
  let ?s = "s\<lparr>Ctx := c'\<rparr>"
  have ok': "tracer_ok ?s"
    using tracer_okD [OF ok] fr by (intro tracer_okI) simp_all
  have l': "followed_led ?s"
    using followed_ledD(2) [OF l] has_leader_frame [OF fr(3,4)] fr by (intro followed_ledI) simp_all
  have only: "pid \<in> GroupLeaders (Ctx ?s) \<Longrightarrow> only_threads ?s pid {pid}"
    using ord exit(1,2) fr by (simp add: orderly_def only_threads_def)
  show ?thesis
    using exit(5)
  proof (rule HandleExit_cases)
    fix s1
    assume v: "vanishThread ans pid True ?s = Inr s1"
      and out: "out = (if pid = Tracee cfg then
         if FollowsForks cfg \<and> WaitsDaemons cfg then
            Again (if TraceeExitCode s1 = EXIT_CODE_UNKNOWN then s1\<lparr>TraceeExitCode := code\<rparr> else s1)
          else Return code s1
       else Again s1)"
    have "followed_led s1"
      by (rule vanish_led [OF ok' l' only v])
    then show ?thesis
      by (simp add: out outcome_state_def followed_led_def)
  qed
qed (use l in \<open>simp_all add: outcome_state_def\<close>)

section \<open>The configuration never changes\<close>

definition config :: "tcontext \<Rightarrow> options \<times> int" where
  "config c = (Opts c, Capacity (FileStorage c))"

named_theorems config_rules \<open>operations keep the options and the capacity of the storage\<close>

lemma config_simps [simp]:
  "config (upd_file a f c) = config c" "config (set_fds p v c) = config c" "config (alloc_file g c) = config c"
  "config (c\<lparr>Kills := ks\<rparr>) = config c" "config (alloc_proc ps c) = config c" "config (install pid p c) = config c"
  by (simp_all add: config_def install_def)

lemma Capacity_AddFileEntries [simp]: "Capacity (AddFileEntries fs st) = Capacity st"
  unfolding AddFileEntries_def by (induction fs arbitrary: st) simp_all

lemma config_recorded [simp]: "config (recorded es c) = config c"
  by (simp add: config_def recorded_def)

lemma config_vanished [simp]: "config (vanished pid p c) = config c"
  by (simp add: config_def)

lemma config_new_files: "only_new_files c c' \<Longrightarrow> config c' = config c"
  by (simp add: only_new_files_def config_def)

lemma on_fd_config [config_rules]: "on_fd pid fd f c = Inr c' \<Longrightarrow> config c' = config c"
  by (erule on_fd_cases) simp_all

lemma OpOpenWriteFile_config [config_rules]: "OpOpenWriteFile os pid fd flags c = Inr c' \<Longrightarrow> config c' = config c"
  by (erule OpOpenWriteFile_cases) simp

lemma OpClose_config [config_rules]: "wf_ctx c \<Longrightarrow> OpClose pid fd c = Inr c' \<Longrightarrow> config c' = config c"
  using OpClose_frame by (simp add: config_def)

lemma OpDup2_config [config_rules]: "wf_ctx c \<Longrightarrow> OpDup2 pid fd newfd c = Inr (d, c') \<Longrightarrow> config c' = config c"
  using OpDup2_frame by (simp add: config_def)

lemma OpDup3_config [config_rules]:
  assumes w: "wf_ctx c" and r: "OpDup3 pid fd newfd flags c = Inr (d, c')"
  shows "config c' = config c"
  using r by (rule OpDup3_effect [OF w]) (use OpDup2_config [OF w] in auto)

lemma SyscallExit_config [config_rules]:
  assumes w: "wf_ctx c" and r: "SyscallExit a os pid regs c = Inr c'"
  shows "config c' = config c"
  using r by (cases rule: SyscallExit_cases) (use w in \<open>auto intro: config_rules\<close>)

lemma VanishProcess_config [config_rules]:
  assumes w: "wf_ctx c" and r: "VanishProcess pid c = Inr c'"
  shows "config c' = config c"
proof -
  obtain p where p: "map_of (ProcMap c) pid = Some p"
    using VanishProcess_known [OF r] .
  then have "c' = vanished pid p c"
    using r VanishProcess_eq [OF w p] by simp
  then show ?thesis
    by simp
qed

lemma RegisterThread_config [config_rules]: "RegisterThread pid thread c = Inr c' \<Longrightarrow> config c' = config c"
  by (cases "map_of (ProcMap c) pid") (auto simp: RegisterThread_def config_def)

lemma RegisterProcess_config [config_rules]:
  assumes w: "wf_ctx c" and r: "RegisterProcess os pid child c = Inr c'"
  shows "config c' = config c"
  using r by (rule RegisterProcess_cases [OF w]) (simp add: config_new_files)

lemma RegisterExec_config [config_rules]:
  assumes w: "wf_ctx c" and r: "RegisterExec os pid c = Inr c'"
  shows "config c' = config c"
  using r by (rule RegisterExec_cases [OF w]) (simp add: config_new_files)

lemma RegisterCoreDump_config [config_rules]: "RegisterCoreDump os pid sig c = Inr c' \<Longrightarrow> config c' = config c"
  by (erule RegisterCoreDump_cases) simp_all

lemma vanishThread_config:
  assumes ok: "tracer_ok s" and r: "vanishThread ans pid notify s = Inr s'"
  shows "config (Ctx s') = config (Ctx s)"
  using r
proof (rule vanishThread_cases)
  fix c'
  assume c': "if notify then VanishProcess pid (Ctx s) = Inr c' else c' = Ctx s"
    and s': "s' = s\<lparr>Ctx := c', SyscallState := (SyscallState s)(pid := None), Log := Log s @ [Restart pid 0]\<rparr>"
  have "config c' = config (Ctx s)"
    using c' VanishProcess_config [OF tracer_okD(1) [OF ok]] by (cases notify) simp_all
  then show ?thesis
    by (simp add: s')
qed

lemma HandleNewChild_config:
  assumes ok: "tracer_ok s" and r: "HandleNewChild cfg ans pid child isThread s = Inr s'"
  shows "config (Ctx s') = config (Ctx s)"
  using r
proof (rule HandleNewChild_cases)
  fix c'
  assume c': "if isThread then RegisterThread pid child (Ctx s) = Inr c'
     else RegisterProcess (Machine ans) pid child (Ctx s) = Inr c'"
    and s': "s' = s\<lparr>Ctx := c', SyscallState := (SyscallState s)(child \<mapsto> SYSCALL_UNDEFINED),
        Suspended := (Suspended s)(child := None), Log := Log s @ resumed cfg child s\<rparr>"
  have "config c' = config (Ctx s)"
    using c' RegisterThread_config RegisterProcess_config [OF tracer_okD(1) [OF ok]]
    by (cases isThread) auto
  then show ?thesis
    by (simp add: s')
qed

lemma HandleEvent_config:
  assumes ok: "tracer_ok s" and r: "HandleEvent cfg ans pid event stop s = Inr f"
  shows "config (Ctx (flow_state f)) = config (Ctx s)"
  using r
proof (cases rule: HandleEvent_cases)
  case (thread_exec c' thread s1)
  show ?thesis
    using vanishThread_config [OF exec_ok [OF ok thread_exec(4)] thread_exec(5)]
      RegisterExec_config [OF tracer_okD(1) [OF ok] thread_exec(4)]
    by (simp add: thread_exec(6) flow_state_def)
next
  case (child ch isThread s1)
  then show ?thesis
    using HandleNewChild_config [OF ok child(3)] by (simp add: flow_state_def)
next
  case (exec c')
  then show ?thesis
    using RegisterExec_config [OF tracer_okD(1) [OF ok] exec(3)] by (simp add: flow_state_def)
qed (simp_all add: flow_state_def)

lemma HandleSyscallStop_config:
  assumes ok: "tracer_ok s" and r: "HandleSyscallStop cfg ans pid s = Inr f"
  shows "config (Ctx (stop_state f)) = config (Ctx s)"
  using r
  by (cases rule: HandleSyscallStop_cases)
    (use SyscallExit_config [OF tracer_okD(1) [OF ok]] in \<open>auto simp: stop_state_def\<close>)

lemma HandleStop_config:
  assumes ok: "tracer_ok s" and r: "HandleStop cfg ans pid status s = Inr out"
  shows "config (Ctx (outcome_state out)) = config (Ctx s)"
  using r
proof (cases rule: HandleStop_cases)
  case (skip s1)
  then show ?thesis
    using HandleEvent_config [OF ok skip(3)] by (simp add: flow_state_def outcome_state_def)
next
  case (stopped stop s1 f)
  have s1: "tracer_ok s1 \<and> config (Ctx s1) = config (Ctx s)"
  proof (cases "EventOf status = 0")
    case True
    then show ?thesis
      using stopped(2) ok by simp
  next
    case False
    then have ev: "HandleEvent cfg ans pid (EventOf status) (WSTOPSIG status = 0x85) s = Inr (Through stop s1)"
      using stopped(2) by simp
    show ?thesis
      using HandleEvent_ok [OF ok stopped(1) ev] HandleEvent_config [OF ok ev] by (simp add: flow_state_def)
  qed
  have f: "config (Ctx (stop_state f)) = config (Ctx s)"
    using stopped(3) HandleSyscallStop_config [of s1] s1 by (cases stop) (auto simp: stop_state_def)
  show ?thesis
    by (cases f) (use stopped(4) f in \<open>auto simp: stop_state_def outcome_state_def elim!: ResumeTracee_Inr\<close>)
qed (simp add: outcome_state_def)

lemma turn_config:
  assumes ok: "tracer_ok s" and r: "turn cfg w ans s = Inr out"
  shows "config (Ctx (outcome_state out)) = config (Ctx s)"
  using r
proof (cases rule: turn_cases)
  case (stop pid status)
  show ?thesis
    by (rule HandleStop_config [OF ok stop(3)])
next
  case (exit pid status c' code)
  have c': "wf_ctx c'" "ProcMap c' = ProcMap (Ctx s)" "config c' = config (Ctx s)"
    using exit(3) tracer_okD(1) [OF ok]
    by (auto intro: RegisterCoreDump_wf RegisterCoreDump_config dest: RegisterCoreDump_frame)
  then have ok': "tracer_ok (s\<lparr>Ctx := c'\<rparr>)"
    using tracer_okD [OF ok] by (intro tracer_okI) simp_all
  show ?thesis
    using exit(5)
    by (rule HandleExit_cases) (use vanishThread_config [OF ok'] c'(3) in \<open>auto simp: outcome_state_def\<close>)
qed (simp_all add: outcome_state_def)

section \<open>Reachable states\<close>

text \<open>The states of the loop between two turns, with a kernel that reports in order.\<close>

inductive reach :: "setting \<Rightarrow> tcontext \<Rightarrow> tracer \<Rightarrow> bool" for cfg :: setting and c :: tcontext where
  start: "reach cfg c (StartTracer cfg c)"
| step: "reach cfg c s \<Longrightarrow> orderly s w ans \<Longrightarrow> turn cfg w ans s = Inr (Again s') \<Longrightarrow> reach cfg c s'"

text \<open>What the loop starts from: a context that knows the tracee as a group leader.\<close>

definition ready :: "setting \<Rightarrow> tcontext \<Rightarrow> bool" where
  "ready cfg c \<longleftrightarrow> wf_ctx c \<and> led c \<and> Tracee cfg \<in> GroupLeaders c"

lemma ready_start:
  assumes "ready cfg c"
  shows "tracer_ok (StartTracer cfg c)" "followed_led (StartTracer cfg c)"
proof -
  have w: "wf_ctx c" "led c" "Tracee cfg \<in> GroupLeaders c"
    using assms by (simp_all add: ready_def)
  then show "tracer_ok (StartTracer cfg c)"
    by (intro tracer_okI) (auto simp: StartTracer_def followed_def wf_ctx_def)
  show "followed_led (StartTracer cfg c)"
    using w by (intro followed_ledI) (auto simp: StartTracer_def followed_def has_leader_def split: if_splits)
qed

lemma reach_inv:
  assumes "reach cfg c s" "ready cfg c"
  shows "tracer_ok s \<and> followed_led s \<and> config (Ctx s) = config c"
  using assms(1)
proof (induction rule: reach.induct)
  case start
  show ?case
    using ready_start [OF assms(2)] by (simp add: StartTracer_def)
next
  case (step s w ans s')
  then show ?case
    using turn_ok turn_led turn_config by (fastforce simp: outcome_state_def)
qed

text \<open>When the loop returns, the rest of the run is total and its report complete.\<close>

lemma return_inv:
  assumes "reach cfg c s" "ready cfg c" "orderly s w ans" "turn cfg w ans s = Inr (Return rc s')"
  shows "wf_ctx (Ctx s')" "led (Ctx s')" "config (Ctx s') = config c"
proof -
  have inv: "tracer_ok s" "followed_led s" "config (Ctx s) = config c"
    using reach_inv [OF assms(1,2)] by simp_all
  have "tracer_ok (outcome_state (Return rc s'))" "followed_led (outcome_state (Return rc s'))"
    "config (Ctx (outcome_state (Return rc s'))) = config c"
    using turn_ok [OF inv(1) assms(4)] turn_led [OF inv(1,2) assms(3,4)] turn_config [OF inv(1) assms(4)] inv(3)
    by simp_all
  then show "wf_ctx (Ctx s')" "led (Ctx s')" "config (Ctx s') = config c"
    by (simp_all add: outcome_state_def tracer_okD(1) followed_ledD(1))
qed

inductive_cases reachE: "reach cfg c s"

lemma fill_fds_leaders: "fill_fds os p n k c = Inr c' \<Longrightarrow> GroupLeaders c' = GroupLeaders c \<and> config c' = config c"
  by (induction k arbitrary: c) (auto simp: Let_def bindR_eq_Inr_iff split: if_splits)

lemma FillFds_cases:
  assumes "FillFds os p c = Inr c'"
  obtains "c' = c" | n k where "fill_fds os p n k (set_fds p (vec_resize k (fds_of c p)) c) = Inr c'"
  using assms by (auto simp: FillFds_def bindR_eq_Inr_iff Let_def split: if_splits)

lemma FillFds_leaders: "FillFds os p c = Inr c' \<Longrightarrow> GroupLeaders c' = GroupLeaders c"
  by (erule FillFds_cases) (auto dest: fill_fds_leaders)

lemma FillFds_config [config_rules]: "FillFds os p c = Inr c' \<Longrightarrow> config c' = config c"
  by (erule FillFds_cases) (auto dest: fill_fds_leaders)

lemma RegisterTracee_config [config_rules]: "RegisterTracee os pid c = Inr c' \<Longrightarrow> config c' = config c"
  by (auto simp: RegisterTracee_def bindR_eq_Inr_iff Let_def dest!: FillFds_config)

lemma RegisterTracee_ready:
  assumes "wf_ctx c" "led c" "RegisterTracee os pid c = Inr c'"
  shows "wf_ctx c'" "led c'" "pid \<in> GroupLeaders c'"
proof -
  show "wf_ctx c'" "led c'"
    using RegisterTracee_wf [OF assms] by simp_all
  let ?d = "install pid (NextProc c) (alloc_proc (NewProcState os c pid 0) c)"
  have "FillFds os (NextProc c) ?d = Inr c'"
    using assms(3) by (simp add: RegisterTracee_def bindR_eq_Inr_iff Let_def)
  then have "GroupLeaders c' = GroupLeaders ?d"
    by (rule FillFds_leaders)
  then show "pid \<in> GroupLeaders c'"
    by (simp add: install_def)
qed

end
