(* ===== verification/Conserve.thy ===== *)
theory Conserve
  imports TracerRun
begin

text \<open>
  The operations of \<^verbatim>\<open>TContext\<close> that produce no output share a contract: they keep the invariants,
  the configuration, and the total that the report would give if everything were closed. The contract
  is a locale, each operation an interpretation, and whole sequences of them follow from it.
\<close>

section \<open>The contract\<close>

text \<open>A context in which closing everything would give the total \<open>n\<close>.\<close>

definition balanced :: "u64 \<Rightarrow> tcontext \<Rightarrow> bool" where
  "balanced n c \<longleftrightarrow> wf_ctx c \<and> led c \<and> Capacity (FileStorage c) \<noteq> 0 \<and> accounted c = n"

lemma balancedI:
  assumes "wf_ctx c" "led c" "Capacity (FileStorage c) \<noteq> 0"
  shows "balanced (accounted c) c"
  using assms by (simp add: balanced_def)

locale quiet_operation =
  fixes op :: "tcontext \<Rightarrow> failure + tcontext"
  assumes op_wf: "wf_ctx c \<Longrightarrow> op c = Inr c' \<Longrightarrow> wf_ctx c'"
    and op_led: "wf_ctx c \<Longrightarrow> led c \<Longrightarrow> op c = Inr c' \<Longrightarrow> led c'"
    and op_config: "wf_ctx c \<Longrightarrow> op c = Inr c' \<Longrightarrow> config c' = config c"
    and op_total: "wf_ctx c \<Longrightarrow> led c \<Longrightarrow> Capacity (FileStorage c) \<noteq> 0 \<Longrightarrow> op c = Inr c' \<Longrightarrow>
      accounted c' = accounted c"
begin

lemma keeps_balance:
  assumes "balanced n c" "op c = Inr c'"
  shows "balanced n c'"
proof -
  have w: "wf_ctx c" "led c" "Capacity (FileStorage c) \<noteq> 0" "accounted c = n"
    using assms(1) by (simp_all add: balanced_def)
  then show ?thesis
    using op_wf [OF w(1) assms(2)] op_led [OF w(1,2) assms(2)] op_config [OF w(1) assms(2)]
      op_total [OF w(1-3) assms(2)] by (simp add: balanced_def config_def)
qed

lemma keeps_options: "wf_ctx c \<Longrightarrow> op c = Inr c' \<Longrightarrow> Opts c' = Opts c"
  by (drule (1) op_config) (simp add: config_def)

end

text \<open>A quiet operation after another is quiet.\<close>

locale quiet_pair = first: quiet_operation op1 + second: quiet_operation op2
  for op1 op2 :: "tcontext \<Rightarrow> failure + tcontext"
begin

lemma pair_keeps_balance: "balanced n c \<Longrightarrow> bindR (op1 c) op2 = Inr c' \<Longrightarrow> balanced n c'"
  by (erule bindR_InrE, rule second.keeps_balance, rule first.keeps_balance)

end

section \<open>The operations\<close>

interpretation close: quiet_operation "OpClose pid fd" for pid fd
  by unfold_locales (auto intro: OpClose_wf OpClose_led OpClose_config OpClose_accounted)

interpretation dup2: quiet_operation "\<lambda>c. ignore_result (OpDup2 pid oldfd newfd c)" for pid oldfd newfd
  by unfold_locales (auto simp: ignore_result_Inr intro: OpDup2_wf OpDup2_led OpDup2_config OpDup2_accounted)

interpretation dup3: quiet_operation "\<lambda>c. ignore_result (OpDup3 pid oldfd newfd flags c)" for pid oldfd newfd flags
  by unfold_locales (auto simp: ignore_result_Inr intro: OpDup3_wf OpDup3_led OpDup3_config OpDup3_accounted)

interpretation seek: quiet_operation "OpSeek pid fd pos" for pid fd pos
  by unfold_locales (auto simp: OpSeek_def intro: on_fd_wf on_fd_led on_fd_config on_fd_accounted_same)

interpretation set_flag: quiet_operation "OpSetFlag pid fd flags" for pid fd flags
  by unfold_locales (auto simp: OpSetFlag_def intro: on_fd_wf on_fd_led on_fd_config on_fd_accounted_same)

lemma VanishProcess_vanished:
  assumes "wf_ctx c" "VanishProcess pid c = Inr c'"
  obtains p where "map_of (ProcMap c) pid = Some p" "c' = vanished pid p c"
proof -
  obtain p where p: "map_of (ProcMap c) pid = Some p"
    using VanishProcess_known [OF assms(2)] .
  then have "c' = vanished pid p c"
    using VanishProcess_eq [OF assms(1) p] assms(2) by simp
  with p show thesis
    by (rule that)
qed

interpretation vanish: quiet_operation "VanishProcess pid" for pid
proof
  fix c c' :: tcontext
  assume w: "wf_ctx c" and v: "VanishProcess pid c = Inr c'"
  obtain p where p: "map_of (ProcMap c) pid = Some p" and c': "c' = vanished pid p c"
    using VanishProcess_vanished [OF w v] .
  show "wf_ctx c'"
    unfolding c' by (rule wf_vanished [OF w])
  show "config c' = config c"
    by (rule VanishProcess_config [OF w v])
  assume l: "led c"
  show "led c'"
    unfolding c' by (rule led_vanished [OF w l p])
  assume cap: "Capacity (FileStorage c) \<noteq> 0"
  show "accounted c' = accounted c"
    unfolding c' by (rule accounted_vanished [OF w l p cap])
qed

text \<open>\<^verbatim>\<open>close\<close> and then \<^verbatim>\<open>exit\<close>, as most processes end.\<close>

interpretation close_then_vanish: quiet_pair "OpClose pid fd" "VanishProcess pid" for pid fd
  by unfold_locales

section \<open>Sequences\<close>

datatype quiet_call =
    Close pid u64
  | Dup2 pid u64 u64
  | Dup3 pid u64 u64 u64
  | Seek pid u64 u64
  | SetFlag pid u64 u64
  | Vanish pid

fun quiet_step :: "quiet_call \<Rightarrow> tcontext \<Rightarrow> failure + tcontext" where
  "quiet_step (Close pid fd) c = OpClose pid fd c"
| "quiet_step (Dup2 pid oldfd newfd) c = ignore_result (OpDup2 pid oldfd newfd c)"
| "quiet_step (Dup3 pid oldfd newfd flags) c = ignore_result (OpDup3 pid oldfd newfd flags c)"
| "quiet_step (Seek pid fd pos) c = OpSeek pid fd pos c"
| "quiet_step (SetFlag pid fd flags) c = OpSetFlag pid fd flags c"
| "quiet_step (Vanish pid) c = VanishProcess pid c"

fun quiet_run :: "quiet_call list \<Rightarrow> tcontext \<Rightarrow> failure + tcontext" where
  "quiet_run [] c = Inr c"
| "quiet_run (call # calls) c = bindR (quiet_step call c) (quiet_run calls)"

lemma quiet_step_balance:
  assumes n: "balanced n c" and r: "quiet_step call c = Inr c'"
  shows "balanced n c'"
proof (cases call)
  case (Close pid fd)
  show ?thesis
    by (rule close.keeps_balance [OF n]) (use r Close in simp)
next
  case (Dup2 pid oldfd newfd)
  show ?thesis
    by (rule dup2.keeps_balance [OF n]) (use r Dup2 in simp)
next
  case (Dup3 pid oldfd newfd flags)
  show ?thesis
    by (rule dup3.keeps_balance [OF n]) (use r Dup3 in simp)
next
  case (Seek pid fd pos)
  show ?thesis
    by (rule seek.keeps_balance [OF n]) (use r Seek in simp)
next
  case (SetFlag pid fd flags)
  show ?thesis
    by (rule set_flag.keeps_balance [OF n]) (use r SetFlag in simp)
next
  case (Vanish pid)
  show ?thesis
    by (rule vanish.keeps_balance [OF n]) (use r Vanish in simp)
qed

lemma quiet_run_balance: "balanced n c \<Longrightarrow> quiet_run calls c = Inr c' \<Longrightarrow> balanced n c'"
proof (induction calls arbitrary: c)
  case (Cons call calls)
  then obtain c1 where "quiet_step call c = Inr c1" "quiet_run calls c1 = Inr c'"
    by (auto simp: bindR_eq_Inr_iff)
  then show ?case
    using Cons.IH quiet_step_balance [OF Cons.prems(1)] by blast
qed simp

end
