(* ===== verification/Bpf.thy ===== *)
theory Bpf
  imports Registers FileState
begin

text \<open>
  \<^verbatim>\<open>bpf_program.cpp\<close>: the seccomp filter that decides which system calls stop the tracee. The
  program is built as the code builds it and run by a small interpreter of the four kinds of
  classic BPF instructions it uses. \<open>seccomp_data\<close> is what the kernel hands to the filter; a word
  load at an offset reads the little-endian half of a field.
\<close>

section \<open>Instructions and their execution\<close>

datatype bpf_code = BPF_LD_W_ABS | BPF_JMP_JEQ_K | BPF_JMP_JSET_K | BPF_RET_K

record sock_filter =
  Code :: bpf_code
  Jt :: nat
  Jf :: nat
  K :: u32

definition BPF_STMT :: "bpf_code \<Rightarrow> u32 \<Rightarrow> sock_filter" where
  "BPF_STMT code k = \<lparr>Code = code, Jt = 0, Jf = 0, K = k\<rparr>"

definition BPF_JUMP :: "bpf_code \<Rightarrow> u32 \<Rightarrow> nat \<Rightarrow> nat \<Rightarrow> sock_filter" where
  "BPF_JUMP code k jt jf = \<lparr>Code = code, Jt = jt, Jf = jf, K = k\<rparr>"

record seccomp_data =
  Nr :: u32
  AuditArch :: u32
  InstructionPointer :: u64
  Args :: "nat \<Rightarrow> u64"

definition offset_nr :: u32 where "offset_nr = 0"
definition offset_args1 :: u32 where "offset_args1 = 24"
definition offset_args2 :: u32 where "offset_args2 = 32"

definition low_word :: "u64 \<Rightarrow> u32" where "low_word w = ucast w"
definition high_word :: "u64 \<Rightarrow> u32" where "high_word w = ucast (drop_bit 32 w)"

definition load_word :: "seccomp_data \<Rightarrow> u32 \<Rightarrow> u32 option" where
  "load_word d offset =
     (let off = unat offset; i = (off - 16) div 8
      in if off = 0 then Some (Nr d)
         else if off = 4 then Some (AuditArch d)
         else if off = 8 then Some (low_word (InstructionPointer d))
         else if off = 12 then Some (high_word (InstructionPointer d))
         else if off < 16 \<or> 64 \<le> off \<or> off mod 4 \<noteq> 0 then None
         else if off mod 8 = 0 then Some (low_word (Args d i))
         else Some (high_word (Args d i)))"

text \<open>
  A run from an instruction: the rest of the program, the accumulator and the data. Jumps skip
  instructions forward, so every step leaves a shorter rest; \<open>None\<close> is a rejected program.
\<close>

function bpf_exec :: "sock_filter list \<Rightarrow> u32 \<Rightarrow> seccomp_data \<Rightarrow> u32 option" where
  "bpf_exec [] A d = None"
| "bpf_exec (i # rest) A d =
     (case Code i of
        BPF_LD_W_ABS \<Rightarrow>
          (case load_word d (K i) of None \<Rightarrow> None | Some w \<Rightarrow> bpf_exec rest w d)
      | BPF_JMP_JEQ_K \<Rightarrow> bpf_exec (drop (if A = K i then Jt i else Jf i) rest) A d
      | BPF_JMP_JSET_K \<Rightarrow> bpf_exec (drop (if A AND K i \<noteq> 0 then Jt i else Jf i) rest) A d
      | BPF_RET_K \<Rightarrow> Some (K i))"
  by pat_completeness auto
termination
  by (relation "measure (\<lambda>(p, A, d). length p)") auto

declare bpf_exec.simps [simp del]

definition bpf_run :: "sock_filter list \<Rightarrow> seccomp_data \<Rightarrow> u32 option" where
  "bpf_run prog d = bpf_exec prog 0 d"

section \<open>The filter\<close>

definition SECCOMP_RET_ALLOW :: u32 where "SECCOMP_RET_ALLOW = 0x7fff0000"
definition SECCOMP_RET_TRACE :: u32 where "SECCOMP_RET_TRACE = 0x7ff00000"

definition OpenBlock :: "arch \<Rightarrow> sock_filter list" where
  "OpenBlock a = (case a of
     X86_64 \<Rightarrow>
       [BPF_JUMP BPF_JMP_JEQ_K (ucast SYS_open) 0 4,
        BPF_STMT BPF_LD_W_ABS offset_args1,
        BPF_JUMP BPF_JMP_JSET_K (ucast O_WRONLY) 1 0,
        BPF_JUMP BPF_JMP_JSET_K (ucast O_RDWR) 0 1,
        BPF_STMT BPF_RET_K SECCOMP_RET_TRACE]
   | AArch64 \<Rightarrow> [])"

definition OpenatBlock :: "arch \<Rightarrow> sock_filter list" where
  "OpenatBlock a =
     [BPF_JUMP BPF_JMP_JEQ_K (ucast (SYS_openat a)) 0 4,
      BPF_STMT BPF_LD_W_ABS offset_args2,
      BPF_JUMP BPF_JMP_JSET_K (ucast O_WRONLY) 1 0,
      BPF_JUMP BPF_JMP_JSET_K (ucast O_RDWR) 0 1,
      BPF_STMT BPF_RET_K SECCOMP_RET_TRACE]"

definition FcntlBlock :: "arch \<Rightarrow> sock_filter list" where
  "FcntlBlock a =
     [BPF_JUMP BPF_JMP_JEQ_K (ucast (SYS_fcntl a)) 0 6,
      BPF_STMT BPF_LD_W_ABS offset_args1,
      BPF_JUMP BPF_JMP_JSET_K (ucast F_DUPFD) 3 0,
      BPF_JUMP BPF_JMP_JSET_K (ucast F_DUPFD_CLOEXEC) 2 0,
      BPF_JUMP BPF_JMP_JSET_K (ucast F_SETFL) 1 0,
      BPF_JUMP BPF_JMP_JSET_K (ucast F_SETFD) 0 1,
      BPF_STMT BPF_RET_K SECCOMP_RET_TRACE]"

definition tracingSyscalls :: "arch \<Rightarrow> u64 list" where
  "tracingSyscalls a =
     (case a of X86_64 \<Rightarrow> [SYS_creat, SYS_dup2] | AArch64 \<Rightarrow> []) @
     [SYS_write a, SYS_writev a, SYS_pwritev a, SYS_pwrite64 a, SYS_pwritev2 a, SYS_close a,
      SYS_dup a, SYS_dup3 a, SYS_fallocate a, SYS_ftruncate a, SYS_lseek a]"

definition TracingBlock :: "u64 list \<Rightarrow> sock_filter list" where
  "TracingBlock syscalls =
     concat (map (\<lambda>syscall. [BPF_JUMP BPF_JMP_JEQ_K (ucast syscall) 0 1,
                            BPF_STMT BPF_RET_K SECCOMP_RET_TRACE]) syscalls)"

definition BpfProgram :: "arch \<Rightarrow> sock_filter list" where
  "BpfProgram a =
     [BPF_STMT BPF_LD_W_ABS offset_nr] @ OpenBlock a @ OpenatBlock a @ FcntlBlock a @
     TracingBlock (tracingSyscalls a) @ [BPF_STMT BPF_RET_K SECCOMP_RET_ALLOW]"

section \<open>What each block decides\<close>

definition verdict :: "bool \<Rightarrow> u32 option" where
  "verdict b = Some (if b then SECCOMP_RET_TRACE else SECCOMP_RET_ALLOW)"

lemma verdict_inject [simp]: "verdict a = verdict b \<longleftrightarrow> a = b"
  by (auto simp: verdict_def SECCOMP_RET_TRACE_def SECCOMP_RET_ALLOW_def)

lemma load_words [simp]:
  "load_word d offset_nr = Some (Nr d)"
  "load_word d offset_args1 = Some (low_word (Args d 1))"
  "load_word d offset_args2 = Some (low_word (Args d 2))"
  by (simp_all add: load_word_def offset_nr_def offset_args1_def offset_args2_def)

lemma bpf_exec_insn [simp]:
  "bpf_exec (BPF_STMT BPF_RET_K k # rest) A d = Some k"
  "bpf_exec (BPF_STMT BPF_LD_W_ABS k # rest) A d =
    (case load_word d k of None \<Rightarrow> None | Some w \<Rightarrow> bpf_exec rest w d)"
  "bpf_exec (BPF_JUMP BPF_JMP_JEQ_K k jt jf # rest) A d =
    bpf_exec (drop (if A = k then jt else jf) rest) A d"
  "bpf_exec (BPF_JUMP BPF_JMP_JSET_K k jt jf # rest) A d =
    bpf_exec (drop (if A AND k \<noteq> 0 then jt else jf) rest) A d"
  by (simp_all add: bpf_exec.simps BPF_STMT_def BPF_JUMP_def)

lemma tracing_block:
  "bpf_exec (TracingBlock ss @ [BPF_STMT BPF_RET_K SECCOMP_RET_ALLOW]) A d =
    verdict (A \<in> ucast ` set ss)"
  by (induction ss) (auto simp: TracingBlock_def verdict_def)

text \<open>
  What a block does to the run of the rest of the program: it traces, or hands the accumulator
  on. A block that loaded an argument and did not trace leaves the argument in the accumulator.
\<close>

definition opens_for_writing :: "u32 \<Rightarrow> bool" where
  "opens_for_writing flags \<longleftrightarrow> flags AND 1 \<noteq> 0 \<or> flags AND 2 \<noteq> 0"

definition fcntl_bits :: "u32 \<Rightarrow> bool" where
  "fcntl_bits cmd \<longleftrightarrow> cmd AND 1030 \<noteq> 0 \<or> cmd AND 4 \<noteq> 0 \<or> cmd AND 2 \<noteq> 0"

lemma open_block:
  "bpf_exec (OpenBlock X86_64 @ rest) A d =
    (if A = 2 then
       if opens_for_writing (low_word (Args d 1)) then Some SECCOMP_RET_TRACE
       else bpf_exec rest (low_word (Args d 1)) d
     else bpf_exec rest A d)"
  "bpf_exec (OpenBlock AArch64 @ rest) A d = bpf_exec rest A d"
  by (simp_all add: OpenBlock_def sysno_defs open_flag_defs opens_for_writing_def)

lemma openat_block:
  "bpf_exec (OpenatBlock a @ rest) A d =
    (if A = ucast (SYS_openat a) then
       if opens_for_writing (low_word (Args d 2)) then Some SECCOMP_RET_TRACE
       else bpf_exec rest (low_word (Args d 2)) d
     else bpf_exec rest A d)"
  by (simp add: OpenatBlock_def open_flag_defs opens_for_writing_def)

lemma fcntl_block:
  "bpf_exec (FcntlBlock a @ rest) A d =
    (if A = ucast (SYS_fcntl a) then
       if fcntl_bits (low_word (Args d 1)) then Some SECCOMP_RET_TRACE
       else bpf_exec rest (low_word (Args d 1)) d
     else bpf_exec rest A d)"
  by (simp add: FcntlBlock_def fcntl_defs fcntl_bits_def)

section \<open>The decision of the whole filter\<close>

text \<open>
  The decision in stages, one per block. A stage tests the accumulator: the system call number,
  or, after a block that loaded an argument, that argument.
\<close>

definition listed :: "arch \<Rightarrow> u32 \<Rightarrow> bool" where
  "listed a A \<longleftrightarrow> A \<in> ucast ` set (tracingSyscalls a)"

definition fcntl_stage :: "arch \<Rightarrow> seccomp_data \<Rightarrow> u32 \<Rightarrow> bool" where
  "fcntl_stage a d A =
     (if A = ucast (SYS_fcntl a)
      then fcntl_bits (low_word (Args d 1)) \<or> listed a (low_word (Args d 1))
      else listed a A)"

definition openat_stage :: "arch \<Rightarrow> seccomp_data \<Rightarrow> u32 \<Rightarrow> bool" where
  "openat_stage a d A =
     (if A = ucast (SYS_openat a)
      then opens_for_writing (low_word (Args d 2)) \<or> fcntl_stage a d (low_word (Args d 2))
      else fcntl_stage a d A)"

definition traced :: "arch \<Rightarrow> seccomp_data \<Rightarrow> bool" where
  "traced a d =
     (if a = X86_64 \<and> Nr d = 2
      then opens_for_writing (low_word (Args d 1)) \<or> openat_stage a d (low_word (Args d 1))
      else openat_stage a d (Nr d))"

lemma bpf_run_traced: "bpf_run (BpfProgram a) d = verdict (traced a d)"
proof -
  let ?tail = "TracingBlock (tracingSyscalls a) @ [BPF_STMT BPF_RET_K SECCOMP_RET_ALLOW]"
  have fcntl: "bpf_exec (FcntlBlock a @ ?tail) A d = verdict (fcntl_stage a d A)" for A
    by (simp add: fcntl_block tracing_block fcntl_stage_def listed_def verdict_def)
  have openat: "bpf_exec (OpenatBlock a @ FcntlBlock a @ ?tail) A d = verdict (openat_stage a d A)" for A
    by (simp add: openat_block fcntl openat_stage_def verdict_def)
  have block: "bpf_run (BpfProgram a) d =
      bpf_exec (OpenBlock a @ OpenatBlock a @ FcntlBlock a @ ?tail) (Nr d) d"
    by (simp add: bpf_run_def BpfProgram_def)
  show ?thesis
  proof (cases a)
    case X86_64
    show ?thesis
      using block openat [of "Nr d"] openat [of "low_word (Args d 1)"]
      by (simp add: X86_64 open_block traced_def verdict_def)
  next
    case AArch64
    show ?thesis
      using block openat [of "Nr d"] by (simp add: AArch64 open_block traced_def)
  qed
qed

lemma verdict_eqs [simp]:
  "verdict b = Some SECCOMP_RET_TRACE \<longleftrightarrow> b"
  "verdict b = Some SECCOMP_RET_ALLOW \<longleftrightarrow> \<not> b"
  by (simp_all add: verdict_def SECCOMP_RET_TRACE_def SECCOMP_RET_ALLOW_def)

text \<open>The numbers of the list, as 32-bit words.\<close>

lemma listed_numbers:
  "listed X86_64 A \<longleftrightarrow> A \<in> {85, 33, 1, 20, 296, 18, 328, 3, 32, 292, 285, 77, 8}"
  "listed AArch64 A \<longleftrightarrow> A \<in> {64, 66, 70, 68, 287, 57, 23, 24, 47, 46, 62}"
  by (simp_all add: listed_def tracingSyscalls_def sysno_defs)

lemma listed_traced: "listed a (Nr d) \<Longrightarrow> traced a d"
  by (cases a) (auto simp: traced_def openat_stage_def fcntl_stage_def listed_numbers sysno_defs)

section \<open>What the tracer misses when the filter allows a call\<close>

text \<open>The registers of a stop and the data of the filter describe the same system call.\<close>

definition same_call :: "arch \<Rightarrow> user_regs \<Rightarrow> seccomp_data \<Rightarrow> bool" where
  "same_call a regs d \<longleftrightarrow>
     SYSCALL_NR a regs = ucast (Nr d) \<and> Args d 1 = SYSCALL_ARG1 a regs \<and> Args d 2 = SYSCALL_ARG2 a regs"

lemma low_word_bits:
  "low_word w AND 1 = 0 \<longleftrightarrow> w AND 1 = 0"
  "low_word w AND 2 = 0 \<longleftrightarrow> w AND 2 = 0"
proof -
  show "low_word w AND 1 = 0 \<longleftrightarrow> w AND 1 = 0"
    using and_exp_eq_0_iff_not_bit [of "low_word w" 0] and_exp_eq_0_iff_not_bit [of w 0]
    by (simp add: low_word_def bit_ucast_iff)
  show "low_word w AND 2 = 0 \<longleftrightarrow> w AND 2 = 0"
    using and_exp_eq_0_iff_not_bit [of "low_word w" 1] and_exp_eq_0_iff_not_bit [of w 1]
    by (simp add: low_word_def bit_ucast_iff)
qed

lemma not_opens_for_writing:
  "\<not> opens_for_writing (low_word w) \<longleftrightarrow> w AND O_WRONLY = 0 \<and> w AND O_RDWR = 0"
  by (simp add: opens_for_writing_def low_word_bits open_flag_defs)

lemma not_fcntl_bits:
  assumes "\<not> fcntl_bits (low_word cmd)"
  shows "cmd \<noteq> F_DUPFD_CLOEXEC" "cmd \<noteq> F_SETFL" "cmd \<noteq> F_SETFD"
  using assms by (auto simp: fcntl_bits_def fcntl_defs low_word_def)

end
