(* ===== verification/Filtered.thy ===== *)
theory Filtered
  imports ContextRun Bpf
begin

text \<open>
  The tracer and the filter together: the calls that the filter lets pass are not seen by the tracer, and
  its tables end up as if it had seen all of them.
\<close>

section \<open>One call\<close>

lemma if_both: "(P \<Longrightarrow> A = r) \<Longrightarrow> (\<not> P \<Longrightarrow> B = r) \<Longrightarrow> (if P then A else B) = r"
  by simp

lemma unseen_call_is_ignored:
  assumes same: "same_call a regs d" and allowed: "bpf_run (BpfProgram a) d = Some SECCOMP_RET_ALLOW"
    and dupfd: "\<not> (SYSCALL_NR a regs = SYS_fcntl a \<and> SYSCALL_ARG1 a regs = F_DUPFD)"
  shows "SyscallExit a os pid regs c = Inr c"
proof -
  have nt: "\<not> traced a d"
    using allowed bpf_run_traced [of a d] by simp
  then have nl: "\<not> listed a (Nr d)"
    using listed_traced by blast
  have nr: "SYSCALL_NR a regs = ucast (Nr d)" and args: "Args d 1 = SYSCALL_ARG1 a regs" "Args d 2 = SYSCALL_ARG2 a regs"
    using same by (simp_all add: same_call_def)
  have nr': "Nr d = ucast (SYSCALL_NR a regs)"
    unfolding nr by (rule bit_word_eqI) (simp add: bit_ucast_iff)
  have unlisted: "(SYSCALL_NR a regs = n) = False" if "n \<in> set (tracingSyscalls a)" for n
    using that nl by (auto simp: listed_def nr')
  have names: "(SYSCALL_NR a regs = SYS_write a) = False" "(SYSCALL_NR a regs = SYS_writev a) = False"
    "(SYSCALL_NR a regs = SYS_pwritev a) = False" "(SYSCALL_NR a regs = SYS_pwrite64 a) = False"
    "(SYSCALL_NR a regs = SYS_pwritev2 a) = False" "(SYSCALL_NR a regs = SYS_close a) = False"
    "(SYSCALL_NR a regs = SYS_dup a) = False" "(SYSCALL_NR a regs = SYS_dup3 a) = False"
    "(SYSCALL_NR a regs = SYS_fallocate a) = False" "(SYSCALL_NR a regs = SYS_ftruncate a) = False"
    "(SYSCALL_NR a regs = SYS_lseek a) = False"
    by (rule unlisted; simp add: tracingSyscalls_def; fail)+
  have x86: "(a = X86_64 \<and> SYSCALL_NR a regs = SYS_creat) = False" "(a = X86_64 \<and> SYSCALL_NR a regs = SYS_dup2) = False"
    using unlisted [of SYS_creat] unlisted [of SYS_dup2] by (auto simp: tracingSyscalls_def)
  have opens: "OpOpenFile os pid ret (SYSCALL_ARG1 a regs) c = Inr c"
    if "a = X86_64 \<and> SYSCALL_NR a regs = SYS_open" for ret
  proof -
    have "SYSCALL_NR a regs = 2"
      using that unfolding SYS_open_def by (rule conjunct2)
    then have "Nr d = 2"
      unfolding nr' by simp
    then have "\<not> opens_for_writing (low_word (SYSCALL_ARG1 a regs))"
      using nt that args(1) by (simp add: traced_def)
    then show ?thesis
      by (simp add: not_opens_for_writing OpOpenFile_def)
  qed
  have stage: "\<not> openat_stage a d (Nr d)" if "\<not> (a = X86_64 \<and> SYSCALL_NR a regs = SYS_open)"
  proof -
    have "\<not> (a = X86_64 \<and> Nr d = 2)"
      using that by (auto simp: nr SYS_open_def)
    then have "traced a d = openat_stage a d (Nr d)"
      unfolding traced_def by (rule if_not_P)
    then show ?thesis
      using nt by simp
  qed
  have openat: "OpOpenFile os pid ret (SYSCALL_ARG2 a regs) c = Inr c"
    if "SYSCALL_NR a regs = SYS_openat a" for ret
  proof -
    have "\<not> (a = X86_64 \<and> SYSCALL_NR a regs = SYS_open)"
      using that by (auto simp: sysno_defs)
    then have "\<not> opens_for_writing (low_word (SYSCALL_ARG2 a regs))"
      using stage that args(2) by (simp add: openat_stage_def nr')
    then show ?thesis
      by (simp add: not_opens_for_writing OpOpenFile_def)
  qed
  have fcntl: "FcntlExit pid ret fd (SYSCALL_ARG1 a regs) arg c = Inr c"
    if "SYSCALL_NR a regs = SYS_fcntl a" for ret fd arg
  proof -
    have "\<not> (a = X86_64 \<and> SYSCALL_NR a regs = SYS_open)" "(ucast (SYS_fcntl a) :: u32) \<noteq> ucast (SYS_openat a)"
      using that by (cases a; auto simp: sysno_defs; fail)+
    then have "\<not> fcntl_bits (low_word (SYSCALL_ARG1 a regs))"
      using stage that args(1) by (simp add: openat_stage_def fcntl_stage_def nr')
    then show ?thesis
      using not_fcntl_bits dupfd that by (simp add: FcntlExit_def)
  qed
  show ?thesis
    unfolding SyscallExit_def Let_def names x86 simp_thms if_False if_cancel
    by (intro if_both refl; (rule opens openat fcntl, assumption)?)
qed

section \<open>All calls of a run\<close>

text \<open>
  A finished system call: who made it, the registers after it, what the filter was given at its start, and
  the state of the machine at its end.
\<close>

record finished_call =
  Caller :: pid
  AfterRegs :: user_regs
  FilterData :: seccomp_data
  AtExit :: os

text \<open>Every call stops the tracee, as without \<^verbatim>\<open>seccomp\<close>.\<close>

fun see_all :: "arch \<Rightarrow> finished_call list \<Rightarrow> tcontext \<Rightarrow> failure + tcontext" where
  "see_all a [] c = Inr c"
| "see_all a (k # ks) c = bindR (SyscallExit a (AtExit k) (Caller k) (AfterRegs k) c) (see_all a ks)"

text \<open>Only the calls that the filter wants traced do.\<close>

fun see_traced :: "arch \<Rightarrow> finished_call list \<Rightarrow> tcontext \<Rightarrow> failure + tcontext" where
  "see_traced a [] c = Inr c"
| "see_traced a (k # ks) c =
     (if bpf_run (BpfProgram a) (FilterData k) = Some SECCOMP_RET_TRACE
      then bindR (SyscallExit a (AtExit k) (Caller k) (AfterRegs k) c) (see_traced a ks)
      else see_traced a ks c)"

definition consistent_call :: "arch \<Rightarrow> finished_call \<Rightarrow> bool" where
  "consistent_call a k \<longleftrightarrow> same_call a (AfterRegs k) (FilterData k) \<and>
     \<not> (SYSCALL_NR a (AfterRegs k) = SYS_fcntl a \<and> SYSCALL_ARG1 a (AfterRegs k) = F_DUPFD)"

lemma see_traced_all: "list_all (consistent_call a) ks \<Longrightarrow> see_traced a ks c = see_all a ks c"
proof (induction ks arbitrary: c)
  case (Cons k ks)
  have k: "same_call a (AfterRegs k) (FilterData k)"
    "\<not> (SYSCALL_NR a (AfterRegs k) = SYS_fcntl a \<and> SYSCALL_ARG1 a (AfterRegs k) = F_DUPFD)"
    using Cons.prems by (simp_all add: consistent_call_def)
  show ?case
  proof (cases "traced a (FilterData k)")
    case True
    then have "bpf_run (BpfProgram a) (FilterData k) = Some SECCOMP_RET_TRACE"
      by (simp add: bpf_run_traced)
    then show ?thesis
      using Cons by (cases "SyscallExit a (AtExit k) (Caller k) (AfterRegs k) c") simp_all
  next
    case False
    then have allow: "bpf_run (BpfProgram a) (FilterData k) = Some SECCOMP_RET_ALLOW"
      by (simp add: bpf_run_traced)
    then have "see_traced a (k # ks) c = see_traced a ks c"
      by (simp add: SECCOMP_RET_ALLOW_def SECCOMP_RET_TRACE_def)
    then show ?thesis
      using Cons unseen_call_is_ignored [OF k(1) allow k(2)] by simp
  qed
qed simp

end
