(* ===== verification/ContextProps.thy ===== *)
theory ContextProps
  imports Conserve Filtered
begin

text \<open>
  Properties of \<^verbatim>\<open>TContext\<close>: what each operation does to the tables and to the accounting, and what
  the seccomp filter may hide from them. The witnesses use a small context: process 7 leads a table
  with one file, held by descriptors 1 and 2.
\<close>

section \<open>A concrete context\<close>

definition link_os :: os where
  "link_os = \<lparr>Stat = (\<lambda>_. Some 0), LinkTarget = (\<lambda>_. Some ''/tmp/new''), FileText = (\<lambda>_. None),
     WorkingDir = None, DirEntries = (\<lambda>_. None), FnMatch = (\<lambda>p n. p = n),
     FdFlags = (\<lambda>fd. -1), FdRegular = (\<lambda>fd. None), StatusReads = []\<rparr>"

definition demo_file :: file_state where
  "demo_file = \<lparr>MaxPos = 10, CurrPos = 10, Flags = O_WRONLY, InitSize = 4, Filename = ''out''\<rparr>"

definition demo_proc :: proc_state where
  "demo_proc = \<lparr>Fds = [None, Some 0, Some 0],
     ProcInfo = (0, \<lparr>Pid = 7, Ppid = 1, CommandName = ''cat'', CommandLine = ''cat x''\<rparr>)\<rparr>"

definition demo :: tcontext where
  "demo = install 7 0 (alloc_proc demo_proc (alloc_file demo_file (NewContext GetDefaults)))"

lemma demo_simps [simp]:
  "ProcMap demo = [(7, 0)]" "GroupLeaders demo = {7}" "fds_of demo 0 = [None, Some 0, Some 0]"
  "Files demo 0 = demo_file" "NextProc demo = 1" "NextFile demo = 1" "live demo = {0}" "held demo 0 = {0}"
  "Opts demo = GetDefaults" "FileStorage demo = NewFileStorage (-1) False"
  "ProcInfo (Procs demo 0) = (0, \<lparr>Pid = 7, Ppid = 1, CommandName = ''cat'', CommandLine = ''cat x''\<rparr>)"
  by (simp_all add: demo_def NewContext_def live_def held_def demo_proc_def addrs_Cons GetDefaults_def)

lemma demo_wf [simp]: "wf_ctx demo"
  by (rule wfI) (auto simp: NewFileStorage_ok)

lemma demo_led [simp]: "led demo"
  by (simp add: led_def)

lemma demo_Capacity [simp]: "Capacity (NewFileStorage (-1) False) = -1"
  by (simp add: NewFileStorage_def)

lemma demo_accounted: "accounted demo = 6"
  by (simp add: accounted_def live_files_def GetStorageOutputSize_def NewFileStorage_def GetOutputSize_def
      demo_file_def)

lemma demo_slots [simp]:
  "slot [None, Some (0::nat), Some 0] (Suc 0) = Some 0" "slot [None, Some (0::nat), Some 0] 2 = Some 0"
  by (simp_all add: slot_def)

section \<open>Vanishing and closing\<close>

text \<open>
  C13: A known process always vanishes: it is forgotten, the invariants hold, and the total that
  closing everything would give is the same as before.
\<close>

theorem vanish_keeps_the_total:
  assumes "wf_ctx c" "led c" "Capacity (FileStorage c) \<noteq> 0" and p: "map_of (ProcMap c) pid = Some p"
  shows "\<exists>c'. VanishProcess pid c = Inr c' \<and> map_of (ProcMap c') pid = None \<and> wf_ctx c' \<and> led c' \<and>
    accounted c' = accounted c"
  using VanishProcess_eq [OF assms(1) p] wf_vanished [OF assms(1)] led_vanished [OF assms(1,2) p]
    accounted_vanished [OF assms(1,2) p assms(3)] by (auto simp: delete_conv')

theorem vanish_keeps_the_total_witness:
  "\<exists>c'. VanishProcess 7 demo = Inr c' \<and> accounted c' = 6"
  using vanish_keeps_the_total [of demo 7 0] by (auto simp: demo_accounted)

text \<open>
  C14: When a group leader vanishes, every file that its table holds is handed to the storage exactly
  once, however many descriptors hold it, with its output and the process's info; when another thread
  vanishes, nothing is recorded.
\<close>

theorem leader_records_each_file_once:
  assumes "wf_ctx c" and p: "map_of (ProcMap c) pid = Some p" and v: "VanishProcess pid c = Inr c'"
  shows "\<exists>es. FileStorage c' = AddFileEntries es (FileStorage c) \<and>
    mset es = (if pid \<in> GroupLeaders c
      then image_mset (\<lambda>a. OutputOfFile (Files c a) (ProcInfo (Procs c p))) (mset_set (held c p)) else {#})"
proof -
  have c': "c' = vanished pid p c"
    using VanishProcess_eq [OF assms(1) p] v by simp
  let ?es = "closing_entries c (ProcInfo (Procs c p)) (fds_of c p)"
  have "mset (remdups (filled (fds_of c p))) = mset_set (held c p)"
    by (metis distinct_remdups held_def mset_set_set set_filled set_remdups)
  then have "mset ?es = image_mset (\<lambda>a. OutputOfFile (Files c a) (ProcInfo (Procs c p))) (mset_set (held c p))"
    by (simp add: closing_entries_def)
  then show ?thesis
    by (cases "pid \<in> GroupLeaders c") (auto simp: c' intro: exI [of _ ?es] exI [of _ "[]"])
qed

theorem leader_records_each_file_once_witness:
  "\<exists>c' es. VanishProcess 7 demo = Inr c' \<and> FileStorage c' = AddFileEntries es (NewFileStorage (-1) False) \<and>
    mset es = {# OutputOfFile demo_file (ProcInfo (Procs demo 0)) #}"
  using leader_records_each_file_once [of demo 7 0 "vanished 7 0 demo"] VanishProcess_eq [of demo 7 0] by auto

text \<open>
  C16: Closing a descriptor of a known process never fails and keeps the total; the descriptor is empty
  afterwards, every other descriptor of the table is untouched.
\<close>

theorem close_keeps_the_total:
  assumes "wf_ctx c" "Capacity (FileStorage c) \<noteq> 0" and p: "map_of (ProcMap c) pid = Some p"
  shows "\<exists>c'. OpClose pid fd c = Inr c' \<and> wf_ctx c' \<and> accounted c' = accounted c \<and>
    (\<forall>i. slot (fds_of c' p) i = (if i = unat fd then None else slot (fds_of c p) i))"
proof -
  obtain c' where c': "OpClose pid fd c = Inr c'"
    using OpClose_total [OF assms(1), of pid fd] p by auto
  have "slot (fds_of c' p) i = (if i = unat fd then None else slot (fds_of c p) i)" for i
    using c' OpClose_eq [OF assms(1) p, of fd]
    by (cases "slot (fds_of c p) (unat fd)") (auto simp: slot_update dest: slot_SomeD)
  with c' show ?thesis
    using OpClose_wf [OF assms(1) c'] OpClose_accounted [OF assms(1,2) c'] by blast
qed

theorem close_keeps_the_total_witness:
  "\<exists>c'. OpClose 7 1 demo = Inr c' \<and> accounted c' = 6 \<and> slot (fds_of c' 0) 2 = Some 0"
  using close_keeps_the_total [of demo 7 0 1] by (auto simp: demo_accounted)

text \<open>
  C15: \<^verbatim>\<open>dup2\<close> of an open descriptor to another number makes both name the same file, closes what the
  new number held, leaves every other descriptor, and keeps the total.
\<close>

theorem dup2_shares_the_file:
  assumes w: "wf_ctx c" and cap: "Capacity (FileStorage c) \<noteq> 0"
    and r: "OpDup2 pid oldfd newfd c = Inr (True, c')" and p: "map_of (ProcMap c) pid = Some p"
  shows "slot (fds_of c' p) (unat oldfd) \<noteq> None \<and>
    slot (fds_of c' p) (unat newfd) = slot (fds_of c' p) (unat oldfd) \<and>
    (\<forall>i. i \<noteq> unat newfd \<longrightarrow> slot (fds_of c' p) i = slot (fds_of c p) i) \<and>
    accounted c' = accounted c"
proof -
  have acc: "accounted c' = accounted c"
    by (rule OpDup2_accounted [OF w cap r])
  from w r show ?thesis
  proof (cases rule: OpDup2_cases)
    case (shared q a c1 v)
    have q: "q = p"
      using shared(4) p by simp
    have "slot (fds_of c1 p) i = slot (fds_of c p) i" if "i \<noteq> unat newfd" for i
      using shared(2) that OpClose_eq [OF w p, of newfd]
      by (cases "slot (fds_of c p) (unat newfd)") (auto simp: slot_update dest: slot_SomeD)
    then show ?thesis
      using shared acc by (auto simp: q)
  qed simp_all
qed

lemma demo_dup2: "\<exists>c'. OpDup2 7 1 4 demo = Inr (True, c')"
  by (simp add: OpDup2_def GetProcState_def store_fd_def grow_fds_def slot_def vec_resize_def)

theorem dup2_shares_the_file_witness:
  "\<exists>c'. OpDup2 7 1 4 demo = Inr (True, c') \<and> slot (fds_of c' 0) 4 = Some 0 \<and> accounted c' = 6"
  using demo_dup2 dup2_shares_the_file [of demo 7 1 4 _ 0] by (fastforce simp: demo_accounted)

text \<open>
  C12: Any interleaving of closing, duplicating, seeking, changing flags and vanishing, by whatever
  processes, leaves the total that the report would give as it was, and the context well formed.
\<close>

theorem quiet_runs_keep_the_total:
  assumes "wf_ctx c" "led c" "Capacity (FileStorage c) \<noteq> 0" "quiet_run calls c = Inr c'"
  shows "wf_ctx c' \<and> led c' \<and> accounted c' = accounted c"
  using quiet_run_balance [OF balancedI [OF assms(1-3)] assms(4)] by (simp add: balanced_def)

lemma demo_quiet_run: "\<exists>c'. quiet_run [Close 7 2, Seek 7 1 0, Vanish 7] demo = Inr c'"
proof -
  obtain c1 where c1: "OpClose 7 2 demo = Inr c1"
    using OpClose_total [OF demo_wf, of 7 2] by auto
  have w1: "wf_ctx c1" and m1: "ProcMap c1 = [(7, 0)]"
    using OpClose_wf [OF demo_wf c1] OpClose_frame(1) [OF demo_wf c1] by simp_all
  obtain c2 where c2: "OpSeek 7 1 0 c1 = Inr c2"
    using on_fd_total [of c1 7 1 "SetCurrPos 0"] m1 by (auto simp: OpSeek_def)
  then have "wf_ctx c2" "map_of (ProcMap c2) 7 = Some 0"
    using on_fd_wf [OF w1] on_fd_frame m1 by (fastforce simp: OpSeek_def)+
  then have "VanishProcess 7 c2 = Inr (vanished 7 0 c2)"
    by (rule VanishProcess_eq)
  then show ?thesis
    using c1 c2 by simp
qed

theorem quiet_runs_keep_the_total_witness:
  "\<exists>c'. quiet_run [Close 7 2, Seek 7 1 0, Vanish 7] demo = Inr c' \<and> accounted c' = 6"
  using demo_quiet_run quiet_runs_keep_the_total [OF demo_wf demo_led] by (fastforce simp: demo_accounted)

section \<open>Writing and seeking\<close>

text \<open>
  A write to a descriptor that is open for writing moves that file's state as \<^verbatim>\<open>Enroll\<close> does, and
  the total grows by the growth of this file's output; on any other descriptor nothing changes.
\<close>

theorem write_is_credited:
  assumes p: "map_of (ProcMap c) pid = Some p"
  shows "case slot (fds_of c p) (unat fd) of
      None \<Rightarrow> OpWriteChangeOffset pid fd n c = Inr c
    | Some a \<Rightarrow> \<exists>c'. OpWriteChangeOffset pid fd n c = Inr c' \<and> Files c' = (Files c)(a := Enroll n (Files c a)) \<and>
        fds_of c' = fds_of c \<and>
        accounted c' = accounted c + (GetOutputSize (Enroll n (Files c a)) - GetOutputSize (Files c a))"
proof (cases "slot (fds_of c p) (unat fd)")
  case None
  then show ?thesis
    using p by (simp add: OpWriteChangeOffset_def on_fd_def GetProcState_def)
next
  case (Some a)
  then show ?thesis
    using p accounted_upd_file [OF slot_live_file [OF p Some], of "Enroll n"]
    by (simp add: OpWriteChangeOffset_def on_fd_def GetProcState_def)
qed

theorem write_is_credited_witness:
  "\<exists>c'. OpWriteChangeOffset 7 1 5 demo = Inr c' \<and> accounted c' = 11"
proof -
  have "GetOutputSize (Enroll 5 demo_file) - GetOutputSize demo_file = 5"
    by (simp add: demo_file_def Enroll_def GetOutputSize_def)
  then show ?thesis
    using write_is_credited [of demo 7 0 1 5] by (auto simp: demo_accounted)
qed

text \<open>
  C37: A system call that fails (a result between \<open>-4095\<close> and \<open>-1\<close>) leaves the context as it is,
  except \<^verbatim>\<open>close\<close>, after which the descriptor is gone on Linux too.
\<close>

theorem failed_call_changes_nothing:
  assumes "- 4095 \<le> sint (SYSCALL_RETDATA a regs)" "sint (SYSCALL_RETDATA a regs) < 0"
    and "SYSCALL_NR a regs \<noteq> SYS_close a"
  shows "SyscallExit a os pid regs c = Inr c"
  by (rule failed_call_skips [OF assms])

definition call_regs :: "u64 \<Rightarrow> u64 \<Rightarrow> u64 \<Rightarrow> u64 \<Rightarrow> u64 \<Rightarrow> user_regs" where
  "call_regs nr ret a0 a1 a2 = (\<lambda>_. 0)(ORIG_RAX := nr, RAX := ret, RDI := a0, RSI := a1, RDX := a2)"

lemma call_regs_simps [simp]:
  "SYSCALL_NR X86_64 (call_regs nr ret a0 a1 a2) = nr"
  "SYSCALL_RETDATA X86_64 (call_regs nr ret a0 a1 a2) = ret"
  "SYSCALL_ARG0 X86_64 (call_regs nr ret a0 a1 a2) = a0"
  "SYSCALL_ARG1 X86_64 (call_regs nr ret a0 a1 a2) = a1"
  "SYSCALL_ARG2 X86_64 (call_regs nr ret a0 a1 a2) = a2"
  by (simp_all add: call_regs_def SYSCALL_NR_def SYSCALL_RETDATA_def SYSCALL_ARG0_def SYSCALL_ARG1_def
      SYSCALL_ARG2_def reg_defs)

theorem failed_call_changes_nothing_witness:
  "SyscallExit X86_64 link_os 7 (call_regs 1 (- 9) 1 0 5) demo = Inr demo"
  by (rule failed_call_changes_nothing) (simp_all add: sysno_defs)

text \<open>
  C40: A successful \<^verbatim>\<open>lseek\<close> to an offset from \<open>2 ^ 31\<close> up to \<open>2 ^ 32 - 1\<close> is taken for a failure, because
  its result is cast to \<^verbatim>\<open>int\<close>: the tracked offset stays where it was.
\<close>

theorem large_seek_is_ignored:
  assumes "2 ^ 31 \<le> unat (SYSCALL_RETDATA a regs)" "unat (SYSCALL_RETDATA a regs) < 2 ^ 32"
    and "SYSCALL_NR a regs = SYS_lseek a"
  shows "SyscallExit a os pid regs c = Inr c"
proof -
  let ?w = "SYSCALL_RETDATA a regs"
  have "unat ?w div 2 ^ 31 = 1"
    using assms(1,2) by (simp add: div_nat_eqI)
  then have "bit (unat ?w) 31"
    by (simp add: bit_iff_odd)
  then have "bit (ucast ?w :: u32) (LENGTH(32) - Suc 0)"
    by (simp add: bit_ucast_iff bit_unsigned_iff)
  then have "sint (ucast ?w :: u32) < 0"
    by (simp only: bit_last_iff)
  then have "\<not> 0 \<le> as_int ?w"
    by (simp add: as_int_def)
  then show ?thesis
    using assms(3) by (cases a) (simp_all add: SyscallExit_def Let_def sysno_defs)
qed

theorem large_seek_is_ignored_witness:
  "SyscallExit X86_64 link_os 7 (call_regs 8 0x80000000 1 0x80000000 0) demo = Inr demo"
  by (rule large_seek_is_ignored) (simp_all add: sysno_defs)

section \<open>Flags\<close>

text \<open>
  \<^verbatim>\<open>fcntl(fd, F_SETFD, FD_CLOEXEC)\<close> overwrites the open flags of the file with the descriptor
  flags: afterwards the file counts neither as close-on-exec nor as opened for appending, whatever it
  was before.
\<close>

theorem set_descriptor_flags_loses_open_flags:
  assumes p: "map_of (ProcMap c) pid = Some p" and a: "slot (fds_of c p) (unat (SYSCALL_ARG0 X86_64 regs)) = Some a"
    and "SYSCALL_NR X86_64 regs = SYS_fcntl X86_64" "SYSCALL_RETDATA X86_64 regs = 0"
    and "SYSCALL_ARG1 X86_64 regs = F_SETFD" "SYSCALL_ARG2 X86_64 regs = FD_CLOEXEC"
  shows "\<exists>c'. SyscallExit X86_64 os pid regs c = Inr c' \<and>
    \<not> IsCloexecSet (Files c' a) \<and> \<not> IsAppendSet (Files c' a)"
proof -
  have "SyscallExit X86_64 os pid regs c = OpSetFlag pid (SYSCALL_ARG0 X86_64 regs) FD_CLOEXEC c"
    using assms(3-6) by (simp add: SyscallExit_def Let_def sysno_defs FcntlExit_def fcntl_defs as_int_def)
  also have "\<dots> = Inr (upd_file a (SetFlags FD_CLOEXEC) c)"
    using p a by (simp add: OpSetFlag_def on_fd_def GetProcState_def)
  finally show ?thesis
    using SetFlags_descriptor_flags by simp
qed

theorem set_descriptor_flags_loses_open_flags_witness:
  "\<exists>c'. SyscallExit X86_64 link_os 7 (call_regs 72 0 1 2 1) demo = Inr c' \<and> \<not> IsCloexecSet (Files c' 0)"
  using set_descriptor_flags_loses_open_flags [of demo 7 0 "call_regs 72 0 1 2 1" 0 link_os]
  by (auto simp: sysno_defs fcntl_defs FD_CLOEXEC_def)

text \<open>
  \<^verbatim>\<open>dup3\<close> with \<^verbatim>\<open>O_CLOEXEC\<close> marks the shared file state, so the old descriptor, which Linux
  leaves open across \<^verbatim>\<open>execve\<close>, counts as close-on-exec too.
\<close>

theorem dup3_marks_the_old_descriptor:
  assumes w: "wf_ctx c" and r: "OpDup3 pid oldfd newfd O_CLOEXEC c = Inr (True, c')"
    and p: "map_of (ProcMap c) pid = Some p"
  shows "\<exists>a. slot (fds_of c' p) (unat oldfd) = Some a \<and> slot (fds_of c' p) (unat newfd) = Some a \<and>
    IsCloexecSet (Files c' a)"
  using r
proof (rule OpDup3_effect [OF w])
  fix q a c1
  assume d: "OpDup2 pid oldfd newfd c = Inr (True, c1)" and q: "map_of (ProcMap c1) pid = Some q"
    and a: "slot (fds_of c1 q) (unat newfd) = Some a"
    and c': "c' = upd_file a (SetCloexecFlag (O_CLOEXEC AND O_CLOEXEC \<noteq> 0)) c1"
  have pq: "q = p"
    using q p OpDup2_frame(1) [OF w d] by simp
  have old: "slot (fds_of c1 p) (unat oldfd) = Some a"
    using w d
  proof (cases rule: OpDup2_cases)
    case (shared q' b c2 v)
    then show ?thesis
      using p a by (auto simp: pq)
  qed simp_all
  have "IsCloexecSet (SetCloexecFlag True (Files c1 a))"
    by (simp add: IsCloexecSet_bit SetCloexecFlag_bit)
  moreover have "O_CLOEXEC AND O_CLOEXEC \<noteq> 0"
    by (simp add: O_CLOEXEC_def)
  ultimately show ?thesis
    using old a by (simp add: c' pq)
qed simp

lemma demo_dup3: "\<exists>c'. OpDup3 7 1 4 O_CLOEXEC demo = Inr (True, c')"
  by (simp add: OpDup3_def OpDup_def OpDup2_def GetProcState_def store_fd_def grow_fds_def slot_def vec_resize_def)

theorem dup3_marks_the_old_descriptor_witness:
  "\<exists>c' a. OpDup3 7 1 4 O_CLOEXEC demo = Inr (True, c') \<and> slot (fds_of c' 0) 1 = Some a \<and> IsCloexecSet (Files c' a)"
  using demo_dup3 dup3_marks_the_old_descriptor [of demo 7 1 4 _ 0] by fastforce

section \<open>New processes, threads and programs\<close>

lemma inherits_copies:
  assumes "inherits os (\<lambda>_. True) c fds c1 newfds" "\<And>a. a \<in> held c p \<Longrightarrow> a < NextFile c"
  shows "case slot fds i of
      None \<Rightarrow> slot newfds i = None
    | Some a \<Rightarrow> \<exists>b. slot newfds i = Some b \<and> b \<notin> held c p \<and> Files c1 b = CopyFileState (Stat os) (Files c a)"
proof -
  have i: "inherited os (\<lambda>_. True) c c1 (slot fds i) (slot newfds i)"
    using assms(1) by (simp add: inherits_def)
  show ?thesis
  proof (cases "slot fds i")
    case (Some a)
    with i obtain b where b: "slot newfds i = Some b" "NextFile c \<le> b"
      "Files c1 b = CopyFileState (Stat os) (Files c a)"
      by (auto simp: inherited_def)
    have "b \<notin> held c p"
      using assms(2) [of b] b(2) by auto
    with Some b show ?thesis
      by simp
  qed (use i in simp)
qed

text \<open>
  C17: A forked child leads a table of its own: each descriptor of the parent has a copy with the
  parent's offset and flags, measured against the file's length now, no two descriptors share one, and
  the parent's table and files are as before.
\<close>

theorem fork_copies_every_descriptor:
  assumes w: "wf_ctx c" and r: "RegisterProcess os parent child c = Inr c'"
    and p: "map_of (ProcMap c) parent = Some p"
  shows "\<exists>q. map_of (ProcMap c') child = Some q \<and> q \<noteq> p \<and> child \<in> GroupLeaders c' \<and>
    fds_of c' p = fds_of c p \<and> (\<forall>a\<in>held c p. Files c' a = Files c a) \<and>
    (\<forall>i. case slot (fds_of c p) i of
        None \<Rightarrow> slot (fds_of c' q) i = None
      | Some a \<Rightarrow> \<exists>b. slot (fds_of c' q) i = Some b \<and> b \<notin> held c p \<and>
          Files c' b = CopyFileState (Stat os) (Files c a)) \<and>
    (\<forall>i j b. slot (fds_of c' q) i = Some b \<longrightarrow> slot (fds_of c' q) j = Some b \<longrightarrow> i = j)"
  using r
proof (rule RegisterProcess_cases [OF w])
  fix p' newfds c1
  assume p': "map_of (ProcMap c) parent = Some p'" and "map_of (ProcMap c) child = None"
    and inh: "inherits os (\<lambda>_. True) c (fds_of c p') c1 newfds" and new: "only_new_files c c1"
    and c': "c' = install child (NextProc c) (alloc_proc ((NewProcState os c child parent)\<lparr>Fds := newfds\<rparr>) c1)"
  have pp: "p' = p"
    using p p' by simp
  note n = new [unfolded only_new_files_def]
  have lt: "p < NextProc c" "\<And>a. a \<in> held c p \<Longrightarrow> a < NextFile c"
    using wfD(1,2) [OF w map_of_live [OF p]] by auto
  have fds: "fds_of c' (NextProc c) = newfds" "fds_of c' p = fds_of c p"
    using n lt(1) only_new_files_fds [OF new] by (simp_all add: c')
  have copies: "case slot (fds_of c p) i of
        None \<Rightarrow> slot newfds i = None
      | Some a \<Rightarrow> \<exists>b. slot newfds i = Some b \<and> b \<notin> held c p \<and> Files c' b = CopyFileState (Stat os) (Files c a)" for i
    using inherits_copies [OF inh [unfolded pp] lt(2), of p i] by (auto simp: c' split: option.splits)
  have "map_of (ProcMap c') child = Some (NextProc c)" "child \<in> GroupLeaders c'"
    "\<forall>a\<in>held c p. Files c' a = Files c a"
    using n lt(2) by (auto simp: c' update_conv')
  moreover have "\<forall>i j b. slot newfds i = Some b \<longrightarrow> slot newfds j = Some b \<longrightarrow> i = j"
    using inh by (simp add: inherits_def)
  moreover have "NextProc c \<noteq> p"
    using lt(1) by simp
  ultimately show ?thesis
    using copies fds(2) unfolding fds(1) [symmetric] by blast
qed

lemma demo_fork: "\<exists>c'. RegisterProcess os 7 9 demo = Inr c'"
  by (simp add: RegisterProcess_def GetProcState_def Let_def split: prod.splits)

theorem fork_copies_every_descriptor_witness:
  "\<exists>c' q b. RegisterProcess link_os 7 9 demo = Inr c' \<and> map_of (ProcMap c') 9 = Some q \<and> slot (fds_of c' q) 2 = Some b \<and>
    Files c' b = CopyFileState (Stat link_os) demo_file"
proof -
  obtain c' where r: "RegisterProcess link_os 7 9 demo = Inr c'"
    using demo_fork by blast
  obtain q where q: "map_of (ProcMap c') 9 = Some q"
    and all: "\<forall>i. case slot (fds_of demo 0) i of None \<Rightarrow> slot (fds_of c' q) i = None
      | Some a \<Rightarrow> \<exists>b. slot (fds_of c' q) i = Some b \<and> b \<notin> held demo 0 \<and>
          Files c' b = CopyFileState (Stat link_os) (Files demo a)"
    using fork_copies_every_descriptor [OF demo_wf r, of 0] by auto
  show ?thesis
    using r q all [rule_format, of 2] by auto
qed

text \<open>
  C18: After \<^verbatim>\<open>execve\<close> the process has a new table with a copy of exactly the descriptors whose file is
  not close-on-exec.
\<close>

theorem exec_keeps_what_is_not_cloexec:
  assumes w: "wf_ctx c" and r: "RegisterExec os pid c = Inr c'" and p: "map_of (ProcMap c) pid = Some p"
  shows "\<exists>q. map_of (ProcMap c') pid = Some q \<and> pid \<in> GroupLeaders c' \<and>
    (\<forall>i. case slot (fds_of c p) i of
        None \<Rightarrow> slot (fds_of c' q) i = None
      | Some a \<Rightarrow> if IsCloexecSet (Files c a) then slot (fds_of c' q) i = None
          else \<exists>b. slot (fds_of c' q) i = Some b \<and> Files c' b = CopyFileState (Stat os) (Files c a))"
  using r
proof (rule RegisterExec_cases [OF w])
  fix p' newfds c1 ps
  assume p': "map_of (ProcMap c) pid = Some p'"
    and inh: "inherits os (\<lambda>f. \<not> IsCloexecSet f) c (fds_of c p') c1 newfds" and new: "only_new_files c c1"
    and ps: "ps = (NewProcState os c pid (Ppid (snd (ProcInfo (Procs c p')))))\<lparr>Fds := newfds\<rparr>"
    and c': "c' = install pid (NextProc c) (vanished pid p' (alloc_proc ps c1))"
  have pp: "p' = p"
    using p p' by simp
  note n = new [unfolded only_new_files_def]
  have "p < NextProc c"
    using wfD(1) [OF w map_of_live [OF p]] .
  then have fds: "fds_of c' (NextProc c) = newfds"
    using n by (simp add: c' pp vanished_def Let_def ps fds_of_def set_fds_def alloc_proc_def recorded_def)
  have "case slot (fds_of c p) i of
        None \<Rightarrow> slot newfds i = None
      | Some a \<Rightarrow> if IsCloexecSet (Files c a) then slot newfds i = None
          else \<exists>b. slot newfds i = Some b \<and> Files c' b = CopyFileState (Stat os) (Files c a)" for i
  proof -
    have "inherited os (\<lambda>f. \<not> IsCloexecSet f) c c1 (slot (fds_of c p) i) (slot newfds i)"
      using inh by (simp add: inherits_def pp)
    then show ?thesis
      by (auto simp: inherited_def c' split: option.splits)
  qed
  moreover have "map_of (ProcMap c') pid = Some (NextProc c)" "pid \<in> GroupLeaders c'"
    by (simp_all add: c' update_conv')
  ultimately show ?thesis
    unfolding fds [symmetric] by blast
qed

lemma demo_exec: "\<exists>c'. RegisterExec os 7 demo = Inr c'"
proof -
  obtain newfds c1 where copy: "copy_table os (\<lambda>f. \<not> IsCloexecSet f) (GetHighestFd demo (fds_of demo 0) True)
      (fds_of demo 0) demo = (newfds, c1)"
    by fastforce
  let ?ps = "(NewProcState os demo 7 (Ppid (snd (ProcInfo (Procs demo 0)))))\<lparr>Fds := newfds\<rparr>"
  have new: "only_new_files demo c1"
    using copy_table_inherits(2) [of "fds_of demo 0" demo os True newfds c1] copy by (simp add: addrs_Cons)
  have "wf_ctx (alloc_proc ?ps c1)" "map_of (ProcMap (alloc_proc ?ps c1)) 7 = Some 0"
    using alloc_proc_wf [OF only_new_files_wf [OF new demo_wf]] new by (simp_all add: only_new_files_def)
  from VanishProcess_eq [OF this] show ?thesis
    using copy by (simp add: RegisterExec_def GetProcState_def)
qed

theorem exec_keeps_what_is_not_cloexec_witness:
  "\<exists>c' q b. RegisterExec link_os 7 demo = Inr c' \<and> map_of (ProcMap c') 7 = Some q \<and> slot (fds_of c' q) 2 = Some b"
proof -
  obtain c' where r: "RegisterExec link_os 7 demo = Inr c'"
    using demo_exec by blast
  obtain q where q: "map_of (ProcMap c') 7 = Some q"
    and all: "\<forall>i. case slot (fds_of demo 0) i of None \<Rightarrow> slot (fds_of c' q) i = None
      | Some a \<Rightarrow> if IsCloexecSet (Files demo a) then slot (fds_of c' q) i = None
          else \<exists>b. slot (fds_of c' q) i = Some b \<and> Files c' b = CopyFileState (Stat link_os) (Files demo a)"
    using exec_keeps_what_is_not_cloexec [OF demo_wf r, of 0] by auto
  have "\<not> IsCloexecSet demo_file"
    by (simp add: IsCloexecSet_def demo_file_def open_flag_defs)
  then show ?thesis
    using r q all [rule_format, of 2] by auto
qed

text \<open>
  C19: A thread registered by \<^verbatim>\<open>clone\<close> with \<^verbatim>\<open>CLONE_THREAD\<close> uses the very table of its creator: any
  operation on a descriptor gives the same for both, and the total is as before.
\<close>

theorem threads_share_the_table:
  assumes w: "wf_ctx c" and r: "RegisterThread pid thread c = Inr c'"
    and fresh: "map_of (ProcMap c) thread = None"
  shows "GetProcState c' thread = GetProcState c' pid \<and> on_fd thread fd f c' = on_fd pid fd f c' \<and>
    OpClose thread fd c' = OpClose pid fd c' \<and> accounted c' = accounted c"
proof -
  obtain p where p: "map_of (ProcMap c) pid = Some p"
    and c': "c' = c\<lparr>ProcMap := AList.update thread p (ProcMap c)\<rparr>"
    using r by (cases "map_of (ProcMap c) pid") (auto simp: RegisterThread_def)
  have "GetProcState c' thread = GetProcState c' pid"
    using p by (simp add: GetProcState_def c' update_conv')
  then show ?thesis
    using RegisterThread_accounted [OF w r fresh] by (simp add: on_fd_def OpClose_def)
qed

theorem threads_share_the_table_witness:
  "\<exists>c'. RegisterThread 7 8 demo = Inr c' \<and> OpClose 8 1 c' = OpClose 7 1 c' \<and> accounted c' = 6"
proof -
  have "RegisterThread 7 8 demo = Inr (demo\<lparr>ProcMap := AList.update 8 0 (ProcMap demo)\<rparr>)"
    by (simp add: RegisterThread_def)
  then show ?thesis
    using threads_share_the_table [of demo 7 8 _ 1 id] by (auto simp: demo_accounted)
qed

section \<open>System calls\<close>

text \<open>
  C22: Whatever system call returns, and with whatever registers, handling it keeps the context well
  formed, the set of processes and leaders, and, for a process whose table has a leader, that every
  table with an open file has one.
\<close>

theorem syscall_keeps_the_invariants:
  assumes w: "wf_ctx c" and l: "led c" and r: "SyscallExit a os pid regs c = Inr c'"
    and p: "map_of (ProcMap c) pid = Some p" "has_leader c p"
  shows "wf_ctx c' \<and> led c' \<and> ProcMap c' = ProcMap c \<and> GroupLeaders c' = GroupLeaders c \<and> config c' = config c"
  using SyscallExit_wf [OF w r] SyscallExit_led [OF w l r] SyscallExit_frame [OF w r] SyscallExit_config [OF w r] p
  by auto

lemma demo_close: "\<exists>c'. SyscallExit X86_64 os 7 (call_regs 3 0 1 0 0) demo = Inr c'"
  using OpClose_total [OF demo_wf, of 7 1] by (simp add: SyscallExit_def Let_def sysno_defs)

theorem syscall_keeps_the_invariants_witness:
  "\<exists>c'. SyscallExit X86_64 link_os 7 (call_regs 3 0 1 0 0) demo = Inr c' \<and> wf_ctx c' \<and> led c'"
  using demo_close [of link_os] syscall_keeps_the_invariants [of demo X86_64 link_os 7 "call_regs 3 0 1 0 0" _ 0]
  by (auto simp: has_leader_def)

text \<open>
  A file opened for writing gets the descriptor that the system call returned: the descriptor
  names a new state for the link's target, which counts nothing yet, and when nothing was known under
  that number the total is as before.
\<close>

theorem open_names_a_new_state:
  assumes w: "wf_ctx c" and r: "OpOpenWriteFile os pid fd flags c = Inr c'"
    and p: "map_of (ProcMap c) pid = Some p" and free: "slot (fds_of c p) (unat fd) = None"
  shows "\<exists>filename a. LinkTarget os (''/proc/'' @ show_int pid @ ''/fd/'' @ show_nat (unat fd)) = Some filename \<and>
    slot (fds_of c' p) (unat fd) = Some a \<and> Files c' a = NewFileState (Stat os) filename flags \<and>
    (\<forall>i. i \<noteq> unat fd \<longrightarrow> slot (fds_of c' p) i = slot (fds_of c p) i) \<and> accounted c' = accounted c"
proof -
  have acc: "accounted c' = accounted c"
    by (rule OpOpenWriteFile_accounted [OF w r]) (use p free in auto)
  show ?thesis
    using r
  proof (rule OpOpenWriteFile_cases)
    fix q filename ks v
    assume q: "map_of (ProcMap c) pid = Some q"
      and link: "LinkTarget os (''/proc/'' @ show_int pid @ ''/fd/'' @ show_nat (unat fd)) = Some filename"
      and c': "c' = set_fds q v (alloc_file (NewFileState (Stat os) filename flags) (c\<lparr>Kills := ks\<rparr>))"
      and v: "\<And>i. slot v i = (if i = unat fd then Some (NextFile c) else slot (fds_of c q) i)"
    have "fds_of c' p = v" "Files c' (NextFile c) = NewFileState (Stat os) filename flags" "q = p"
      using p q by (simp_all add: c')
    then show ?thesis
      using link v acc by (intro exI [of _ filename] exI [of _ "NextFile c"]) simp
  qed
qed

lemma demo_open: "\<exists>c'. OpOpenWriteFile link_os 7 4 O_WRONLY demo = Inr c'"
  by (simp add: OpOpenWriteFile_def GetProcState_def ReadLink_def link_os_def grow_fds_def store_fd_def
      vec_resize_def Let_def GetDefaults_def)

theorem open_names_a_new_state_witness:
  "\<exists>c' a. OpOpenWriteFile link_os 7 4 O_WRONLY demo = Inr c' \<and> slot (fds_of c' 0) 4 = Some a \<and>
    Filename (Files c' a) = ''/tmp/new'' \<and> accounted c' = 6"
proof -
  obtain c' where r: "OpOpenWriteFile link_os 7 4 O_WRONLY demo = Inr c'"
    using demo_open by blast
  have "slot (fds_of demo 0) (unat (4 :: u64)) = None"
    by (simp add: slot_def)
  from open_names_a_new_state [OF demo_wf r _ this] r show ?thesis
    by (auto simp: demo_accounted link_os_def)
qed

section \<open>The seccomp filter\<close>

text \<open>
  C35: The filter reaches a decision for every system call, one of two: to trace it, exactly when one
  of the stages says so, or to allow it.
\<close>

theorem filter_always_decides:
  "bpf_run (BpfProgram a) d = Some (if traced a d then SECCOMP_RET_TRACE else SECCOMP_RET_ALLOW)"
  using bpf_run_traced [of a d] by (simp add: verdict_def)

definition call_data :: "u32 \<Rightarrow> u64 \<Rightarrow> u64 \<Rightarrow> seccomp_data" where
  "call_data nr a1 a2 =
     \<lparr>Nr = nr, AuditArch = 0, InstructionPointer = 0, Args = (\<lambda>_. 0)(1 := a1, 2 := a2)\<rparr>"

text \<open>
  C20: A call that the filter lets pass unseen would not have changed the context, with one exception:
  \<^verbatim>\<open>fcntl\<close> with \<^verbatim>\<open>F_DUPFD\<close>.
\<close>

theorem allowed_call_is_ignored:
  assumes same: "same_call a regs d" and allowed: "bpf_run (BpfProgram a) d = Some SECCOMP_RET_ALLOW"
    and dupfd: "\<not> (SYSCALL_NR a regs = SYS_fcntl a \<and> SYSCALL_ARG1 a regs = F_DUPFD)"
  shows "SyscallExit a os pid regs c = Inr c"
  by (rule unseen_call_is_ignored [OF assms])

theorem allowed_call_is_ignored_witness:
  "SyscallExit X86_64 link_os 7 (call_regs 257 3 0 0 64) demo = Inr demo"
proof (rule allowed_call_is_ignored [where d = "call_data 257 0 64"])
  have "\<not> traced X86_64 (call_data 257 0 64)"
    by (simp add: traced_def openat_stage_def fcntl_stage_def listed_numbers opens_for_writing_def call_data_def
        low_word_def sysno_defs)
  then show "bpf_run (BpfProgram X86_64) (call_data 257 0 64) = Some SECCOMP_RET_ALLOW"
    by (simp add: bpf_run_traced)
qed (simp_all add: same_call_def call_data_def sysno_defs)


text \<open>Two calls of process 7: \<^verbatim>\<open>openat\<close> for reading, which is not seen, and \<^verbatim>\<open>close\<close>, which is.\<close>

definition demo_calls :: "finished_call list" where
  "demo_calls =
     [\<lparr>Caller = 7, AfterRegs = call_regs 257 3 0 0 64, FilterData = call_data 257 0 64, AtExit = link_os\<rparr>,
      \<lparr>Caller = 7, AfterRegs = call_regs 3 0 1 0 0, FilterData = call_data 3 0 0, AtExit = link_os\<rparr>]"


text \<open>
  C36: On x86-64 \<^verbatim>\<open>fcntl\<close> with \<^verbatim>\<open>F_DUPFD\<close> is never traced, because no bit of \<^verbatim>\<open>F_DUPFD = 0\<close> can be
  set, although its handler would duplicate the descriptor; \<^verbatim>\<open>F_GETFD\<close>, which no handler wants, is
  traced, because the command left in the accumulator is the number of \<^verbatim>\<open>write\<close>.
\<close>

theorem dupfd_is_not_traced:
  assumes "Nr d = ucast (SYS_fcntl X86_64)"
  shows "(low_word (Args d 1) = ucast F_DUPFD \<longrightarrow> bpf_run (BpfProgram X86_64) d = Some SECCOMP_RET_ALLOW) \<and>
    (low_word (Args d 1) = ucast F_GETFD \<longrightarrow> bpf_run (BpfProgram X86_64) d = Some SECCOMP_RET_TRACE)"
proof -
  have "traced X86_64 d = (fcntl_bits (low_word (Args d 1)) \<or> listed X86_64 (low_word (Args d 1)))"
    using assms by (simp add: traced_def openat_stage_def fcntl_stage_def sysno_defs)
  then show ?thesis
    by (auto simp: bpf_run_traced listed_numbers fcntl_bits_def fcntl_defs)
qed

theorem dupfd_is_not_traced_witness:
  "bpf_run (BpfProgram X86_64) (call_data 72 0 0) = Some SECCOMP_RET_ALLOW \<and>
   bpf_run (BpfProgram X86_64) (call_data 72 1 0) = Some SECCOMP_RET_TRACE"
  using dupfd_is_not_traced [of "call_data 72 0 0"] dupfd_is_not_traced [of "call_data 72 1 0"]
  by (simp add: call_data_def sysno_defs fcntl_defs low_word_def)

end
