(* ===== verification/Progress.thy ===== *)
theory Progress
  imports TracerRun
begin

text \<open>
  When a turn can fail, and that it cannot as long as the kernel behaves as documented: every request is
  answered or refused because its thread is gone, only threads that were announced exit, descriptors
  have readable links. Each operation of the context is total on known processes; the results of
  \<^verbatim>\<open>turn_ok\<close> and \<^verbatim>\<open>turn_led\<close> keep the conditions for the next turn.
\<close>

section \<open>The operations of the context are total on known processes\<close>

named_theorems total_rules \<open>calls that return\<close>

lemma knownE:
  assumes "map_of (ProcMap c) pid \<noteq> None"
  obtains p where "map_of (ProcMap c) pid = Some p"
  using assms by auto

declare on_fd_total [total_rules]

lemma VanishProcess_total [total_rules]:
  "wf_ctx c \<Longrightarrow> map_of (ProcMap c) pid \<noteq> None \<Longrightarrow> \<exists>c'. VanishProcess pid c = Inr c'"
  using VanishProcess_eq by blast

lemma RegisterThread_total [total_rules]:
  "map_of (ProcMap c) pid \<noteq> None \<Longrightarrow> \<exists>c'. RegisterThread pid thread c = Inr c'"
  by (auto simp: RegisterThread_def split: option.splits)

lemma RegisterProcess_total [total_rules]:
  "map_of (ProcMap c) parent \<noteq> None \<Longrightarrow> map_of (ProcMap c) child = None \<Longrightarrow>
    \<exists>c'. RegisterProcess os parent child c = Inr c'"
  by (auto simp: RegisterProcess_def GetProcState_def Let_def split: prod.splits)

lemma RegisterExec_total [total_rules]:
  assumes w: "wf_ctx c" and "map_of (ProcMap c) pid \<noteq> None"
  shows "\<exists>c'. RegisterExec os pid c = Inr c'"
proof -
  obtain p where p: "map_of (ProcMap c) pid = Some p"
    using assms(2) by (rule knownE)
  obtain newfds c1 where copy:
    "copy_table os (\<lambda>f. \<not> IsCloexecSet f) (GetHighestFd c (fds_of c p) True) (fds_of c p) c = (newfds, c1)"
    by fastforce
  have new: "only_new_files c c1"
    using copy_table_inherits [of "fds_of c p" c os True newfds c1] copy table_allocated [OF w map_of_live [OF p]]
    by simp
  have "wf_ctx (alloc_proc ps c1)" "map_of (ProcMap (alloc_proc ps c1)) pid \<noteq> None" for ps
    using alloc_proc_wf [OF only_new_files_wf [OF new w]] new p by (simp_all add: only_new_files_def)
  then have total: "\<exists>c'. VanishProcess pid (alloc_proc ps c1) = Inr c'" for ps
    by (rule VanishProcess_total)
  define ps where "ps = (NewProcState os c pid (Ppid (snd (ProcInfo (Procs c p)))))\<lparr>Fds := newfds\<rparr>"
  obtain c2 where "VanishProcess pid (alloc_proc ps c1) = Inr c2"
    using total by blast
  then show ?thesis
    using p copy by (simp add: RegisterExec_def GetProcState_def ps_def)
qed

text \<open>The last descriptor number is the one whose successor wraps to zero.\<close>

lemma store_grown: "fd \<noteq> - 1 \<Longrightarrow> \<exists>c'. store_fd p (unat fd) x (grow_fds p fd c) = Inr c'"
proof -
  assume "fd \<noteq> - 1"
  then have "unat (fd + 1) = Suc (unat fd)"
    by (metis add.commute add_eq_0_iff unatSuc)
  then show ?thesis
    by (simp add: store_fd_def grow_fds_def)
qed

lemma OpDup2_total [total_rules]:
  assumes w: "wf_ctx c" and "map_of (ProcMap c) pid \<noteq> None" "newfd \<noteq> - 1"
  shows "\<exists>r. OpDup2 pid oldfd newfd c = Inr r"
proof -
  obtain p where p: "map_of (ProcMap c) pid = Some p"
    using assms(2) by (rule knownE)
  obtain c1 where "(case slot (fds_of c p) (unat newfd) of None \<Rightarrow> Inr c | Some a \<Rightarrow> OpClose pid newfd c) = Inr c1"
    using OpClose_total [OF w assms(2), of newfd] by (cases "slot (fds_of c p) (unat newfd)") auto
  then show ?thesis
    using p store_grown [OF assms(3)]
    by (cases "slot (fds_of c1 p) (unat oldfd)") (auto simp: OpDup2_def GetProcState_def, metis bindR_Inr)
qed

lemma OpDup3_total [total_rules]:
  assumes w: "wf_ctx c" and k: "map_of (ProcMap c) pid \<noteq> None" "newfd \<noteq> - 1"
  shows "\<exists>r. OpDup3 pid oldfd newfd flags c = Inr r"
proof -
  obtain d c1 where r: "OpDup2 pid oldfd newfd c = Inr (d, c1)"
    using OpDup2_total [OF assms, of oldfd] by auto
  from w r show ?thesis
  proof (cases rule: OpDup2_cases)
    case (shared p a c0 v)
    have "map_of (ProcMap c1) pid = Some p" "slot (fds_of c1 p) (unat newfd) = Some a"
      using shared(4) OpDup2_frame(1) [OF w r] shared(9) [of "unat newfd"] shared(8) by simp_all
    then show ?thesis
      using r by (auto simp: OpDup3_def OpDup_def GetProcState_def)
  qed (use r in \<open>auto simp: OpDup3_def OpDup_def\<close>)
qed

definition links_readable :: "os \<Rightarrow> bool" where
  "links_readable os \<longleftrightarrow> (\<forall>pid fd. LinkTarget os (''/proc/'' @ show_int pid @ ''/fd/'' @ show_nat fd) \<noteq> None)"

lemma OpOpenWriteFile_returns:
  assumes "map_of (ProcMap c) pid \<noteq> None" "fd \<noteq> - 1"
    and "LinkTarget os (''/proc/'' @ show_int pid @ ''/fd/'' @ show_nat (unat fd)) \<noteq> None"
  shows "\<exists>c'. OpOpenWriteFile os pid fd flags c = Inr c'"
proof -
  obtain p where p: "map_of (ProcMap c) pid = Some p"
    using assms(1) by (rule knownE)
  let ?link = "''/proc/'' @ show_int pid @ ''/fd/'' @ show_nat (unat fd)"
  obtain f where f: "ReadLink os ?link = Inr f"
    using assms(3) by (cases "LinkTarget os ?link") (simp_all only: ReadLink_def option.case, blast+)
  have "fds_of (alloc_file n (if b then ProcessInterruptionTarget os pid f c1 else c1)) = fds_of c1" for n b c1
    by (auto simp: fds_of_def alloc_file_def ProcessInterruptionTarget_def)
  then have "\<exists>c'. store_fd p (unat fd) x (alloc_file n (if b then ProcessInterruptionTarget os pid f (grow_fds p fd c)
      else grow_fds p fd c)) = Inr c'" for x n b
    using store_grown [OF assms(2), of p x c] by (auto simp: store_fd_def split: if_splits)
  then show ?thesis
    using p f by (simp add: OpOpenWriteFile_def GetProcState_def Let_def)
qed

lemma OpOpenWriteFile_total [total_rules]:
  assumes "map_of (ProcMap c) pid \<noteq> None" "fd \<noteq> - 1" "links_readable os"
  shows "\<exists>c'. OpOpenWriteFile os pid fd flags c = Inr c'"
proof (rule OpOpenWriteFile_returns [OF assms(1,2)])
  show "LinkTarget os (''/proc/'' @ show_int pid @ ''/fd/'' @ show_nat (unat fd)) \<noteq> None"
    using assms(3) unfolding links_readable_def by (elim allE)
qed

lemma RegisterCoreDump_total [total_rules]:
  assumes "map_of (ProcMap c) pid \<noteq> None" "well_paired (Mask (DefaultPattern os (GetCwd os)))"
  shows "\<exists>c'. RegisterCoreDump os pid termSig c = Inr c'"
proof -
  obtain p where p: "map_of (ProcMap c) pid = Some p"
    using assms(1) by (rule knownE)
  obtain f where "RecoverCoreDumpFile os (Pid (snd (ProcInfo (Procs c p)))) (CommandName (snd (ProcInfo (Procs c p))))
      (GetCwd os) termSig = Inr f"
    using RecoverCoreDumpFile_total [OF assms(2)] by blast
  then show ?thesis
    using p by (simp add: RegisterCoreDump_def SearchAndRegisterCoreDumpFile_def GetProcState_def Let_def)
qed

section \<open>Handling a system call\<close>

lemma if_total:
  assumes "b \<Longrightarrow> \<exists>c. x = Inr c" "\<not> b \<Longrightarrow> \<exists>c. y = Inr c"
  shows "\<exists>c. (if b then x else y) = Inr c"
  using assms by simp

lemma Inr_total: "\<exists>c'. Inr c = Inr c'"
  by simp

lemma ignore_result_total: "\<exists>r. x = Inr r \<Longrightarrow> \<exists>c. ignore_result x = Inr c"
  by (auto simp: ignore_result_def)

lemma as_int_not_last: "0 \<le> as_int w \<Longrightarrow> w \<noteq> - 1"
proof -
  have "ucast (- 1 :: u64) = (- 1 :: u32)"
    by (rule bit_word_eqI) (simp add: bit_simps)
  then show "0 \<le> as_int w \<Longrightarrow> w \<noteq> - 1"
    by (auto simp: as_int_def)
qed

text \<open>
  The kernel reads the low half of a descriptor and refuses the number \<open>2 ^ 32 - 1\<close>, so the new
  descriptor of a successful \<^verbatim>\<open>dup2\<close> or \<^verbatim>\<open>dup3\<close> is not the last 64-bit number.
\<close>

definition fits_descriptor :: "arch \<Rightarrow> user_regs \<Rightarrow> bool" where
  "fits_descriptor a regs \<longleftrightarrow>
     (a = X86_64 \<and> SYSCALL_NR a regs = SYS_dup2 \<or> SYSCALL_NR a regs = SYS_dup3 a) \<longrightarrow>
     0 \<le> as_int (SYSCALL_RETDATA a regs) \<longrightarrow> SYSCALL_ARG1 a regs \<noteq> - 1"

lemma FcntlExit_total:
  assumes "wf_ctx c" "map_of (ProcMap c) pid \<noteq> None" "ret \<noteq> - 1"
  shows "\<exists>c'. FcntlExit pid ret arg0 arg1 arg2 c = Inr c'"
  unfolding FcntlExit_def OpDup_def OpSetFlag_def
  by (intro if_total ignore_result_total OpDup2_total OpDup3_total on_fd_total Inr_total assms)

lemma OpOpenFile_total:
  assumes "map_of (ProcMap c) pid \<noteq> None" "fd \<noteq> - 1" "links_readable os"
  shows "\<exists>c'. OpOpenFile os pid fd flags c = Inr c'"
  unfolding OpOpenFile_def by (intro if_total OpOpenWriteFile_total Inr_total assms)

lemma SyscallExit_total [total_rules]:
  assumes "wf_ctx c" "map_of (ProcMap c) pid \<noteq> None" "links_readable os" "fits_descriptor a regs"
  shows "\<exists>c'. SyscallExit a os pid regs c = Inr c'"
  unfolding SyscallExit_def Let_def OpDup_def OpWriteChangeOffset_def OpWriteNoOffsetChange_def OpResize_def OpSeek_def
  by (intro if_total ignore_result_total OpDup2_total OpDup3_total on_fd_total OpOpenWriteFile_total
      OpOpenFile_total OpClose_total FcntlExit_total Inr_total
      as_int_not_last [of "SYSCALL_RETDATA a regs"] assms)
    (use assms(4) in \<open>auto simp: fits_descriptor_def\<close>)

section \<open>A kernel that behaves as documented\<close>

text \<open>
  Requests are answered, or refused because the thread is gone; the word that \<^verbatim>\<open>PTRACE_PEEKUSER\<close> returns
  is not the one that the wrapper takes for an error, and on aarch64 the registers are there. The
  pattern for core dumps has no lone \<^verbatim>\<open>%\<close> at its end.
\<close>

definition gone :: "int option \<Rightarrow> bool" where
  "gone err \<longleftrightarrow> err = None \<or> err = Some ESRCH"

definition answered :: "arch \<Rightarrow> answers \<Rightarrow> bool" where
  "answered a ans \<longleftrightarrow>
     (\<forall>act. gone (RequestError ans act)) \<and>
     (\<forall>e. EventMsg ans = Inl e \<longrightarrow> e = ESRCH) \<and>
     (\<forall>e. Regs ans = Inl e \<longrightarrow> e = ESRCH) \<and>
     (\<forall>regs. Regs ans = Inr regs \<longrightarrow> fits_descriptor a regs) \<and>
     (case PeekedRegs ans of
        Inl e \<Rightarrow> a = X86_64 \<and> e = ESRCH
      | Inr regs \<Rightarrow> a = X86_64 \<longrightarrow> regs RDI \<noteq> - 1) \<and>
     links_readable (Machine ans) \<and>
     well_paired (Mask (DefaultPattern (Machine ans) (GetCwd (Machine ans))))"

text \<open>
  The results of \<^verbatim>\<open>wait3\<close>: interruptions and the end of all children; stops; exits of followed threads. The
  event of an \<^verbatim>\<open>execve\<close> names a followed thread.
\<close>

definition announced :: "tracer \<Rightarrow> wait_result \<Rightarrow> answers \<Rightarrow> bool" where
  "announced s w ans \<longleftrightarrow>
     (case w of
        WaitError errno \<Rightarrow> errno = EINTR \<or> errno = ECHILD
      | WaitStatus pid status \<Rightarrow>
          if WIFSTOPPED status then
            EventOf status = PTRACE_EVENT_EXEC \<longrightarrow> (\<forall>n. EventMsg ans = Inr n \<longrightarrow> n \<in> followed s)
          else (WIFSIGNALED status \<or> WIFEXITED status) \<and> pid \<in> followed s)"

lemma sint_not_minus_one: "(w :: u64) \<noteq> - 1 \<Longrightarrow> sint w \<noteq> - 1"
  by (metis signed_word_eqI sint_n1)

lemma answered_calls:
  assumes "answered a ans"
  shows "\<exists>s'. request ans act s = Inr s'" "\<exists>n. PtraceGetEventMsg (EventMsg ans) = Inr n"
    "\<exists>n. GetCloneFlags a (PeekedRegs ans) = Inr n" "\<exists>r. PtraceGetRegs (Regs ans) = Inr r"
proof -
  have "gone (RequestError ans act)"
    using assms by (simp add: answered_def)
  then show "\<exists>s'. request ans act s = Inr s'"
    by (auto simp: gone_def request_def PtraceRequest_def PtraceSafeCall_def split: option.splits)
  show "\<exists>n. PtraceGetEventMsg (EventMsg ans) = Inr n" "\<exists>r. PtraceGetRegs (Regs ans) = Inr r"
    using assms by (auto simp: answered_def PtraceGetEventMsg_def PtraceGetRegs_def PtraceSafeCall_def split: sum.splits)
  show "\<exists>n. GetCloneFlags a (PeekedRegs ans) = Inr n"
    using assms sint_not_minus_one
    by (cases a) (auto simp: answered_def GetCloneFlags_def PtracePeekUser_def PtraceGetRegs_def PtraceSafeCall_def
        split: sum.splits)
qed

section \<open>A turn returns\<close>

lemma bindR_total:
  assumes "\<exists>x. r = Inr x" "\<And>x. r = Inr x \<Longrightarrow> \<exists>y. f x = Inr y"
  shows "\<exists>y. bindR r f = Inr y"
  using assms by auto

lemma in_ctx_total: "\<exists>c. f (Ctx s) = Inr c \<Longrightarrow> \<exists>s'. in_ctx f s = Inr s'"
  by (auto simp: in_ctx_def)

lemma requests_total:
  assumes "answered a ans"
  shows "\<exists>s'. PtraceRestartSyscall ans pid sig s = Inr s'" "\<exists>s'. PtraceContinueSyscall ans pid sig s = Inr s'"
    "\<exists>s'. PtraceSetRegs ans pid regs s = Inr s'"
  using answered_calls(1) [OF assms] by (simp_all add: request_defs)

lemma followed_known:
  assumes "tracer_ok s" "pid \<in> followed s"
  shows "map_of (ProcMap (Ctx s)) pid \<noteq> None"
  using tracer_okD(2) [OF assms(1)] assms(2) known_fst by blast

lemma vanishThread_total:
  assumes "answered a ans" "wf_ctx (Ctx s)" "pid \<in> followed s" "notify \<Longrightarrow> map_of (ProcMap (Ctx s)) pid \<noteq> None"
  shows "\<exists>s'. vanishThread ans pid notify s = Inr s'"
proof -
  have "SyscallState s pid \<noteq> None"
    using assms(3) by (simp add: followed_iff)
  moreover have "\<exists>s'. in_ctx (VanishProcess pid) (s\<lparr>SyscallState := m\<rparr>) = Inr s'" if notify for m
    using VanishProcess_total [OF assms(2) assms(4) [OF that]] by (intro in_ctx_total) simp
  ultimately show ?thesis
    unfolding vanishThread_def Let_def
    by (intro bindR_total if_total requests_total(1) [OF assms(1)] Inr_total) (simp_all add: assertR_def)
qed

lemma HandleNewChild_total:
  assumes "answered a ans" "tracer_ok s" "pid \<in> followed s" "map_of (ProcMap (Ctx s)) child = None"
  shows "\<exists>s'. HandleNewChild cfg ans pid child isThread s = Inr s'"
proof -
  have "\<exists>s'. in_ctx (if isThread then RegisterThread pid child else RegisterProcess (Machine ans) pid child) s = Inr s'"
    using RegisterThread_total RegisterProcess_total followed_known [OF assms(2,3)] assms(4)
    by (intro in_ctx_total) (simp split: if_split)
  then show ?thesis
    unfolding HandleNewChild_def Let_def
    by (intro bindR_total if_total requests_total [OF assms(1)] Inr_total)
qed

lemma HandleEvent_total:
  assumes ans: "answered (Arch cfg) ans" and ok: "tracer_ok s" and pid: "pid \<in> followed s"
    and new: "event \<in> {PTRACE_EVENT_CLONE, PTRACE_EVENT_FORK, PTRACE_EVENT_VFORK} \<Longrightarrow> EventMsg ans = Inr n \<Longrightarrow>
      map_of (ProcMap (Ctx s)) n = None"
    and exec: "event = PTRACE_EVENT_EXEC \<Longrightarrow> EventMsg ans = Inr n \<Longrightarrow> n \<in> followed s"
    and n: "EventMsg ans = Inl e \<or> EventMsg ans = Inr n"
  shows "\<exists>f. HandleEvent cfg ans pid event stop s = Inr f"
proof -
  have msg: "EventMsg ans = Inr m" if "PtraceGetEventMsg (EventMsg ans) = Inr m" "\<not> m < 0" for m
    using that by (auto simp: PtraceGetEventMsg_def bindR_eq_Inr_iff split: sum.splits)
  have run_exec: "\<exists>s2. (if m \<noteq> pid then vanishThread ans m False s1 else Inr s1) = Inr s2"
    if "event = PTRACE_EVENT_EXEC" "PtraceGetEventMsg (EventMsg ans) = Inr m" "\<not> m < 0"
      "in_ctx (RegisterExec (Machine ans) pid) s = Inr s1" for m s1
  proof -
    note run = that
    obtain c where c: "RegisterExec (Machine ans) pid (Ctx s) = Inr c" "s1 = s\<lparr>Ctx := c\<rparr>"
      using run(4) by (auto simp: in_ctx_def bindR_eq_Inr_iff)
    have "m \<in> followed s1"
      using exec run(1) msg [OF run(2,3)] n c(2) by auto
    moreover have "wf_ctx (Ctx s1)"
      using RegisterExec_wf [OF tracer_okD(1) [OF ok] c(1)] c(2) by simp
    ultimately show ?thesis
      by (intro if_total vanishThread_total [OF ans] Inr_total) simp_all
  qed
  have child: "map_of (ProcMap (Ctx s)) m = None"
    if "event \<in> {PTRACE_EVENT_CLONE, PTRACE_EVENT_FORK, PTRACE_EVENT_VFORK}"
      "PtraceGetEventMsg (EventMsg ans) = Inr m" "\<not> m < 0" for m
    using new that(1) msg [OF that(2,3)] n by auto
  show ?thesis
    unfolding HandleEvent_def Let_def
    by (intro bindR_total if_total requests_total [OF ans] Inr_total answered_calls [OF ans]
        HandleNewChild_total [OF ans ok pid] in_ctx_total RegisterExec_total tracer_okD(1) [OF ok]
        followed_known [OF ok pid] run_exec child) simp_all
qed

lemma HandleSyscallStop_total:
  assumes ans: "answered (Arch cfg) ans" and ok: "tracer_ok s" and pid: "pid \<in> followed s"
  shows "\<exists>f. HandleSyscallStop cfg ans pid s = Inr f"
proof -
  obtain prev where prev: "SyscallState s pid = Some prev"
    using pid by (auto simp: followed_iff)
  obtain r where r: "PtraceGetRegs (Regs ans) = Inr r"
    using answered_calls(4) [OF ans] by blast
  show ?thesis
  proof (cases r)
    case None
    then show ?thesis
      using r requests_total(1) [OF ans] by (auto simp: HandleSyscallStop_def) (metis bindR_Inr)
  next
    case (Some regs)
    then have "Regs ans = Inr regs"
      using r by (auto simp: PtraceGetRegs_def bindR_eq_Inr_iff split: sum.splits)
    then have fits: "fits_descriptor (Arch cfg) regs" "links_readable (Machine ans)"
      using ans by (simp_all add: answered_def)
    have leave: "\<exists>s1. in_ctx (SyscallExit (Arch cfg) (Machine ans) pid regs) (set_state pid SYSCALL_UNDEFINED s) = Inr s1"
      using SyscallExit_total [OF tracer_okD(1) [OF ok] followed_known [OF ok pid] fits(2,1)]
      by (intro in_ctx_total) simp
    have enter: "\<exists>f. (case Arch cfg of X86_64 \<Rightarrow> Inr (StopDone t)
        | AArch64 \<Rightarrow> bindR (PtraceSetRegs ans pid (regs(9 := regs 0)) t) (\<lambda>s3. Inr (StopDone s3))) = Inr f" for t
    proof (cases "Arch cfg")
      case AArch64
      then show ?thesis
        using bindR_total [OF requests_total(3) [OF ans] Inr_total] by simp
    qed simp
    show ?thesis
      unfolding HandleSyscallStop_def r Some prev Let_def bindR_Inr option.case
      by (intro if_total Inr_total enter bindR_total [OF leave])
  qed
qed

lemma ResumeTracee_total:
  assumes "answered a ans"
  shows "\<exists>s'. ResumeTracee cfg ans pid stop sig s = Inr s'"
  unfolding ResumeTracee_def by (intro if_total requests_total [OF assms])

lemma HandleStop_total:
  assumes ans: "answered (Arch cfg) ans" and ok: "tracer_ok s"
    and ord: "orderly s (WaitStatus pid status) ans" and ann: "announced s (WaitStatus pid status) ans"
    and stop: "WIFSTOPPED status"
  shows "\<exists>out. HandleStop cfg ans pid status s = Inr out"
proof (cases "pid \<in> followed s")
  case False
  then show ?thesis
    by (simp add: HandleStop_def followed_iff)
next
  case pid: True
  let ?good = "WSTOPSIG status = 0x85" and ?event = "EventOf status"
  obtain e n where n: "EventMsg ans = Inl e \<or> EventMsg ans = Inr n"
    by (cases "EventMsg ans") auto
  have event: "\<exists>f. (if ?event \<noteq> 0 then HandleEvent cfg ans pid ?event ?good s else Inr (Through ?good s)) = Inr f"
    by (intro if_total HandleEvent_total [OF ans ok pid _ _ n] Inr_total)
      (use ord ann stop in \<open>auto simp: orderly_def announced_def\<close>)
  then obtain f where f: "(if ?event \<noteq> 0 then HandleEvent cfg ans pid ?event ?good s else Inr (Through ?good s)) = Inr f"
    by blast
  have after: "tracer_ok (flow_state f)" "pid \<in> followed (flow_state f)"
    using f HandleEvent_ok [OF ok pid] HandleEvent_followed [OF pid] ok pid
    by (auto simp: flow_state_def split: if_splits)
  show ?thesis
  proof (cases f)
    case (Skip s1)
    then show ?thesis
      using f pid by (simp add: HandleStop_def followed_iff Let_def)
  next
    case (Through syscallStop s1)
    then have s1: "tracer_ok s1" "pid \<in> followed s1"
      using after by (simp_all add: flow_state_def)
    obtain g where g: "(if syscallStop then HandleSyscallStop cfg ans pid s1 else Inr (StopDone s1)) = Inr g"
      using HandleSyscallStop_total [OF ans s1] by (cases syscallStop) auto
    have resume: "\<exists>out. bindR (ResumeTracee cfg ans pid st sig s2) (\<lambda>s3. Inr (Again s3)) = Inr out" for st sig s2
      by (rule bindR_total [OF ResumeTracee_total [OF ans] Inr_total])
    have "\<exists>out. (case g of StopSkip s2 \<Rightarrow> Inr (Again s2) | StopAbort s2 \<Rightarrow> Inr (Return (-2) s2)
       | StopDone s2 \<Rightarrow> bindR (ResumeTracee cfg ans pid syscallStop (if ?good then 0 else int (WSTOPSIG status)) s2)
           (\<lambda>s3. Inr (Again s3))) = Inr out"
      using resume by (cases g) simp_all
    then show ?thesis
      using f g pid Through by (simp add: HandleStop_def followed_iff Let_def)
  qed
qed

lemma HandleExit_total:
  assumes "answered a ans" "tracer_ok s" "pid \<in> followed s"
  shows "\<exists>out. HandleExit cfg ans pid exitCode s = Inr out"
  unfolding HandleExit_def
  by (intro bindR_total if_total Inr_total vanishThread_total [OF assms(1) tracer_okD(1) [OF assms(2)] assms(3)]
      followed_known [OF assms(2,3)])

lemma turn_total:
  assumes ans: "answered (Arch cfg) ans" and ok: "tracer_ok s" and ord: "orderly s w ans" and ann: "announced s w ans"
  shows "\<exists>out. turn cfg w ans s = Inr out"
proof (cases w)
  case (WaitError errno)
  then show ?thesis
    using ann by (auto simp: turn_def announced_def)
next
  case (WaitStatus pid status)
  show ?thesis
  proof (cases "WIFSTOPPED status")
    case True
    then show ?thesis
      using HandleStop_total [OF ans ok _ _ True, of pid] ord ann WaitStatus by (simp add: turn_def)
  next
    case False
    then have exits: "WIFSIGNALED status \<or> WIFEXITED status" "pid \<in> followed s"
      using ann WaitStatus by (auto simp: announced_def)
    then obtain code where code: "ExitStatus status = Some code"
      using False by (cases "WIFSIGNALED status") (simp_all add: ExitStatus_def)
    have core: "\<exists>s1. (if WIFSIGNALED status \<and> WCOREDUMP status
        then in_ctx (RegisterCoreDump (Machine ans) pid (int (WTERMSIG status))) s else Inr s) = Inr s1"
      using ans by (intro if_total in_ctx_total RegisterCoreDump_total followed_known [OF ok exits(2)] Inr_total)
        (simp add: answered_def)
    have "\<exists>out. HandleExit cfg ans pid code s1 = Inr out"
      if "(if WIFSIGNALED status \<and> WCOREDUMP status
        then in_ctx (RegisterCoreDump (Machine ans) pid (int (WTERMSIG status))) s else Inr s) = Inr s1" for s1
    proof -
      note run = that
      have ok1: "tracer_ok s1 \<and> pid \<in> followed s1"
      proof (cases "WIFSIGNALED status \<and> WCOREDUMP status")
        case True
        then obtain c where c: "RegisterCoreDump (Machine ans) pid (int (WTERMSIG status)) (Ctx s) = Inr c" "s1 = s\<lparr>Ctx := c\<rparr>"
          using run by (auto simp: in_ctx_def bindR_eq_Inr_iff)
        have "wf_ctx c" "ProcMap c = ProcMap (Ctx s)"
          using RegisterCoreDump_wf [OF tracer_okD(1) [OF ok] c(1)] RegisterCoreDump_frame [OF c(1)] by simp_all
        then show ?thesis
          using tracer_okD [OF ok] exits(2) c(2) by (intro conjI tracer_okI) simp_all
      next
        case False
        then have "s1 = s"
          using run by auto
        then show ?thesis
          using ok exits(2) by simp
      qed
      then show ?thesis
        by (intro HandleExit_total [OF ans]) simp_all
    qed
    then have "\<exists>out. bindR (if WIFSIGNALED status \<and> WCOREDUMP status
        then in_ctx (RegisterCoreDump (Machine ans) pid (int (WTERMSIG status))) s else Inr s)
        (\<lambda>s1. case ExitStatus status of None \<Rightarrow> Inl (Exit 2) | Some exitCode \<Rightarrow> HandleExit cfg ans pid exitCode s1) = Inr out"
      unfolding code option.case by (intro bindR_total [OF core])
    then show ?thesis
      using WaitStatus False exits(1) by (auto simp: turn_def)
  qed
qed

section \<open>A run returns or waits\<close>

text \<open>A list of inputs that the kernel gives in its documented order.\<close>

fun orderly_run :: "setting \<Rightarrow> (wait_result \<times> answers) list \<Rightarrow> tracer \<Rightarrow> bool" where
  "orderly_run cfg [] s \<longleftrightarrow> True"
| "orderly_run cfg ((w, ans) # inputs) s \<longleftrightarrow>
     orderly s w ans \<and>
     (case turn cfg w ans s of Inr (Again s1) \<Rightarrow> orderly_run cfg inputs s1 | _ \<Rightarrow> True)"

lemma turns_last:
  assumes "turns cfg inputs s = Inr (Return rc s')" "orderly_run cfg inputs s" "reach cfg c s"
  obtains s1 w ans where "reach cfg c s1" "orderly s1 w ans" "turn cfg w ans s1 = Inr (Return rc s')"
  using assms
proof (induction cfg inputs s arbitrary: thesis rule: turns.induct)
  case (2 cfg w ans inputs s)
  from 2(3) show ?case
  proof (cases rule: turns_induct_step)
    case (again s1)
    have "reach cfg c s1"
      using reach.step [OF 2(5) _ again(1)] 2(4) by simp
    then show ?thesis
      using 2(1) [OF again(1) refl 2(2) again(2)] 2(4) again(1) by simp
  next
    case (return rc1 s1)
    then show ?thesis
      using 2(2) [OF 2(5), of w ans] 2(4) by simp
  qed
qed simp

text \<open>The same, and the kernel behaves as documented at every turn.\<close>

fun behaved_run :: "setting \<Rightarrow> (wait_result \<times> answers) list \<Rightarrow> tracer \<Rightarrow> bool" where
  "behaved_run cfg [] s \<longleftrightarrow> True"
| "behaved_run cfg ((w, ans) # inputs) s \<longleftrightarrow>
     orderly s w ans \<and> answered (Arch cfg) ans \<and> announced s w ans \<and>
     (case turn cfg w ans s of Inr (Again s1) \<Rightarrow> behaved_run cfg inputs s1 | _ \<Rightarrow> True)"

lemma behaved_orderly: "behaved_run cfg inputs s \<Longrightarrow> orderly_run cfg inputs s"
proof (induction cfg inputs s rule: behaved_run.induct)
  case (2 cfg w ans inputs s)
  then show ?case
    by (auto split: sum.splits outcome.splits)
qed simp

lemma turns_total: "tracer_ok s \<Longrightarrow> behaved_run cfg inputs s \<Longrightarrow> \<exists>out. turns cfg inputs s = Inr out"
proof (induction cfg inputs s rule: turns.induct)
  case (2 cfg w ans inputs s)
  then obtain out where out: "turn cfg w ans s = Inr out"
    using turn_total by fastforce
  show ?case
  proof (cases out)
    case (Again s1)
    have "tracer_ok s1"
      using turn_ok [OF 2(2) out] Again by (simp add: outcome_state_def)
    then show ?thesis
      using 2(1) [OF out Again] 2(3) out Again by simp
  next
    case (Return rc s1)
    then show ?thesis
      using out by simp
  qed
qed simp

end
