(* ===== verification/Tracee.thy ===== *)
theory Tracee
  imports Bpf Ptrace
begin

text \<open>
  The tracee's side of the \<^verbatim>\<open>fork\<close> in \<^verbatim>\<open>optrace.cpp\<close>: \<^verbatim>\<open>SetupTracee\<close> and \<^verbatim>\<open>RunTracee\<close>, with
  \<^verbatim>\<open>InstallBpfProgram\<close> of \<^verbatim>\<open>bpf_program.cpp\<close>; and the handler \<^verbatim>\<open>ForwardSignal\<close>. What the child
  does is the sequence of its system calls, kept in a log; which of them fail is the input.
\<close>

section \<open>The calls of the child\<close>

datatype child_call =
    NoNewPrivs
  | SetFilter "sock_filter list"
  | AskForTracing
  | StopSelf
  | Execvp "string list"

text \<open>The error of each call, \<open>None\<close> when it succeeds.\<close>

type_synonym child_errors = "child_call \<Rightarrow> int option"

definition child_does :: "child_errors \<Rightarrow> child_call \<Rightarrow> child_call list \<Rightarrow> failure + child_call list" where
  "child_does err c log = (case err c of None \<Rightarrow> Inr (log @ [c]) | Some _ \<Rightarrow> Inl (Exit 2))"

definition InstallBpfProgram :: "arch \<Rightarrow> child_errors \<Rightarrow> child_call list \<Rightarrow> failure + child_call list" where
  "InstallBpfProgram a err log =
     bindR (child_does err NoNewPrivs log) (\<lambda>log1. child_does err (SetFilter (BpfProgram a)) log1)"

definition SetupTracee :: "arch \<Rightarrow> child_errors \<Rightarrow> bool \<Rightarrow> child_call list \<Rightarrow> failure + child_call list" where
  "SetupTracee a err useSecComp log =
     bindR (if useSecComp then InstallBpfProgram a err log else Inr log) (\<lambda>log1.
     bindR (PtraceTraceMe (err AskForTracing)) (\<lambda>_.
     child_does err StopSelf (log1 @ [AskForTracing])))"

text \<open>With no program to run the function returns, and the caller goes on as the tracee.\<close>

definition RunTracee :: "arch \<Rightarrow> child_errors \<Rightarrow> string list option \<Rightarrow> bool \<Rightarrow> child_call list \<Rightarrow> failure + child_call list" where
  "RunTracee a err argv useSecComp log =
     bindR (SetupTracee a err useSecComp log) (\<lambda>log1.
       case argv of None \<Rightarrow> Inr log1 | Some args \<Rightarrow> child_does err (Execvp args) log1)"

section \<open>Forwarding a signal\<close>

text \<open>The global \<^verbatim>\<open>TraceePid\<close> is zero until the \<^verbatim>\<open>fork\<close>; the result is the call of \<^verbatim>\<open>kill\<close>.\<close>

definition ForwardSignal :: "pid \<Rightarrow> int \<Rightarrow> (pid \<times> int) option" where
  "ForwardSignal traceePid sig = (if traceePid \<noteq> 0 then Some (traceePid, sig) else None)"

section \<open>The child under its own filter\<close>

text \<open>
  The filter holds from its installation on. A call that it wants traced is refused with \<^verbatim>\<open>ENOSYS\<close> as
  long as there is no tracer, so the calls up to the attaching must be let pass.
\<close>

definition call_number :: "arch \<Rightarrow> child_call \<Rightarrow> u32" where
  "call_number a c = (case c of
       NoNewPrivs \<Rightarrow> (case a of X86_64 \<Rightarrow> 157 | AArch64 \<Rightarrow> 167)
     | SetFilter _ \<Rightarrow> (case a of X86_64 \<Rightarrow> 157 | AArch64 \<Rightarrow> 167)
     | AskForTracing \<Rightarrow> (case a of X86_64 \<Rightarrow> 101 | AArch64 \<Rightarrow> 117)
     | StopSelf \<Rightarrow> (case a of X86_64 \<Rightarrow> 62 | AArch64 \<Rightarrow> 129)
     | Execvp _ \<Rightarrow> (case a of X86_64 \<Rightarrow> 59 | AArch64 \<Rightarrow> 221))"

definition getpid_number :: "arch \<Rightarrow> u32" where
  "getpid_number a = (case a of X86_64 \<Rightarrow> 39 | AArch64 \<Rightarrow> 172)"

definition let_pass :: "arch \<Rightarrow> u32 \<Rightarrow> bool" where
  "let_pass a n \<longleftrightarrow> (\<forall>d. Nr d = n \<longrightarrow> bpf_run (BpfProgram a) d = Some SECCOMP_RET_ALLOW)"

lemma let_pass_iff:
  "let_pass a n \<longleftrightarrow> \<not> listed a n \<and> n \<noteq> ucast (SYS_fcntl a) \<and> n \<noteq> ucast (SYS_openat a) \<and> \<not> (a = X86_64 \<and> n = 2)"
  (is "_ \<longleftrightarrow> ?R")
proof
  assume ?R
  then show "let_pass a n"
    by (auto simp: let_pass_def bpf_run_traced traced_def openat_stage_def fcntl_stage_def)
next
  assume "let_pass a n"
  then have pass: "\<not> traced a d" if "Nr d = n" for d
    using that by (simp add: let_pass_def bpf_run_traced)
  let ?d = "\<lparr>Nr = n, AuditArch = 0, InstructionPointer = 0, Args = (\<lambda>_. 6)\<rparr>"
  have six: "opens_for_writing 6" "fcntl_bits 6" "low_word 6 = 6"
    by (simp_all add: opens_for_writing_def fcntl_bits_def low_word_def open_flag_defs fcntl_defs)
  have "\<not> traced a ?d"
    by (rule pass) simp
  then show ?R
    using six listed_traced [of a ?d] by (auto simp: traced_def openat_stage_def fcntl_stage_def split: if_splits)
qed

lemma child_calls_pass: "let_pass a (call_number a c)" "let_pass a (getpid_number a)"
  by (cases a; cases c; simp add: let_pass_iff call_number_def getpid_number_def listed_numbers sysno_defs; fail)+

lemma write_is_refused: "\<not> let_pass a (ucast (SYS_write a))"
  by (cases a) (simp_all add: let_pass_iff listed_numbers sysno_defs)

lemma child_does_Inr: "child_does err c log = Inr log' \<longleftrightarrow> err c = None \<and> log' = log @ [c]"
  by (auto simp: child_does_def split: option.splits)

lemma PtraceTraceMe_Inr: "PtraceTraceMe e = Inr u \<longleftrightarrow> e = None"
  by (simp add: PtraceTraceMe_def split: option.splits)

definition child_log :: "arch \<Rightarrow> bool \<Rightarrow> string list option \<Rightarrow> child_call list" where
  "child_log a useSecComp argv =
     (if useSecComp then [NoNewPrivs, SetFilter (BpfProgram a)] else []) @ [AskForTracing, StopSelf] @
     (case argv of None \<Rightarrow> [] | Some args \<Rightarrow> [Execvp args])"

lemma RunTracee_Inr_iff:
  "RunTracee a err argv useSecComp log = Inr log' \<longleftrightarrow>
     (\<forall>c\<in>set (child_log a useSecComp argv). err c = None) \<and> log' = log @ child_log a useSecComp argv"
  by (auto simp: RunTracee_def SetupTracee_def InstallBpfProgram_def bindR_eq_Inr_iff child_does_Inr
      PtraceTraceMe_Inr child_log_def split: option.splits if_splits)

lemma RunTracee_Inl: "RunTracee a err argv useSecComp log = Inl e \<Longrightarrow> e = Exit 2"
  by (auto simp: RunTracee_def SetupTracee_def InstallBpfProgram_def bindR_def child_does_def
      PtraceTraceMe_def split: option.splits if_splits sum.splits)

end
