(* ===== verification/CommandLine.thy ===== *)
theory CommandLine
  imports Options
begin

text \<open>
  The command line of \<^verbatim>\<open>main.cpp\<close>: the option tables, the loop over what \<^verbatim>\<open>getopt_long\<close> returns, each a
  code and its argument, and the help text, which is read back to compare it with the tables.
\<close>

section \<open>The command line\<close>

definition opt_char :: "char \<Rightarrow> int" where "opt_char c = int (of_char c)"

definition OPTIONS_END :: int where "OPTIONS_END = - 1"

text \<open>The table of \<^verbatim>\<open>main\<close>: each long option, whether it takes an argument, and its code.\<close>

definition cli_options :: "(string \<times> bool \<times> int) list" where
  "cli_options =
     [(''no-follow-forks'', False, opt_char CHR ''F''),
      (''no-jail-forks'', False, opt_char CHR ''J''),
      (''wait-daemons'', False, opt_char CHR ''w''),
      (''human-readable'', False, opt_char CHR ''h''),
      (''output'', True, opt_char CHR ''o''),
      (''append'', False, opt_char CHR ''a''),
      (''cmdline-size'', True, opt_char CHR ''c''),
      (''report-size'', True, opt_char CHR ''r''),
      (''threads'', True, opt_char CHR ''j''),
      (''no-seccomp'', False, opt_char CHR ''C''),
      (''no-coredumps'', False, opt_char CHR ''D''),
      (''empty-files'', False, opt_char CHR ''e''),
      (''forward-sig'', True, opt_char CHR ''s''),
      (''forward-all-signals'', False, opt_char CHR ''S''),
      (''interruption-target'', True, opt_char CHR ''i''),
      (''interruption-sig'', True, opt_char CHR ''I''),
      (''help'', False, 0)]"

definition short_cli_options :: string where
  "short_cli_options = ''+FJwho:ac:r:j:CDes:Si:I:h''"

text \<open>The codes that \<^verbatim>\<open>getopt_long\<close> can return for these tables: a colon asks for an argument.\<close>

definition option_codes :: "int list" where
  "option_codes =
     map (snd \<circ> snd) cli_options @
     map opt_char (filter (\<lambda>c. c \<noteq> CHR '':'' \<and> c \<noteq> CHR ''+'') short_cli_options) @ [opt_char CHR ''?'']"

text \<open>One pass of the loop: the options change, or \<^verbatim>\<open>main\<close> returns.\<close>

definition size_argument :: "string \<Rightarrow> int" where
  "size_argument optarg = (if take 1 optarg = ''-'' then -1 else atoi optarg)"

definition ApplyOption :: "int \<Rightarrow> string \<Rightarrow> options \<Rightarrow> int + options" where
  "ApplyOption c optarg opts =
     (if c = 0 then Inl 0
      else if c = opt_char CHR ''F'' then Inr (opts\<lparr>FollowForks := False\<rparr>)
      else if c = opt_char CHR ''J'' then Inr (opts\<lparr>JailForks := False\<rparr>)
      else if c = opt_char CHR ''W'' then Inr (opts\<lparr>WaitDaemons := True\<rparr>)
      else if c = opt_char CHR ''h'' then Inr (opts\<lparr>HumanReadableSizes := True\<rparr>)
      else if c = opt_char CHR ''o'' then Inr (opts\<lparr>Output := optarg\<rparr>)
      else if c = opt_char CHR ''a'' then Inr (opts\<lparr>AppendOutput := True\<rparr>)
      else if c = opt_char CHR ''c'' then Inr (opts\<lparr>CommandLengthLimit := size_argument optarg\<rparr>)
      else if c = opt_char CHR ''r'' then Inr (opts\<lparr>FilesInReport := size_argument optarg\<rparr>)
      else if c = opt_char CHR ''C'' then Inr (opts\<lparr>UseSecComp := False\<rparr>)
      else if c = opt_char CHR ''D'' then Inr (opts\<lparr>SearchForCoreDumps := False\<rparr>)
      else if c = opt_char CHR ''s'' then
        Inr (opts\<lparr>ForwardingSignals := ForwardingSignals opts @ [atoi optarg]\<rparr>)
      else if c = opt_char CHR ''S'' then Inr (opts\<lparr>ForwardAllSignals := True\<rparr>)
      else if c = opt_char CHR ''e'' then Inr (opts\<lparr>OptStoreEmptyFiles := True\<rparr>)
      else if c = opt_char CHR ''i'' then
        Inr (opts\<lparr>InterruptionTarget := optarg,
                  InterruptionSignal := (if InterruptionSignal opts = 0 then SIGABRT else InterruptionSignal opts)\<rparr>)
      else if c = opt_char CHR ''I'' then Inr (opts\<lparr>InterruptionSignal := atoi optarg\<rparr>)
      else if c = opt_char CHR ''?'' then Inl 1
      else Inr opts)"

fun ParseOptions :: "(int \<times> string) list \<Rightarrow> options \<Rightarrow> int + options" where
  "ParseOptions [] opts = Inr opts"
| "ParseOptions ((c, optarg) # rest) opts =
     (if c = OPTIONS_END then Inr opts
      else case ApplyOption c optarg opts of Inl rc \<Rightarrow> Inl rc | Inr opts' \<Rightarrow> ParseOptions rest opts')"

section \<open>The help\<close>

definition help_lines :: "string list" where
  "help_lines =
    [''Usage: optrace [-fJhaCDS] [-o FILE] [-c VAL]'',
     ''               [-r VAL] [-j VAL] [-s SIG] PROG [ARGS]'',
     [],
     ''Output format:'',
     ''  -c|--cmdline-size VAL    maximum string size for cmd lines'',
     ''                           (negative for unlimited, 0 to disable, default:'' @ show_int (CommandLengthLimit GetDefaults) @ '')'',
     ''  -r|--report-size VAL     number of files to print in report'',
     ''                           (negative for unlimited, 0 to disable, default:'' @ show_int (FilesInReport GetDefaults) @ '')'',
     ''  -o|--output FILE         send report to FILE instead of stderr'',
     ''  -a|--append              don't overwrite output FILE'',
     ''  -h|--human-readable      print sizes in human readable format'',
     ''  -i|--interruption-target VAL'',
     ''                           send an interrupt signal to a process when it attempts to open a target file (fnmatch) in write mode'',
     ''  -I|--interruption-sig VAL'',
     ''                           signal that will be sent when the interrupt target is found (default: SIGABRT)'',
     [],
     ''Behavior:'',
     ''  -D|--no-coredumps        don't take into account core dump files'',
     ''  -e|--empty-files         trace empty files'',
     ''  -s|--forward-sig SIG     append signum to the list of forwarding signals to the PROG'',
     ''                           (default: [SIGINT])'',
     ''  -S|--forward-all-signals append signum to the list of forwarding signals to the PROG'',
     [],
     ''Tracing:'',
     ''  -w|--wait-daemons        wait for daemon processes when following forks'',
     ''  -F|--no-follow-forks     don't follow forks'',
     ''  -J|--no-jail-forks       don't kill all created processes, when optrace exits'',
     ''  -C|--no-seccomp          don't use seccomp anyway'']"

definition printHelp :: string where
  "printHelp = concat (map (\<lambda>l. l @ [char_of (10::nat)]) help_lines)"

text \<open>
  Reading a line of the help: two blanks, a letter and a long name, and whether the name of an argument
  in capitals comes after it.
\<close>

definition documented :: "string \<Rightarrow> (string \<times> bool \<times> int) option" where
  "documented line =
     (if take 3 line = ''  -'' \<and> take 3 (drop 4 line) = ''|--'' then
        (let rest = drop 7 line; name = takeWhile (\<lambda>c. c \<noteq> CHR '' '') rest
         in Some (name, take 1 (drop (length name + 1) rest) \<in> {''V'', ''F'', ''S''}, opt_char (line ! 3)))
      else None)"

definition documented_options :: "(string \<times> bool \<times> int) list" where
  "documented_options = List.map_filter documented help_lines"

text \<open>The letters of \<^verbatim>\<open>short_cli_options\<close>, each with whether it takes an argument.\<close>

fun short_options :: "string \<Rightarrow> (bool \<times> int) list" where
  "short_options (c # d # cs) =
     (if c = CHR ''+'' then short_options (d # cs)
      else if d = CHR '':'' then (True, opt_char c) # short_options cs
      else (False, opt_char c) # short_options (d # cs))"
| "short_options [c] = [(False, opt_char c)]"
| "short_options [] = []"

lemma documented_is_accepted:
  "set documented_options = set (filter (\<lambda>(name, _). name \<noteq> ''threads'' \<and> name \<noteq> ''help'') cli_options)"
  "set (short_options short_cli_options) = insert (True, opt_char CHR ''j'') (snd ` set documented_options)"
  by code_simp+

text \<open>The argument that shows the effect of an option, and options to show it on.\<close>

definition telling :: "int \<Rightarrow> string \<times> options" where
  "telling code =
     (if code = opt_char CHR ''r'' then (''5'', GetDefaults)
      else if code = opt_char CHR ''o'' \<or> code = opt_char CHR ''i'' then (''f'', GetDefaults)
      else (''7'', GetDefaults))"

lemma documented_effects:
  "list_all (\<lambda>(name, _, code). name = ''wait-daemons'' \<or>
     ApplyOption code (fst (telling code)) (snd (telling code)) \<noteq> Inr (snd (telling code))) documented_options"
  by code_simp

lemma wait_daemons_no_effect: "ApplyOption (opt_char CHR ''w'') optarg opts = Inr opts"
  by (simp add: ApplyOption_def opt_char_def)

section \<open>A command line for given options\<close>

text \<open>
  Every option record that a command line can ask for, turned back into one. A blank in front of a
  negative size hides its sign from the test for \<^verbatim>\<open>-\<close>, but not from \<^verbatim>\<open>atoi\<close>.
\<close>

definition flag :: "bool \<Rightarrow> char \<Rightarrow> (int \<times> string) list" where
  "flag b c = (if b then [(opt_char c, [])] else [])"

definition render_size :: "int \<Rightarrow> string" where
  "render_size n = (if n < 0 then CHR '' '' # show_int n else show_int n)"

definition render_options :: "options \<Rightarrow> (int \<times> string) list" where
  "render_options o1 =
     flag (\<not> FollowForks o1) CHR ''F'' @ flag (\<not> JailForks o1) CHR ''J'' @ flag (HumanReadableSizes o1) CHR ''h'' @
     flag (AppendOutput o1) CHR ''a'' @ flag (\<not> UseSecComp o1) CHR ''C'' @ flag (\<not> SearchForCoreDumps o1) CHR ''D'' @
     flag (ForwardAllSignals o1) CHR ''S'' @ flag (OptStoreEmptyFiles o1) CHR ''e'' @
     [(opt_char CHR ''o'', Output o1), (opt_char CHR ''c'', render_size (CommandLengthLimit o1)),
      (opt_char CHR ''r'', render_size (FilesInReport o1)), (opt_char CHR ''i'', InterruptionTarget o1),
      (opt_char CHR ''I'', show_int (InterruptionSignal o1))] @
     map (\<lambda>sig. (opt_char CHR ''s'', show_int sig)) (tl (ForwardingSignals o1)) @ [(OPTIONS_END, [])]"

definition expressible :: "options \<Rightarrow> bool" where
  "expressible o1 \<longleftrightarrow> \<not> WaitDaemons o1 \<and> ForwardingSignals o1 \<noteq> [] \<and> hd (ForwardingSignals o1) = SIGINT"

lemma opt_char_eqs [simp]:
  "opt_char c = opt_char d \<longleftrightarrow> c = d" "opt_char c \<noteq> OPTIONS_END" "opt_char c = 0 \<longleftrightarrow> c = CHR 0x00"
proof -
  show "opt_char c = opt_char d \<longleftrightarrow> c = d"
    by (simp add: opt_char_def)
  show "opt_char c \<noteq> OPTIONS_END"
    by (simp add: opt_char_def OPTIONS_END_def)
  have "(of_char c :: nat) = 0 \<longleftrightarrow> c = char_of (0 :: nat)"
    by (metis char_of_char of_char_of mod_0)
  then show "opt_char c = 0 \<longleftrightarrow> c = CHR 0x00"
    by (simp add: opt_char_def char_of_def)
qed

lemma render_size_back: "size_argument (render_size n) = n"
proof (cases "n < 0")
  case True
  have "atoi (CHR '' '' # show_int n) = atoi (show_int n)"
    by (simp add: atoi_def is_blank_def)
  then show ?thesis
    using True by (simp add: size_argument_def render_size_def atoi_show_int)
next
  case False
  then have "take 1 (show_int n) \<noteq> ''-''"
    using digit_not_special [of "hd (show_nat (nat n))"] show_nat_digits [of "nat n"]
    by (cases "show_nat (nat n)") (simp_all add: show_int_def)
  then show ?thesis
    using False by (simp add: size_argument_def render_size_def atoi_show_int)
qed

lemma options_update_same [simp]:
  "opts\<lparr>FollowForks := FollowForks opts\<rparr> = opts" "opts\<lparr>JailForks := JailForks opts\<rparr> = opts"
  "opts\<lparr>HumanReadableSizes := HumanReadableSizes opts\<rparr> = opts" "opts\<lparr>AppendOutput := AppendOutput opts\<rparr> = opts"
  "opts\<lparr>UseSecComp := UseSecComp opts\<rparr> = opts" "opts\<lparr>SearchForCoreDumps := SearchForCoreDumps opts\<rparr> = opts"
  "opts\<lparr>ForwardAllSignals := ForwardAllSignals opts\<rparr> = opts" "opts\<lparr>OptStoreEmptyFiles := OptStoreEmptyFiles opts\<rparr> = opts"
  by simp_all

lemma ParseOptions_flags:
  "ParseOptions (flag b CHR ''F'' @ rest) opts = ParseOptions rest (opts\<lparr>FollowForks := (FollowForks opts \<and> \<not> b)\<rparr>)"
  "ParseOptions (flag b CHR ''J'' @ rest) opts = ParseOptions rest (opts\<lparr>JailForks := (JailForks opts \<and> \<not> b)\<rparr>)"
  "ParseOptions (flag b CHR ''h'' @ rest) opts = ParseOptions rest (opts\<lparr>HumanReadableSizes := (HumanReadableSizes opts \<or> b)\<rparr>)"
  "ParseOptions (flag b CHR ''a'' @ rest) opts = ParseOptions rest (opts\<lparr>AppendOutput := (AppendOutput opts \<or> b)\<rparr>)"
  "ParseOptions (flag b CHR ''C'' @ rest) opts = ParseOptions rest (opts\<lparr>UseSecComp := (UseSecComp opts \<and> \<not> b)\<rparr>)"
  "ParseOptions (flag b CHR ''D'' @ rest) opts = ParseOptions rest (opts\<lparr>SearchForCoreDumps := (SearchForCoreDumps opts \<and> \<not> b)\<rparr>)"
  "ParseOptions (flag b CHR ''S'' @ rest) opts = ParseOptions rest (opts\<lparr>ForwardAllSignals := (ForwardAllSignals opts \<or> b)\<rparr>)"
  "ParseOptions (flag b CHR ''e'' @ rest) opts = ParseOptions rest (opts\<lparr>OptStoreEmptyFiles := (OptStoreEmptyFiles opts \<or> b)\<rparr>)"
  by (cases b; simp add: flag_def ApplyOption_def; fail)+

lemma ParseOptions_signals:
  "ParseOptions (map (\<lambda>sig. (opt_char CHR ''s'', show_int sig)) sigs @ [(OPTIONS_END, [])]) opts =
     Inr (opts\<lparr>ForwardingSignals := ForwardingSignals opts @ sigs\<rparr>)"
  by (induction sigs arbitrary: opts) (simp_all add: ApplyOption_def atoi_show_int)

lemma ParseOptions_render:
  assumes "expressible o1"
  shows "ParseOptions (render_options o1) GetDefaults = Inr o1"
proof -
  have "SIGINT # tl (ForwardingSignals o1) = ForwardingSignals o1" "WaitDaemons o1 = False"
    using assms by (cases "ForwardingSignals o1"; simp add: expressible_def; fail)+
  then show ?thesis
    unfolding render_options_def append_assoc ParseOptions_flags
    by (cases o1) (simp add: ApplyOption_def ParseOptions_signals render_size_back atoi_show_int GetDefaults_def)
qed

text \<open>The other way: what any command line asks for can be rendered.\<close>

lemma ApplyOption_expressible:
  assumes "expressible opts" "c \<noteq> opt_char CHR ''W''" "ApplyOption c optarg opts = Inr opts'"
  shows "expressible opts'"
  using assms by (auto simp: ApplyOption_def expressible_def split: if_splits)

lemma W_is_no_code: "opt_char CHR ''W'' \<notin> set option_codes"
  by (simp add: option_codes_def cli_options_def short_cli_options_def)

lemma ParseOptions_expressible:
  "expressible opts \<Longrightarrow> fst ` set rs \<subseteq> insert OPTIONS_END (set option_codes) \<Longrightarrow> ParseOptions rs opts = Inr opts' \<Longrightarrow>
    expressible opts'"
proof (induction rs opts rule: ParseOptions.induct)
  case (2 c optarg rest opts)
  show ?case
  proof (cases "c = OPTIONS_END")
    case True
    then show ?thesis
      using 2 by simp
  next
    case False
    then have "c \<noteq> opt_char CHR ''W''"
      using 2(3) W_is_no_code by auto
    moreover obtain o2 where o2: "ApplyOption c optarg opts = Inr o2" "ParseOptions rest o2 = Inr opts'"
      using 2(4) False by (auto split: sum.splits)
    ultimately have "expressible o2"
      using ApplyOption_expressible [OF 2(2)] by blast
    then show ?thesis
      using 2(1) [OF False o2(1)] 2(3) o2(2) by auto
  qed
qed simp

lemma render_codes: "fst ` set (render_options o1) \<subseteq> insert OPTIONS_END (set option_codes)"
proof -
  have flag: "list_all P (flag b c) \<longleftrightarrow> (b \<longrightarrow> P (opt_char c, []))" for P b c
    by (simp add: flag_def)
  have codes: "list_all (\<lambda>c. opt_char c \<in> set option_codes) ''FJhaCDSeocriIs''"
    by (simp add: option_codes_def cli_options_def)
  have "list_all (\<lambda>x. fst x \<in> insert OPTIONS_END (set option_codes)) (render_options o1)"
    using codes by (simp add: render_options_def flag list.pred_map list.pred_True comp_def)
  then show ?thesis
    by (auto simp: list_all_iff)
qed

end
