(* ===== verification/Launch.thy ===== *)
theory Launch
  imports Progress Tracee CommandLine
begin

text \<open>
  \<^verbatim>\<open>SetupTracer\<close>, \<^verbatim>\<open>SetupSignalForwarding\<close>, \<^verbatim>\<open>TraceProgram\<close> and \<^verbatim>\<open>TraceMe\<close> of \<^verbatim>\<open>optrace.cpp\<close>, on
  both sides of the \<^verbatim>\<open>fork\<close>, and \<^verbatim>\<open>main\<close> around them.
\<close>

section \<open>Attaching\<close>

record host =
  UnameRelease :: "string option"
  Strverscmp :: "string \<Rightarrow> string \<Rightarrow> int"
  SignalMaskOk :: bool
  ForkedPid :: int
  FirstWaits :: "wait_result list" \<comment> \<open>what \<^verbatim>\<open>waitpid\<close> returns, call by call\<close>
  SetOptionsError :: "int option"
  FirstRequestError :: "int option"

definition KernelVerGreaterOrEqual :: "host \<Rightarrow> string \<Rightarrow> failure + bool" where
  "KernelVerGreaterOrEqual h ver =
     (case UnameRelease h of
        None \<Rightarrow> Inl (Assertion ''uname(&un) == 0'')
      | Some release \<Rightarrow> Inr (Strverscmp h release ver \<ge> 0))"

text \<open>\<^verbatim>\<open>waitpid\<close> is repeated while it is interrupted.\<close>

fun wait_first :: "wait_result list \<Rightarrow> wait_result option" where
  "wait_first [] = None"
| "wait_first (w # ws) = (if w = WaitError EINTR then wait_first ws else Some w)"

definition PTRACE_O_TRACESYSGOOD :: u64 where "PTRACE_O_TRACESYSGOOD = 0x1"
definition PTRACE_O_TRACEFORK :: u64 where "PTRACE_O_TRACEFORK = 0x2"
definition PTRACE_O_TRACEVFORK :: u64 where "PTRACE_O_TRACEVFORK = 0x4"
definition PTRACE_O_TRACECLONE :: u64 where "PTRACE_O_TRACECLONE = 0x8"
definition PTRACE_O_TRACEEXEC :: u64 where "PTRACE_O_TRACEEXEC = 0x10"
definition PTRACE_O_TRACEEXIT :: u64 where "PTRACE_O_TRACEEXIT = 0x40"
definition PTRACE_O_TRACESECCOMP :: u64 where "PTRACE_O_TRACESECCOMP = 0x80"
definition PTRACE_O_EXITKILL :: u64 where "PTRACE_O_EXITKILL = 0x100000"

lemmas ptrace_option_defs =
  PTRACE_O_TRACESYSGOOD_def PTRACE_O_TRACEFORK_def PTRACE_O_TRACEVFORK_def PTRACE_O_TRACECLONE_def
  PTRACE_O_TRACEEXEC_def PTRACE_O_TRACEEXIT_def PTRACE_O_TRACESECCOMP_def PTRACE_O_EXITKILL_def

definition PtraceOptions :: "options \<Rightarrow> bool \<Rightarrow> u64" where
  "PtraceOptions opts useSecComp =
     (PTRACE_O_TRACESYSGOOD OR PTRACE_O_TRACEEXEC OR PTRACE_O_TRACEEXIT) OR
     (if FollowForks opts then PTRACE_O_TRACECLONE OR PTRACE_O_TRACEFORK OR PTRACE_O_TRACEVFORK else 0) OR
     (if JailForks opts then PTRACE_O_EXITKILL else 0) OR
     (if useSecComp then PTRACE_O_TRACESECCOMP else 0)"

text \<open>The options that were set. \<open>None\<close>: \<^verbatim>\<open>waitpid\<close> has not returned.\<close>

definition SetupTracer :: "host \<Rightarrow> options \<Rightarrow> bool \<Rightarrow> failure + u64 option" where
  "SetupTracer h opts useSecComp =
     (case wait_first (FirstWaits h) of
        None \<Rightarrow> Inr None
      | Some (WaitError errno) \<Rightarrow> Inl (Exit 2)
      | Some (WaitStatus pid status) \<Rightarrow>
          if \<not> WIFSTOPPED status \<and> int (WSTOPSIG status) \<noteq> SIGTRAP then Inl (Exit 2)
          else let ptraceOpts = PtraceOptions opts useSecComp
               in bindR (PtraceSetOptions (SetOptionsError h)) (\<lambda>_. Inr (Some ptraceOpts)))"

text \<open>
  \<^verbatim>\<open>sigaction\<close> refuses numbers that are no signals, the two that cannot be caught, and the two that
  the C library keeps for itself.
\<close>

definition sigaction_ok :: "int \<Rightarrow> bool" where
  "sigaction_ok signum \<longleftrightarrow> 1 \<le> signum \<and> signum \<le> 64 \<and> signum \<notin> {9, 19, 32, 33}"

fun SetupSignalForwarding :: "int list \<Rightarrow> failure + unit" where
  "SetupSignalForwarding [] = Inr ()"
| "SetupSignalForwarding (signum # signums) =
     bindR (assertR ''sigaction(signum, &sa, nullptr) == 0'' (sigaction_ok signum))
       (\<lambda>_. SetupSignalForwarding signums)"

text \<open>\<^verbatim>\<open>SIGHUP, SIGINT, SIGQUIT, SIGILL, SIGABRT, SIGFPE, SIGSEGV, SIGPIPE, SIGALRM, SIGTERM, SIGUSR1, SIGUSR2\<close>.\<close>

definition all_signals :: "int list" where
  "all_signals = [1, 2, 3, 4, 6, 8, 11, 13, 14, 15, 10, 12]"

definition ForwardedSignals :: "options \<Rightarrow> int list" where
  "ForwardedSignals opts =
     (if ForwardAllSignals opts then all_signals
      else if ForwardingSignals opts \<noteq> [] then ForwardingSignals opts
      else [])"

section \<open>The whole run\<close>

definition UsesSecComp :: "host \<Rightarrow> options \<Rightarrow> failure + bool" where
  "UsesSecComp h opts =
     (if UseSecComp opts then KernelVerGreaterOrEqual h ''3.5.0-0'' else Inr False)"

definition Settings :: "arch \<Rightarrow> pid \<Rightarrow> options \<Rightarrow> bool \<Rightarrow> bool \<Rightarrow> setting" where
  "Settings a tracee opts useSecComp isV2 =
     \<lparr>Arch = a, Tracee = tracee, FollowsForks = FollowForks opts, WaitsDaemons = WaitDaemons opts,
      SecComp = useSecComp, SecCompVer = (if isV2 then SEC_COMP_V2 else SEC_COMP_V1)\<rparr>"

text \<open>
  \<^verbatim>\<open>RunTracer\<close>: the first restart, which must find the tracee alive, and the loop. A list of inputs
  that ends leaves it waiting.
\<close>

definition RunTracer ::
  "arch \<Rightarrow> host \<Rightarrow> (wait_result \<times> answers) list \<Rightarrow> options \<Rightarrow> bool \<Rightarrow> tcontext \<Rightarrow> failure + outcome" where
  "RunTracer a h inputs opts useSecComp c =
     bindR (PtraceRequest (FirstRequestError h)) (\<lambda>res.
     bindR (assertR ''!Ptrace...Syscall(traceePid, 0)'' (res = 0)) (\<lambda>_.
     bindR (KernelVerGreaterOrEqual h ''4.8.0-0'') (\<lambda>isV2.
       let cfg = Settings a (ForkedPid h) opts useSecComp isV2
       in turns cfg inputs (StartTracer cfg c))))"

text \<open>
  How \<^verbatim>\<open>TraceProgram\<close> ends: the tracer waits for its tracees, returns, or leaves with \<^verbatim>\<open>_exit\<close> when it was
  given no program; in the child the program runs, or the function returns 0 to its caller, which
  is the tracee from then on.
\<close>

datatype program_end =
    Waits
  | Returns int "report option"
  | Leaves int "report option"
  | ChildRuns "child_call list"
  | ChildReturns "child_call list"

definition ChildSide :: "arch \<Rightarrow> host \<Rightarrow> child_errors \<Rightarrow> string list option \<Rightarrow> bool \<Rightarrow> failure + program_end" where
  "ChildSide a h err argv useSecComp =
     bindR (assertR ''sigprocmask(SIG_SETMASK, &oldmask, nullptr) == 0'' (SignalMaskOk h)) (\<lambda>_.
     bindR (RunTracee a err argv useSecComp []) (\<lambda>log.
       Inr (case argv of None \<Rightarrow> ChildReturns log | Some _ \<Rightarrow> ChildRuns log)))"

definition TraceProgram ::
  "arch \<Rightarrow> host \<Rightarrow> child_errors \<Rightarrow> os \<Rightarrow> report_env \<Rightarrow> (wait_result \<times> answers) list \<Rightarrow> string list option \<Rightarrow> options \<Rightarrow>
    failure + program_end" where
  "TraceProgram a h err os env inputs argv opts =
     bindR (UsesSecComp h opts) (\<lambda>useSecComp.
     bindR (assertR ''sigprocmask(SIG_SETMASK, &newmask, &oldmask) == 0'' (SignalMaskOk h)) (\<lambda>_.
     if ForkedPid h < 0 then Inl (Exit 2)
     else if ForkedPid h = 0 then ChildSide a h err argv useSecComp
     else bindR (SetupTracer h opts useSecComp) (\<lambda>attached.
       case attached of
         None \<Rightarrow> Inr Waits
       | Some ptraceOpts \<Rightarrow>
           bindR (SetupSignalForwarding (ForwardedSignals opts)) (\<lambda>_.
           bindR (assertR ''sigprocmask(SIG_SETMASK, &oldmask, nullptr) == 0'' (SignalMaskOk h)) (\<lambda>_.
           bindR (RegisterTracee os (ForkedPid h) (NewContext opts)) (\<lambda>c.
           bindR (RunTracer a h inputs opts useSecComp c) (\<lambda>out.
             case out of
               Again s \<Rightarrow> Inr Waits
             | Return rc s \<Rightarrow>
                 bindR (PostProcess env rc (Ctx s)) (\<lambda>(rc', report).
                   Inr (case argv of None \<Rightarrow> Leaves rc' report | Some _ \<Rightarrow> Returns rc' report)))))))))"

definition TraceMe ::
  "arch \<Rightarrow> host \<Rightarrow> child_errors \<Rightarrow> os \<Rightarrow> report_env \<Rightarrow> (wait_result \<times> answers) list \<Rightarrow> options \<Rightarrow> failure + program_end" where
  "TraceMe a h err os env inputs opts = TraceProgram a h err os env inputs None opts"

text \<open>
  \<^verbatim>\<open>main\<close>: the help goes to the standard output; after the option loop there must be a program to run and,
  with \<^verbatim>\<open>--output\<close>, a file that opens.
\<close>

definition MainStdout :: "(int \<times> string) list \<Rightarrow> string" where
  "MainStdout cmdline = (if ParseOptions cmdline GetDefaults = Inl 0 then printHelp else [])"

definition MainProgram ::
  "(int \<times> string) list \<Rightarrow> string list \<Rightarrow> report_env \<Rightarrow> (string list option \<Rightarrow> options \<Rightarrow> failure + program_end) \<Rightarrow>
    failure + program_end" where
  "MainProgram cmdline prog env run =
     (case ParseOptions cmdline GetDefaults of
        Inl rc \<Rightarrow> Inr (Returns rc None)
      | Inr opts \<Rightarrow>
          if prog = [] then Inr (Returns 1 None)
          else if Output opts \<noteq> [] \<and> OpenFails env (Output opts) \<noteq> None then Inr (Returns 1 None)
          else run (Some prog) opts)"

lemma ChildSide_cases:
  assumes "ChildSide a h err argv useSecComp = Inr r"
  obtains "argv = None" "r = ChildReturns (child_log a useSecComp None)" "SignalMaskOk h"
  | args where "argv = Some args" "r = ChildRuns (child_log a useSecComp argv)" "SignalMaskOk h"
  using assms by (cases argv) (auto simp: ChildSide_def bindR_eq_Inr_iff RunTracee_Inr_iff)

end
