(* ===== verification/TracerTypes.thy ===== *)
theory TracerTypes
  imports TracerRun
begin

text \<open>
  The ranges of what the loop keeps: only stops are suspended, the numbers in \<^verbatim>\<open>syscallStateMap\<close> fit its
  \<^verbatim>\<open>int\<close>, and exit codes are those of a process, so the tracer's own exit code is one, too.
\<close>

definition int_range :: "int set" where
  "int_range = {- (2 ^ 31)..<2 ^ 31}"

definition exit_codes :: "int set" where
  "exit_codes = {0..255}"

definition typed :: "tracer \<Rightarrow> bool" where
  "typed s \<longleftrightarrow>
     (\<forall>status\<in>ran (Suspended s). WIFSTOPPED status) \<and>
     ran (SyscallState s) \<subseteq> int_range \<and>
     TraceeExitCode s \<in> insert EXIT_CODE_UNKNOWN exit_codes"

lemma typedI:
  assumes "\<forall>status\<in>ran (Suspended s). WIFSTOPPED status" "ran (SyscallState s) \<subseteq> int_range"
    "TraceeExitCode s \<in> insert EXIT_CODE_UNKNOWN exit_codes"
  shows "typed s"
  using assms by (simp add: typed_def)

lemma typed_simps [simp]:
  "typed (s\<lparr>Log := l\<rparr>) \<longleftrightarrow> typed s"
  "typed (s\<lparr>Ctx := c\<rparr>) \<longleftrightarrow> typed s"
  by (simp_all add: typed_def)

lemma ran_upd: "ran (m(k \<mapsto> v)) \<subseteq> insert v (ran m)" "ran (m(k := None)) \<subseteq> ran m"
  by (auto simp: ran_def split: if_splits)

lemma typed_set_state: "typed s \<Longrightarrow> v \<in> int_range \<Longrightarrow> typed (set_state pid v s)"
  using ran_upd(1) [of "SyscallState s" pid v] by (auto simp: typed_def set_state_def)

lemma typed_suspend: "typed s \<Longrightarrow> WIFSTOPPED status \<Longrightarrow> typed (s\<lparr>Suspended := (Suspended s)(pid \<mapsto> status)\<rparr>)"
  using ran_upd(1) [of "Suspended s" pid status] by (auto simp: typed_def)

lemma undefined_in_range [simp]: "SYSCALL_UNDEFINED \<in> int_range"
  by (simp add: int_range_def SYSCALL_UNDEFINED_def)

lemma to_int32_in_range [simp]: "to_int32 n \<in> int_range"
  using sint_range_size [of "word_of_int n :: u32"]
  by (simp add: to_int32_def int_range_def word_size)

lemma vanishThread_typed:
  assumes "typed s" "vanishThread ans pid notify s = Inr s'"
  shows "typed s'"
  using assms(2)
proof (rule vanishThread_cases)
  fix c'
  assume "s' = s\<lparr>Ctx := c', SyscallState := (SyscallState s)(pid := None), Log := Log s @ [Restart pid 0]\<rparr>"
  then show ?thesis
    using assms(1) ran_upd(2) [of "SyscallState s" pid] by (auto simp: typed_def)
qed

lemma HandleNewChild_typed:
  assumes "typed s" "HandleNewChild cfg ans pid child isThread s = Inr s'"
  shows "typed s'"
  using assms(2)
proof (rule HandleNewChild_cases)
  fix c'
  assume "s' = s\<lparr>Ctx := c', SyscallState := (SyscallState s)(child \<mapsto> SYSCALL_UNDEFINED),
        Suspended := (Suspended s)(child := None), Log := Log s @ resumed cfg child s\<rparr>"
  then show ?thesis
    using assms(1) ran_upd(1) [of "SyscallState s" child SYSCALL_UNDEFINED] ran_upd(2) [of "Suspended s" child]
      undefined_in_range by (auto simp: typed_def)
qed

lemma HandleEvent_typed:
  assumes t: "typed s" and r: "HandleEvent cfg ans pid event stop s = Inr f"
  shows "typed (flow_state f)"
  using r
proof (cases rule: HandleEvent_cases)
  case (child ch isThread s1)
  then show ?thesis
    using HandleNewChild_typed [OF t child(3)] by (simp add: flow_state_def)
next
  case (thread_exec c' thread s1)
  then show ?thesis
    using vanishThread_typed [OF _ thread_exec(5)] t by (simp add: flow_state_def)
qed (use t in \<open>auto simp: flow_state_def intro: typed_set_state\<close>)

lemma HandleSyscallStop_typed:
  assumes t: "typed s" and r: "HandleSyscallStop cfg ans pid s = Inr f"
  shows "typed (stop_state f)"
proof -
  obtain r0 where r0: "PtraceGetRegs (Regs ans) = Inr r0"
    using r by (auto simp: HandleSyscallStop_def bindR_eq_Inr_iff)
  show ?thesis
  proof (cases r0)
    case None
    then show ?thesis
      using r r0 t by (auto simp: HandleSyscallStop_def bindR_eq_Inr_iff request_defs stop_state_def dest!: request_Inr)
  next
    case (Some regs)
    then obtain prev where prev: "SyscallState s pid = Some prev"
      using r r0 by (cases "SyscallState s pid") (simp_all add: HandleSyscallStop_def)
    note ts = typed_set_state [OF t]
    show ?thesis
    proof (cases "prev = SYSCALL_UNDEFINED")
      case True
      let ?s1 = "set_state pid (to_int32 (GetSyscallNumber (Arch cfg) regs)) s"
      have "typed ?s1"
        by (rule ts) simp
      then show ?thesis
        using r r0 Some prev True
        by (cases "Arch cfg")
          (auto simp: HandleSyscallStop_def Let_def bindR_eq_Inr_iff request_defs stop_state_def split: if_splits dest!: request_Inr)
    next
      case False
      then show ?thesis
        using r r0 Some prev ts [OF undefined_in_range]
        by (auto simp: HandleSyscallStop_def bindR_eq_Inr_iff in_ctx_def stop_state_def)
    qed
  qed
qed

lemma HandleStop_typed:
  assumes t: "typed s" and r: "HandleStop cfg ans pid status s = Inr out" and st: "WIFSTOPPED status"
  shows "typed (outcome_state out)"
  using r
proof (cases rule: HandleStop_cases)
  case unknown
  then show ?thesis
    using typed_suspend [OF t st] by (simp add: outcome_state_def)
next
  case (skip s1)
  then show ?thesis
    using HandleEvent_typed [OF t skip(3)] by (simp add: outcome_state_def flow_state_def)
next
  case (stopped stop s1 f)
  have "typed s1"
    using stopped(2) t HandleEvent_typed [OF t, of cfg ans pid "EventOf status" "WSTOPSIG status = 0x85" "Through stop s1"]
    by (auto simp: flow_state_def split: if_splits)
  then have "typed (stop_state f)"
    using stopped(3) HandleSyscallStop_typed by (cases stop) (auto simp: stop_state_def)
  then show ?thesis
    using stopped(4) by (cases f) (auto simp: stop_state_def outcome_state_def elim!: ResumeTracee_Inr)
qed

lemma ExitStatus_range:
  assumes "ExitStatus status = Some code"
  shows "code \<in> exit_codes"
proof -
  have "WTERMSIG status \<le> 127"
    using word_and_le1 [of status "0x7f"] by (simp add: WTERMSIG_def word_le_nat_alt)
  moreover have "WEXITSTATUS status \<le> 255"
  proof -
    have "unat (status AND 0xff00) \<le> 0xff00"
      using word_and_le1 [of status "0xff00"] by (simp add: word_le_nat_alt)
    then show ?thesis
      by (simp add: WEXITSTATUS_def drop_bit_eq_div unat_div)
  qed
  ultimately show ?thesis
    using assms by (auto simp: ExitStatus_def exit_codes_def split: if_splits)
qed

text \<open>What the loop returns: an exit code of a process, or the code of its own sanity check.\<close>

definition return_code :: "outcome \<Rightarrow> int set" where
  "return_code out = (case out of Again s \<Rightarrow> {} | Return rc s \<Rightarrow> {rc})"

lemma turn_typed:
  assumes t: "typed s" and r: "turn cfg w ans s = Inr out"
  shows "typed (outcome_state out) \<and> return_code out \<subseteq> insert (- 2) exit_codes"
  using r
proof (cases rule: turn_cases)
  case (stop pid status)
  have "return_code out \<subseteq> {- 2}"
    using stop(3) by (cases rule: HandleStop_cases) (auto simp: return_code_def split: stop_flow.splits)
  then show ?thesis
    using HandleStop_typed [OF t stop(3,2)] by auto
next
  case (exit pid status c' code)
  have code: "code \<in> exit_codes"
    using exit(4) by (rule ExitStatus_range)
  from exit(5) show ?thesis
  proof (rule HandleExit_cases)
    fix s1
    assume v: "vanishThread ans pid True (s\<lparr>Ctx := c'\<rparr>) = Inr s1"
      and out: "out = (if pid = Tracee cfg then
         if FollowsForks cfg \<and> WaitsDaemons cfg then
            Again (if TraceeExitCode s1 = EXIT_CODE_UNKNOWN then s1\<lparr>TraceeExitCode := code\<rparr> else s1)
          else Return code s1
       else Again s1)"
    have "typed s1"
      using vanishThread_typed [OF _ v] t by simp
    then show ?thesis
      using code by (auto simp: out outcome_state_def return_code_def typed_def)
  qed
next
  case no_child
  then show ?thesis
    using t by (auto simp: outcome_state_def return_code_def typed_def exit_codes_def SIGKILL_def)
qed (use t in \<open>auto simp: outcome_state_def return_code_def\<close>)

lemma StartTracer_typed: "typed (StartTracer cfg c)"
  by (auto simp: typed_def StartTracer_def ran_def split: if_splits)

text \<open>Every state between two turns, in whatever order the kernel reports.\<close>

inductive reach_any :: "setting \<Rightarrow> tcontext \<Rightarrow> tracer \<Rightarrow> bool" for cfg :: setting and c :: tcontext where
  start: "reach_any cfg c (StartTracer cfg c)"
| step: "reach_any cfg c s \<Longrightarrow> turn cfg w ans s = Inr (Again s') \<Longrightarrow> reach_any cfg c s'"

inductive_cases reach_anyE: "reach_any cfg c s"

lemma reach_any_typed: "reach_any cfg c s \<Longrightarrow> typed s"
proof (induction rule: reach_any.induct)
  case (step s w ans s')
  then show ?case
    using turn_typed by (fastforce simp: outcome_state_def)
qed (rule StartTracer_typed)

lemma reach_reach_any: "reach cfg c s \<Longrightarrow> reach_any cfg c s"
  by (induction rule: reach.induct) (auto intro: reach_any.intros)

end
