(* ===== verification/RunProps.thy ===== *)
theory RunProps
  imports Launch TracerTypes ContextProps FileProps
begin

text \<open>
  Properties of the tracer's loop and of the end of a run.
\<close>

section \<open>A concrete run\<close>

text \<open>
  The tracer follows process 7 of the small context; the kernel answers every request.
\<close>

definition demo_setting :: setting where
  "demo_setting = Settings X86_64 7 GetDefaults True True"

definition demo_answers :: "int answer \<Rightarrow> user_regs answer \<Rightarrow> answers" where
  "demo_answers msg regs =
     \<lparr>EventMsg = msg, PeekedRegs = regs, Regs = regs, RequestError = (\<lambda>_. None), Machine = link_os\<rparr>"

definition demo_start :: tracer where
  "demo_start = StartTracer demo_setting demo"

lemma demo_setting_simps [simp]:
  "Arch demo_setting = X86_64" "Tracee demo_setting = 7" "FollowsForks demo_setting" "\<not> WaitsDaemons demo_setting"
  "SecComp demo_setting" "SecCompVer demo_setting = 2"
  by (simp_all add: demo_setting_def Settings_def GetDefaults_def SEC_COMP_V2_def)

lemma demo_answers_simps [simp]:
  "EventMsg (demo_answers msg regs) = msg" "PeekedRegs (demo_answers msg regs) = regs"
  "Regs (demo_answers msg regs) = regs" "RequestError (demo_answers msg regs) act = None"
  "Machine (demo_answers msg regs) = link_os"
  by (simp_all add: demo_answers_def)

lemma demo_start_simps [simp]:
  "Ctx demo_start = demo" "SyscallState demo_start = [7 \<mapsto> -1]" "Suspended demo_start = (\<lambda>_. None)"
  "TraceeExitCode demo_start = -1" "Log demo_start = []" "followed demo_start = {7}"
  by (simp_all add: demo_start_def StartTracer_def tracer_consts followed_def)

lemma demo_ready [simp]: "ready demo_setting demo"
  by (simp add: ready_def)

lemma demo_ok [simp]: "tracer_ok demo_start" "followed_led demo_start"
  using ready_start [OF demo_ready] by (simp_all add: demo_start_def)

text \<open>The statuses of a group stop by \<^verbatim>\<open>SIGINT\<close>, a system call stop, a seccomp stop and two exits.\<close>

lemma demo_statuses [simp]:
  "WIFSTOPPED 0x27f" "WSTOPSIG 0x27f = 2" "EventOf 0x27f = 0"
  "WIFSTOPPED 0x857f" "WSTOPSIG 0x857f = 0x85" "EventOf 0x857f = 0"
  "WIFSTOPPED 0x7057f" "WSTOPSIG 0x7057f = 5" "EventOf 0x7057f = 7"
  "\<not> WIFSTOPPED 0x300" "ExitStatus 0x300 = Some 3" "\<not> WIFSIGNALED 0x300" "WIFEXITED 0x300"
  by (simp_all add: WIFSTOPPED_def WSTOPSIG_def WEXITSTATUS_def EventOf_def ExitStatus_def WIFSIGNALED_def
      WIFEXITED_def WTERMSIG_def)

section \<open>The loop\<close>

text \<open>
  C9: Whatever the kernel reports, a turn keeps the context well formed, keeps every followed thread
  known to the context, and has no thread both followed and suspended.
\<close>

theorem turn_keeps_the_invariant:
  assumes "tracer_ok s" "turn cfg w ans s = Inr out"
  shows "tracer_ok (outcome_state out)"
  by (rule turn_ok [OF assms])

lemma demo_turn: "turn demo_setting (WaitStatus 7 0x27f) (demo_answers (Inl 3) (Inl 3)) demo_start =
  Inr (Again (demo_start\<lparr>Log := [Proceed 7 2]\<rparr>))"
  by (simp add: turn_def HandleStop_def ResumeTracee_def request_defs request_def PtraceRequest_def PtraceSafeCall_def)

theorem turn_keeps_the_invariant_witness:
  "tracer_ok (demo_start\<lparr>Log := [Proceed 7 2]\<rparr>)"
  using turn_keeps_the_invariant [OF demo_ok(1) demo_turn] by (simp add: outcome_state_def)

text \<open>
  C10: Every stop of a followed thread that does not end the run is answered by exactly one request
  that lets that thread go on.
\<close>

theorem every_stop_is_resumed_once:
  assumes "tracer_ok s" "pid \<in> followed s" "WIFSTOPPED status"
    and "turn cfg (WaitStatus pid status) ans s = Inr (Again s')"
  shows "resumptions pid s' = Suc (resumptions pid s)"
proof -
  have "HandleStop cfg ans pid status s = Inr (Again s')"
    using assms(3,4) by (simp add: turn_def)
  then show ?thesis
    by (rule HandleStop_resumes [OF assms(1,2)])
qed

theorem every_stop_is_resumed_once_witness:
  "resumptions 7 (demo_start\<lparr>Log := [Proceed 7 2]\<rparr>) = 1"
  using every_stop_is_resumed_once [OF demo_ok(1) _ _ demo_turn] by (simp add: resumptions_def)


lemma demo_clone: "HandleNewChild demo_setting (demo_answers (Inr 8) (Inl 3)) 7 8 True
    (demo_start\<lparr>Suspended := [8 \<mapsto> 0x137f]\<rparr>) =
  Inr (demo_start\<lparr>Ctx := demo\<lparr>ProcMap := [(7, 0), (8, 0)]\<rparr>, SyscallState := [7 \<mapsto> -1, 8 \<mapsto> -1],
    Suspended := (\<lambda>_. None), Log := [Proceed 8 0]\<rparr>)"
  by (simp add: HandleNewChild_def in_ctx_def RegisterThread_def set_state_def request_defs request_def
      PtraceRequest_def PtraceSafeCall_def tracer_consts Let_def)


text \<open>
  C11: A plain system call stop enters a call or leaves it. Entering changes no table; leaving applies
  \<^verbatim>\<open>SyscallExit\<close> exactly once and makes the next stop an entry. Nothing else moves the context.
\<close>

theorem stops_alternate:
  assumes "SyscallState s pid = Some prev" "Regs ans = Inr regs" "HandleSyscallStop cfg ans pid s = Inr (StopDone s')"
  shows "if prev = SYSCALL_UNDEFINED
    then Ctx s' = Ctx s \<and> SyscallState s' pid = Some (to_int32 (GetSyscallNumber (Arch cfg) regs))
    else SyscallExit (Arch cfg) (Machine ans) pid regs (Ctx s) = Inr (Ctx s') \<and>
      SyscallState s' pid = Some SYSCALL_UNDEFINED"
proof (cases "prev = SYSCALL_UNDEFINED")
  case True
  then have "s' = (set_state pid (to_int32 (GetSyscallNumber (Arch cfg) regs)) s)\<lparr>Log := Log s'\<rparr>"
    using assms by (cases "Arch cfg")
      (auto simp: HandleSyscallStop_def PtraceGetRegs_def SyscallEnter_def Let_def bindR_eq_Inr_iff request_defs
        set_state_def split: if_splits dest!: request_Inr)
  then have "Ctx s' = Ctx s \<and> SyscallState s' = (SyscallState s)(pid \<mapsto> to_int32 (GetSyscallNumber (Arch cfg) regs))"
    by (metis set_state_def tracer.select_convs(1,2) tracer.update_convs(2) tracer.surjective tracer.update_convs(5))
  with True show ?thesis
    by simp
next
  case False
  then show ?thesis
    using assms
    by (auto simp: HandleSyscallStop_def PtraceGetRegs_def bindR_eq_Inr_iff in_ctx_def set_state_def)
qed

definition demo_entered :: tracer where
  "demo_entered = demo_start\<lparr>SyscallState := [7 \<mapsto> 3]\<rparr>"

lemma demo_leave: "HandleSyscallStop demo_setting (demo_answers (Inl 3) (Inr (call_regs 3 0 1 0 0))) 7 demo_entered =
  Inr (StopDone (demo_start\<lparr>Ctx := closed 0 1 0 demo\<rparr>))"
  using OpClose_eq [OF demo_wf, of 7 0 1]
  by (simp add: HandleSyscallStop_def demo_entered_def PtraceGetRegs_def in_ctx_def set_state_def tracer_consts
      SyscallExit_def Let_def sysno_defs demo_start_def StartTracer_def)

theorem stops_alternate_witness:
  "SyscallExit X86_64 link_os 7 (call_regs 3 0 1 0 0) demo = Inr (closed 0 1 0 demo)"
  using stops_alternate [OF _ _ demo_leave] by (simp add: demo_entered_def tracer_consts)


lemma demo_exit: "turn demo_setting (WaitStatus 7 0x300) (demo_answers (Inl 3) (Inl 3)) demo_start =
  Inr (Return 3 (demo_start\<lparr>Ctx := vanished 7 0 demo, SyscallState := (\<lambda>_. None), Log := [Restart 7 0]\<rparr>))"
  using VanishProcess_eq [OF demo_wf, of 7 0]
  by (simp add: turn_def HandleExit_def vanishThread_def in_ctx_def request_defs request_def PtraceRequest_def
      PtraceSafeCall_def Let_def fun_eq_iff)


text \<open>
  C6: When the kernel reports in its documented order, every state of the loop is well formed, and
  every table that can hold an open file has a group leader that will record it.
\<close>

theorem reachable_states_are_led:
  assumes "reach cfg c s" "ready cfg c"
  shows "wf_ctx (Ctx s) \<and> led (Ctx s) \<and> followed_led s \<and> Opts (Ctx s) = Opts c"
  using reach_inv [OF assms] by (auto simp: tracer_ok_def followed_led_def config_def)

lemma demo_reach: "reach demo_setting demo (demo_start\<lparr>Log := [Proceed 7 2]\<rparr>)"
  by (rule reach.step [OF reach.start, of _ _ "WaitStatus 7 0x27f" "demo_answers (Inl 3) (Inl 3)"])
    (simp_all add: orderly_def demo_turn flip: demo_start_def)

theorem reachable_states_are_led_witness: "led demo \<and> reach demo_setting demo (demo_start\<lparr>Log := [Proceed 7 2]\<rparr>)"
  using reachable_states_are_led [OF demo_reach] demo_reach by simp


lemma demo_links: "links_readable link_os"
  by (simp add: links_readable_def link_os_def)

lemma demo_pattern: "well_paired (Mask (DefaultPattern link_os cwd))"
  by (simp add: DefaultPattern_def ReadFileSafe_def link_os_def Let_def)

lemma demo_answered: "answered X86_64 (demo_answers (Inl 3) (Inl 3))"
  using demo_links demo_pattern by (simp add: answered_def gone_def ESRCH_def)


text \<open>
  C23: Whatever the kernel reports, in whatever order, only stops are kept for later, the numbers in
  \<^verbatim>\<open>syscallStateMap\<close> fit its \<^verbatim>\<open>int\<close>, and what the loop returns is the exit code of a process, from 0 to
  255, or the \<open>-2\<close> of its sanity check.
\<close>

theorem loop_values_are_typed:
  assumes "reach_any cfg c s"
  shows "typed s \<and> (\<forall>w ans rc s'. turn cfg w ans s = Inr (Return rc s') \<longrightarrow> rc = - 2 \<or> 0 \<le> rc \<and> rc \<le> 255)"
proof (intro conjI allI impI)
  show t: "typed s"
    by (rule reach_any_typed [OF assms])
  fix w ans rc s'
  assume "turn cfg w ans s = Inr (Return rc s')"
  then have "rc \<in> insert (- 2) exit_codes"
    using turn_typed [OF t, of cfg w ans "Return rc s'"] by (simp add: return_code_def)
  then show "rc = - 2 \<or> 0 \<le> rc \<and> rc \<le> 255"
    by (auto simp: exit_codes_def)
qed

theorem loop_values_are_typed_witness:
  "typed (demo_start\<lparr>Log := [Proceed 7 2]\<rparr>) \<and> SyscallState (demo_start\<lparr>Log := [Proceed 7 2]\<rparr>) 7 = Some (- 1)"
  using loop_values_are_typed [OF reach_reach_any [OF demo_reach]] by simp

section \<open>The end of a run\<close>


definition demo_env :: report_env where
  "demo_env = \<lparr>OpenFails = (\<lambda>_. None), SetOrder = id, PointerValue = id\<rparr>"




text \<open>
  C39: An \<^verbatim>\<open>execve\<close> by a thread that is not the leader leaves the thread's old id registered, although
  the thread is gone and no longer followed: when the kernel gives that id to a new process, registering
  it fails the assertion and the tracer aborts.
\<close>

theorem thread_exec_leaves_a_stale_id:
  assumes ok: "tracer_ok s" and msg: "EventMsg ans = Inr thread" "0 \<le> thread" "thread \<noteq> pid"
    and r: "HandleEvent cfg ans pid PTRACE_EVENT_EXEC False s = Inr f"
  shows "thread \<notin> followed (flow_state f) \<and>
    (\<forall>os parent. RegisterProcess os parent thread (Ctx (flow_state f)) =
      Inl (Assertion ''ProcMap.find(child) == ProcMap.end()''))"
proof -
  have "\<not> thread < 0"
    using msg(2) by simp
  then obtain c' s1 where e: "RegisterExec (Machine ans) pid (Ctx s) = Inr c'"
    and v: "vanishThread ans thread False (s\<lparr>Ctx := c'\<rparr>) = Inr s1" and f: "f = Through False s1"
    using r msg by (auto simp: HandleEvent_def PtraceGetEventMsg_def ptrace_event_defs bindR_eq_Inr_iff in_ctx_def)
  from v show ?thesis
  proof (rule vanishThread_cases)
    fix c1
    assume known: "SyscallState (s\<lparr>Ctx := c'\<rparr>) thread \<noteq> None"
      and c1: "if False then VanishProcess thread (Ctx (s\<lparr>Ctx := c'\<rparr>)) = Inr c1 else c1 = Ctx (s\<lparr>Ctx := c'\<rparr>)"
      and s1: "s1 = s\<lparr>Ctx := c'\<rparr>\<lparr>Ctx := c1, SyscallState := (SyscallState (s\<lparr>Ctx := c'\<rparr>))(thread := None),
        Log := Log (s\<lparr>Ctx := c'\<rparr>) @ [Restart thread 0]\<rparr>"
    have "thread \<in> followed s"
      using known by (simp add: followed_iff)
    then have "map_of (ProcMap (Ctx s)) thread \<noteq> None"
      using tracer_okD(2) [OF ok] known_fst by blast
    then have "(map_of (ProcMap c') thread = None) = False"
      using exec_effect(1) [OF tracer_okD(1) [OF ok] e] by simp
    then have "RegisterProcess os parent thread c' = Inl (Assertion ''ProcMap.find(child) == ProcMap.end()'')" for os parent
      by (simp only: RegisterProcess_def assertR_False bindR_Inl)
    moreover have "Ctx s1 = c'" "thread \<notin> followed s1"
      using c1 by (auto simp: s1 followed_def)
    ultimately show ?thesis
      by (simp add: f flow_state_def)
  qed
qed

definition demo_threads :: tracer where
  "demo_threads = demo_start\<lparr>Ctx := demo\<lparr>ProcMap := [(7, 0), (8, 0)]\<rparr>, SyscallState := [7 \<mapsto> -1, 8 \<mapsto> -1]\<rparr>"

lemma demo_threads_ok: "tracer_ok demo_threads"
proof -
  have r: "HandleNewChild demo_setting (demo_answers (Inr 8) (Inl 3)) 7 8 True demo_start =
      Inr demo_threads"
    by (simp add: demo_threads_def HandleNewChild_def in_ctx_def RegisterThread_def set_state_def tracer_consts Let_def)
  show ?thesis
    by (rule HandleNewChild_ok [OF demo_ok(1) r])
qed

lemma demo_thread_exec: "\<exists>f. HandleEvent demo_setting (demo_answers (Inr 8) (Inl 3)) 7 PTRACE_EVENT_EXEC False demo_threads = Inr f"
proof -
  let ?c = "Ctx demo_threads"
  have w: "wf_ctx ?c"
    using tracer_okD(1) [OF demo_threads_ok] .
  have p: "map_of (ProcMap ?c) 7 = Some 0"
    by (simp add: demo_threads_def)
  obtain newfds c1 where copy: "copy_table link_os (\<lambda>f. \<not> IsCloexecSet f) (GetHighestFd ?c (fds_of ?c 0) True)
      (fds_of ?c 0) ?c = (newfds, c1)"
    by fastforce
  let ?ps = "(NewProcState link_os ?c 7 (Ppid (snd (ProcInfo (Procs ?c 0)))))\<lparr>Fds := newfds\<rparr>"
  have new: "only_new_files ?c c1"
    using copy_table_inherits(2) [of "fds_of ?c 0" ?c link_os True newfds c1] copy
      table_allocated [OF w map_of_live [OF p]] by simp
  have "wf_ctx (alloc_proc ?ps c1)" "map_of (ProcMap (alloc_proc ?ps c1)) 7 = Some 0"
    using alloc_proc_wf [OF only_new_files_wf [OF new w]] new p by (simp_all add: only_new_files_def)
  from VanishProcess_eq [OF this] have "\<exists>c'. RegisterExec link_os 7 ?c = Inr c'"
    using copy p by (simp add: RegisterExec_def GetProcState_def Let_def)
  then obtain c' where "RegisterExec link_os 7 ?c = Inr c'" ..
  then show ?thesis
    by (simp add: HandleEvent_def PtraceGetEventMsg_def ptrace_event_defs in_ctx_def vanishThread_def demo_threads_def
        request_defs request_def PtraceRequest_def PtraceSafeCall_def Let_def)
qed

theorem thread_exec_leaves_a_stale_id_witness:
  "\<exists>f. HandleEvent demo_setting (demo_answers (Inr 8) (Inl 3)) 7 PTRACE_EVENT_EXEC False demo_threads = Inr f \<and>
    RegisterProcess link_os 7 8 (Ctx (flow_state f)) = Inl (Assertion ''ProcMap.find(child) == ProcMap.end()'')"
  using demo_thread_exec thread_exec_leaves_a_stale_id [OF demo_threads_ok, of "demo_answers (Inr 8) (Inl 3)" 8 7]
  by fastforce

end
