(* ===== verification/LaunchProps.thy ===== *)
theory LaunchProps
  imports RunProps
begin

text \<open>
  Properties of the command line, of both sides of the \<^verbatim>\<open>fork\<close> and of a whole run. The witnesses are runs
  of a program that exits at once.
\<close>

section \<open>A run that is attached\<close>

text \<open>
  The tracer is the parent of the \<^verbatim>\<open>fork\<close>, every call up to the loop succeeds, and the kernel is recent
  enough for the second version of seccomp or not.
\<close>

definition attached :: "host \<Rightarrow> options \<Rightarrow> bool \<Rightarrow> bool \<Rightarrow> bool" where
  "attached h opts useSecComp modern \<longleftrightarrow>
     UsesSecComp h opts = Inr useSecComp \<and> SignalMaskOk h \<and> 0 < ForkedPid h \<and>
     (case SetupTracer h opts useSecComp of Inr (Some _) \<Rightarrow> True | _ \<Rightarrow> False) \<and>
     SetupSignalForwarding (ForwardedSignals opts) = Inr () \<and> FirstRequestError h = None \<and>
     KernelVerGreaterOrEqual h ''4.8.0-0'' = Inr modern"

lemma attached_RunTracer:
  assumes "attached h opts useSecComp modern"
  shows "RunTracer a h inputs opts useSecComp c =
    (let cfg = Settings a (ForkedPid h) opts useSecComp modern in turns cfg inputs (StartTracer cfg c))"
  using assms by (simp add: attached_def RunTracer_def PtraceRequest_def PtraceSafeCall_def Let_def)

lemma attached_TraceProgram:
  assumes "attached h opts useSecComp modern" "RegisterTracee os (ForkedPid h) (NewContext opts) = Inr c"
  shows "TraceProgram a h err os env inputs argv opts =
    bindR (let cfg = Settings a (ForkedPid h) opts useSecComp modern in turns cfg inputs (StartTracer cfg c)) (\<lambda>out.
      case out of
        Again s \<Rightarrow> Inr Waits
      | Return rc s \<Rightarrow>
          bindR (PostProcess env rc (Ctx s)) (\<lambda>(rc', report).
            Inr (case argv of None \<Rightarrow> Leaves rc' report | Some _ \<Rightarrow> Returns rc' report)))"
proof -
  obtain p where "SetupTracer h opts useSecComp = Inr (Some p)"
    using assms(1) by (auto simp: attached_def split: sum.splits option.splits)
  then show ?thesis
    using assms attached_RunTracer [OF assms(1)] by (simp add: attached_def TraceProgram_def)
qed

lemma tracee_ready:
  assumes "RegisterTracee os (ForkedPid h) (NewContext opts) = Inr c"
  shows "ready (Settings a (ForkedPid h) opts useSecComp modern) c" "Opts c = opts"
    "Capacity (FileStorage c) = FilesInReport opts"
proof -
  show "ready (Settings a (ForkedPid h) opts useSecComp modern) c"
    using RegisterTracee_ready [OF NewContext_wf NewContext_led assms] by (simp add: ready_def Settings_def)
  have "config c = config (NewContext opts)"
    by (rule RegisterTracee_config [OF assms])
  then show "Opts c = opts" "Capacity (FileStorage c) = FilesInReport opts"
    by (simp_all add: config_def NewContext_def NewFileStorage_def)
qed

text \<open>The report of a run whose loop has returned.\<close>

lemma attached_report:
  assumes "RegisterTracee os (ForkedPid h) (NewContext opts) = Inr c"
    and "orderly_run cfg inputs (StartTracer cfg c)" "turns cfg inputs (StartTracer cfg c) = Inr (Return rc s)"
    and "FilesInReport opts \<noteq> 0" "\<not> HumanReadableSizes opts"
    and cfg: "cfg = Settings a (ForkedPid h) opts useSecComp modern"
  shows "\<exists>r body. PostProcess env rc (Ctx s) = Inr (rc, Some r) \<and>
    Text r = body @ ''Total output: '' @ (show_nat (unat (accounted (Ctx s))) @ ''b'') @ endl"
proof -
  note ready = tracee_ready(1) [OF assms(1), of a useSecComp modern, folded cfg] tracee_ready(2,3) [OF assms(1)]
  obtain s1 w ans where last: "reach cfg c s1" "orderly s1 w ans" "turn cfg w ans s1 = Inr (Return rc s)"
    using turns_last [OF assms(3,2) reach.start] .
  note inv = return_inv [OF last(1) ready(1) last(2,3)]
  have "Opts (Ctx s) = opts" "Capacity (FileStorage (Ctx s)) = FilesInReport opts"
    using inv(3) ready(2,3) by (simp_all add: config_def)
  then show ?thesis
    using PostProcess_reports [OF inv(1,2)] assms(4,5) by simp
qed

section \<open>The whole run\<close>


text \<open>\<^verbatim>\<open>optrace true\<close>, with one regular file open as descriptor 5 from the start.\<close>

definition demo_host :: host where
  "demo_host = \<lparr>UnameRelease = Some ''6.1.0'', Strverscmp = (\<lambda>_ _. 1), SignalMaskOk = True, ForkedPid = 7,
     FirstWaits = [WaitError EINTR, WaitStatus 7 0x57f], SetOptionsError = None, FirstRequestError = None\<rparr>"

lemma some_os_highest: "MyHighestFd some_os = Inr 5"
proof -
  have read: "read_status [ReadBytes status_text] 0 [] = Inr (take 511 status_text)"
    by (rule read_status_full_read) (simp add: status_text_def)
  have parse: "parseLine (''64'' @ replicate 7 CHR ''y'') = Inr 64"
    by (simp add: parseLine_def is_digit_def digits_value_def)
  have none: "highest_from (FdFlags some_os) (6 + k) = 5" for k
  proof (induction k)
    case 0
    have "(6::nat) = Suc 5"
      by simp
    then show ?case
      by (simp only: add_0_right highest_from.simps) (simp add: some_os_def)
  next
    case (Suc k)
    have "6 + Suc k = Suc (6 + k)" "FdFlags some_os (int (6 + k)) < 0"
      by (simp_all add: some_os_def)
    then show ?case
      using Suc by (simp only: highest_from.simps) simp
  qed
  have "nat (64 + 1) = 6 + (59::nat)"
    by simp
  then have "highest_from (FdFlags some_os) (nat (64 + 1)) = 5"
    using none by metis
  then show ?thesis
    using read parse status_text_size by (simp add: MyHighestFd_def some_os_def [THEN arg_cong, of StatusReads])
qed

lemma some_os_fill: "\<exists>c'. fill_fds some_os p n k c = Inr c'"
proof (induction k arbitrary: c)
  case (Suc k)
  have "LinkTarget some_os f = Some ''/tmp/out''" "FdRegular some_os fd = Some (fd = 5)" for f fd
    by (simp_all add: some_os_def)
  then show ?case
    using Suc by (auto simp: Let_def IsFile_def ReadLink_def)
qed simp

lemma demo_registered: "\<exists>c. RegisterTracee some_os 7 (NewContext GetDefaults) = Inr c"
proof -
  have "map_of (ProcMap (NewContext GetDefaults)) 7 = None"
    by (simp add: NewContext_def)
  then show ?thesis
    using some_os_fill by (simp add: RegisterTracee_def FillFds_def some_os_highest Let_def)
qed

lemma demo_setting_host: "Settings X86_64 (ForkedPid demo_host) GetDefaults True True = demo_setting"
  by (simp add: demo_setting_def demo_host_def)

lemma demo_attached: "attached demo_host GetDefaults True True"
proof -
  have "UsesSecComp demo_host GetDefaults = Inr True" "KernelVerGreaterOrEqual demo_host ''4.8.0-0'' = Inr True"
    by (simp_all add: UsesSecComp_def KernelVerGreaterOrEqual_def demo_host_def GetDefaults_def)
  moreover have "SetupTracer demo_host GetDefaults True = Inr (Some (PtraceOptions GetDefaults True))"
    by (simp add: SetupTracer_def demo_host_def PtraceSetOptions_def WIFSTOPPED_def Let_def)
  moreover have "SetupSignalForwarding (ForwardedSignals GetDefaults) = Inr ()"
    by (simp add: ForwardedSignals_def GetDefaults_def sigaction_ok_def SIGINT_def)
  ultimately show ?thesis
    by (simp add: attached_def) (simp add: demo_host_def)
qed

text \<open>The only turn of the run: the tracee exits with the code 3.\<close>

definition demo_inputs :: "(wait_result \<times> answers) list" where
  "demo_inputs = [(WaitStatus 7 0x300, demo_answers (Inl 3) (Inl 3))]"

lemma demo_exit_turn:
  assumes "RegisterTracee some_os 7 (NewContext GetDefaults) = Inr c"
  obtains s where "turn demo_setting (WaitStatus 7 0x300) (demo_answers (Inl 3) (Inl 3)) (StartTracer demo_setting c) =
    Inr (Return 3 s)"
proof -
  note ready = RegisterTracee_ready [OF NewContext_wf NewContext_led assms]
  obtain p where p: "map_of (ProcMap c) 7 = Some p"
    using leader_known [OF ready(1,3)] by blast
  let ?s = "StartTracer demo_setting c"
  let ?s' = "?s\<lparr>Ctx := vanished 7 p c, SyscallState := (\<lambda>_. None), Log := [Restart 7 0]\<rparr>"
  have "turn demo_setting (WaitStatus 7 0x300) (demo_answers (Inl 3) (Inl 3)) ?s = Inr (Return 3 ?s')"
    using VanishProcess_eq [OF ready(1) p]
    by (simp add: turn_def HandleExit_def vanishThread_def in_ctx_def request_defs request_def PtraceRequest_def
        PtraceSafeCall_def Let_def fun_eq_iff StartTracer_def)
  then show ?thesis
    by (rule that)
qed

lemma demo_exit_behaved:
  assumes "RegisterTracee some_os 7 (NewContext GetDefaults) = Inr c"
  shows "behaved_run demo_setting demo_inputs (StartTracer demo_setting c)"
proof -
  let ?s = "StartTracer demo_setting c"
  obtain s where "turn demo_setting (WaitStatus 7 0x300) (demo_answers (Inl 3) (Inl 3)) ?s = Inr (Return 3 s)"
    using demo_exit_turn [OF assms] .
  moreover have "orderly ?s (WaitStatus 7 0x300) (demo_answers (Inl 3) (Inl 3))"
    "announced ?s (WaitStatus 7 0x300) (demo_answers (Inl 3) (Inl 3))"
    by (simp_all add: orderly_def only_threads_def announced_def followed_def StartTracer_def)
  ultimately show ?thesis
    using demo_answered by (simp add: demo_inputs_def)
qed




text \<open>
  C26: On the child's side of the \<^verbatim>\<open>fork\<close>: when it gets as far as its program, the filter, the request to
  be traced and the stop for the tracer came before, in this order, and the filter lets all of these
  calls pass, although there is no tracer yet; if a call fails, the child exits with 2. The message that
  it writes then may be refused by the filter.
\<close>

theorem child_is_filtered_before_it_runs:
  assumes "ForkedPid h = 0" "UsesSecComp h opts = Inr useSecComp" "SignalMaskOk h"
    and "r = TraceProgram a h err os env inputs (Some args) opts"
    and "calls = (if useSecComp then [NoNewPrivs, SetFilter (BpfProgram a)] else []) @ [AskForTracing, StopSelf, Execvp args]"
  shows "r = (if \<forall>k\<in>set calls. err k = None then Inr (ChildRuns calls) else Inl (Exit 2)) \<and>
    (\<forall>k\<in>set calls. let_pass a (call_number a k)) \<and> let_pass a (getpid_number a) \<and>
    \<not> let_pass a (ucast (SYS_write a))"
proof -
  have calls: "child_log a useSecComp (Some args) = calls"
    using assms(5) by (simp add: child_log_def)
  have side: "r = bindR (RunTracee a err (Some args) useSecComp []) (\<lambda>log. Inr (ChildRuns log))"
    using assms(1-4) by (simp add: TraceProgram_def ChildSide_def)
  show ?thesis
  proof (cases "RunTracee a err (Some args) useSecComp []")
    case (Inl e)
    then have "e = Exit 2"
      by (rule RunTracee_Inl)
    moreover have "\<not> (\<forall>k\<in>set calls. err k = None)"
      using Inl RunTracee_Inr_iff [of a err "Some args" useSecComp "[]" calls] calls by auto
    ultimately show ?thesis
      using side Inl child_calls_pass write_is_refused by auto
  next
    case (Inr log)
    then show ?thesis
      using side RunTracee_Inr_iff [of a err "Some args" useSecComp "[]" log] calls child_calls_pass write_is_refused by auto
  qed
qed

definition child_host :: host where
  "child_host = demo_host\<lparr>ForkedPid := 0\<rparr>"

theorem child_is_filtered_before_it_runs_witness:
  "TraceProgram X86_64 child_host (\<lambda>_. None) some_os demo_env [] (Some [''true'']) GetDefaults =
     Inr (ChildRuns [NoNewPrivs, SetFilter (BpfProgram X86_64), AskForTracing, StopSelf, Execvp [''true'']]) \<and>
   TraceProgram X86_64 child_host (\<lambda>k. if k = AskForTracing then Some 1 else None) some_os demo_env [] (Some [''true''])
     GetDefaults = Inl (Exit 2)"
proof -
  have "ForkedPid child_host = 0" "UsesSecComp child_host GetDefaults = Inr True" "SignalMaskOk child_host"
    by (simp_all add: child_host_def demo_host_def UsesSecComp_def KernelVerGreaterOrEqual_def GetDefaults_def)
  note run = child_is_filtered_before_it_runs [OF this refl refl, where args = "[''true'']" and a = X86_64
      and os = some_os and env = demo_env and inputs = "[]"]
  show ?thesis
    using run [of "\<lambda>_. None"] run [of "\<lambda>k. if k = AskForTracing then Some 1 else None"] by simp
qed

section \<open>The command line\<close>

lemma ApplyOption_WaitDaemons:
  "c \<noteq> opt_char CHR ''W'' \<Longrightarrow> ApplyOption c optarg opts = Inr opts' \<Longrightarrow> WaitDaemons opts' = WaitDaemons opts"
  by (auto simp: ApplyOption_def split: if_splits)

text \<open>
  No command line turns on the waiting for daemons: whatever \<^verbatim>\<open>getopt_long\<close> returns for the tables of
  \<^verbatim>\<open>main\<close>, where the option has the code \<^verbatim>\<open>w\<close>, the loop, which tests for \<^verbatim>\<open>W\<close>, leaves it off.
\<close>

theorem wait_daemons_is_never_set:
  assumes "fst ` set results \<subseteq> insert OPTIONS_END (set option_codes)" "ParseOptions results GetDefaults = Inr opts"
  shows "\<not> WaitDaemons opts"
proof -
  have "WaitDaemons o2 = WaitDaemons o1"
    if "fst ` set rs \<subseteq> insert OPTIONS_END (set option_codes)" "ParseOptions rs o1 = Inr o2" for rs o1 o2
    using that
  proof (induction rs o1 rule: ParseOptions.induct)
    case (2 c optarg rest opts)
    show ?case
    proof (cases "c = OPTIONS_END")
      case True
      then show ?thesis
        using 2 by simp
    next
      case False
      then have "c \<noteq> opt_char CHR ''W''"
        using 2(2) W_is_no_code by auto
      moreover obtain o' where "ApplyOption c optarg opts = Inr o'" "ParseOptions rest o' = Inr o2"
        using 2(3) False by (auto split: sum.splits)
      ultimately show ?thesis
        using 2(1) [OF False] 2(2) ApplyOption_WaitDaemons by auto
    qed
  qed simp
  from this [OF assms] show ?thesis
    by (simp add: GetDefaults_def)
qed

theorem wait_daemons_is_never_set_witness:
  "\<exists>opts. ParseOptions [(opt_char CHR ''w'', []), (opt_char CHR ''h'', []), (-1, [])] GetDefaults = Inr opts \<and>
    HumanReadableSizes opts \<and> \<not> WaitDaemons opts"
proof -
  let ?rs = "[(opt_char CHR ''w'', []), (opt_char CHR ''h'', []), (-1, [])]"
  have "ParseOptions ?rs GetDefaults = Inr (GetDefaults\<lparr>HumanReadableSizes := True\<rparr>)"
    by (simp add: ApplyOption_def opt_char_def OPTIONS_END_def)
  moreover have "fst ` set ?rs \<subseteq> insert OPTIONS_END (set option_codes)"
    by (simp add: option_codes_def cli_options_def) (simp add: OPTIONS_END_def)
  ultimately show ?thesis
    using wait_daemons_is_never_set [of ?rs] by fastforce
qed



definition sample_options :: options where
  "sample_options = GetDefaults\<lparr>FilesInReport := - 3, Output := ''report'', ForwardingSignals := [SIGINT, 15]\<rparr>"


end
