(* ===== verification/SyscallNames.thy ===== *)
theory SyscallNames
  imports Registers "HOL-Library.Char_ord"
begin

text \<open>
  \<^verbatim>\<open>StrSyscallName\<close> of \<^verbatim>\<open>syscall.cpp\<close> and the numbers that \<^verbatim>\<open>syscall_x86_64.h\<close> and
  \<^verbatim>\<open>syscall_aarch64.h\<close> define for names that the system's header does not know. The header is a
  parameter: what it does not define is \<open>None\<close>. A \<^verbatim>\<open>switch\<close> compiles when all of its labels are
  defined and no two are equal.
\<close>

section \<open>The labels\<close>

definition x86_64_cases :: "string list" where
  "x86_64_cases =
    [''SYS__sysctl'', ''SYS_access'', ''SYS_afs_syscall'', ''SYS_alarm'', ''SYS_arch_prctl'',
     ''SYS_chmod'', ''SYS_chown'', ''SYS_copy_file_range'', ''SYS_creat'', ''SYS_create_module'',
     ''SYS_dup2'', ''SYS_epoll_create'', ''SYS_epoll_ctl_old'', ''SYS_epoll_wait'',
     ''SYS_epoll_wait_old'', ''SYS_eventfd'', ''SYS_fork'', ''SYS_futimesat'',
     ''SYS_get_kernel_syms'', ''SYS_get_thread_area'', ''SYS_getdents'', ''SYS_getpgrp'',
     ''SYS_getpmsg'', ''SYS_inotify_init'', ''SYS_ioperm'', ''SYS_iopl'',
     ''SYS_kexec_file_load'', ''SYS_lchown'', ''SYS_link'', ''SYS_lstat'', ''SYS_mkdir'',
     ''SYS_mknod'', ''SYS_modify_ldt'', ''SYS_open'', ''SYS_pause'', ''SYS_pipe'', ''SYS_poll'',
     ''SYS_putpmsg'', ''SYS_query_module'', ''SYS_readlink'', ''SYS_rename'', ''SYS_rmdir'',
     ''SYS_security'', ''SYS_select'', ''SYS_set_thread_area'', ''SYS_signalfd'', ''SYS_stat'',
     ''SYS_symlink'', ''SYS_sysfs'', ''SYS_time'', ''SYS_tuxcall'', ''SYS_unlink'',
     ''SYS_uselib'', ''SYS_ustat'', ''SYS_utime'', ''SYS_utimes'', ''SYS_vfork'', ''SYS_vserver'']"

text \<open>The labels that both machines have, in the order of the code.\<close>

definition common_cases_a :: "string list" where
  "common_cases_a =
    [''SYS_accept'', ''SYS_accept4'', ''SYS_acct'', ''SYS_add_key'', ''SYS_adjtimex'',
     ''SYS_bind'', ''SYS_bpf'', ''SYS_brk'', ''SYS_capget'', ''SYS_capset'', ''SYS_chdir'',
     ''SYS_chroot'', ''SYS_clock_adjtime'', ''SYS_clock_getres'', ''SYS_clock_gettime'',
     ''SYS_clock_nanosleep'', ''SYS_clock_settime'', ''SYS_clone'', ''SYS_close'',
     ''SYS_connect'', ''SYS_delete_module'', ''SYS_dup'', ''SYS_dup3'', ''SYS_epoll_create1'',
     ''SYS_epoll_ctl'', ''SYS_epoll_pwait'', ''SYS_eventfd2'', ''SYS_execve'', ''SYS_execveat'',
     ''SYS_exit'', ''SYS_exit_group'', ''SYS_faccessat'', ''SYS_fadvise64'', ''SYS_fallocate'',
     ''SYS_fanotify_init'', ''SYS_fanotify_mark'', ''SYS_fchdir'', ''SYS_fchmod'',
     ''SYS_fchmodat'', ''SYS_fchown'', ''SYS_fchownat'', ''SYS_fcntl'', ''SYS_fdatasync'',
     ''SYS_fgetxattr'', ''SYS_finit_module'', ''SYS_flistxattr'', ''SYS_flock'',
     ''SYS_fremovexattr'', ''SYS_fsetxattr'', ''SYS_fstat'', ''SYS_fstatfs'', ''SYS_fsync'',
     ''SYS_ftruncate'', ''SYS_futex'', ''SYS_get_mempolicy'', ''SYS_get_robust_list'',
     ''SYS_getcpu'', ''SYS_getcwd'', ''SYS_getdents64'', ''SYS_getegid'', ''SYS_geteuid'',
     ''SYS_getgid'', ''SYS_getgroups'', ''SYS_getitimer'', ''SYS_getpeername'', ''SYS_getpgid'',
     ''SYS_getpid'', ''SYS_getppid'', ''SYS_getpriority'', ''SYS_getrandom'', ''SYS_getresgid'',
     ''SYS_getresuid'', ''SYS_getrlimit'', ''SYS_getrusage'', ''SYS_getsid'',
     ''SYS_getsockname'', ''SYS_getsockopt'', ''SYS_gettid'', ''SYS_gettimeofday'',
     ''SYS_getuid'', ''SYS_getxattr'', ''SYS_init_module'', ''SYS_inotify_add_watch'',
     ''SYS_inotify_init1'', ''SYS_inotify_rm_watch'', ''SYS_io_cancel'', ''SYS_io_destroy'',
     ''SYS_io_getevents'', ''SYS_io_setup'', ''SYS_io_submit'', ''SYS_ioctl'',
     ''SYS_ioprio_get'', ''SYS_ioprio_set'', ''SYS_kcmp'', ''SYS_kexec_load'', ''SYS_keyctl'',
     ''SYS_kill'', ''SYS_lgetxattr'', ''SYS_linkat'', ''SYS_listen'', ''SYS_listxattr'',
     ''SYS_llistxattr'', ''SYS_lookup_dcookie'', ''SYS_lremovexattr'', ''SYS_lseek'',
     ''SYS_lsetxattr'', ''SYS_madvise'', ''SYS_mbind'', ''SYS_membarrier'', ''SYS_memfd_create'',
     ''SYS_migrate_pages'', ''SYS_mincore'', ''SYS_mkdirat'', ''SYS_mknodat'', ''SYS_mlock'',
     ''SYS_mlock2'', ''SYS_mlockall'', ''SYS_mmap'', ''SYS_mount'', ''SYS_move_pages'',
     ''SYS_mprotect'', ''SYS_mq_getsetattr'', ''SYS_mq_notify'', ''SYS_mq_open'',
     ''SYS_mq_timedreceive'', ''SYS_mq_timedsend'', ''SYS_mq_unlink'', ''SYS_mremap'',
     ''SYS_msgctl'', ''SYS_msgget'', ''SYS_msgrcv'', ''SYS_msgsnd'', ''SYS_msync'']"

definition common_cases_n :: "string list" where
  "common_cases_n =
    [''SYS_munlock'', ''SYS_munlockall'', ''SYS_munmap'', ''SYS_name_to_handle_at'',
     ''SYS_nanosleep'', ''SYS_newfstatat'', ''SYS_nfsservctl'', ''SYS_open_by_handle_at'',
     ''SYS_openat'', ''SYS_perf_event_open'', ''SYS_personality'', ''SYS_pipe2'',
     ''SYS_pivot_root'', ''SYS_pkey_alloc'', ''SYS_pkey_free'', ''SYS_pkey_mprotect'',
     ''SYS_ppoll'', ''SYS_prctl'', ''SYS_pread64'', ''SYS_preadv'', ''SYS_preadv2'',
     ''SYS_prlimit64'', ''SYS_process_vm_readv'', ''SYS_process_vm_writev'', ''SYS_pselect6'',
     ''SYS_ptrace'', ''SYS_pwrite64'', ''SYS_pwritev'', ''SYS_pwritev2'', ''SYS_quotactl'',
     ''SYS_read'', ''SYS_readahead'', ''SYS_readlinkat'', ''SYS_readv'', ''SYS_reboot'',
     ''SYS_recvfrom'', ''SYS_recvmmsg'', ''SYS_recvmsg'', ''SYS_remap_file_pages'',
     ''SYS_removexattr'', ''SYS_renameat'', ''SYS_renameat2'', ''SYS_request_key'',
     ''SYS_restart_syscall'', ''SYS_rt_sigaction'', ''SYS_rt_sigpending'',
     ''SYS_rt_sigprocmask'', ''SYS_rt_sigqueueinfo'', ''SYS_rt_sigreturn'',
     ''SYS_rt_sigsuspend'', ''SYS_rt_sigtimedwait'', ''SYS_rt_tgsigqueueinfo'',
     ''SYS_sched_get_priority_max'', ''SYS_sched_get_priority_min'', ''SYS_sched_getaffinity'',
     ''SYS_sched_getattr'', ''SYS_sched_getparam'', ''SYS_sched_getscheduler'',
     ''SYS_sched_rr_get_interval'', ''SYS_sched_setaffinity'', ''SYS_sched_setattr'',
     ''SYS_sched_setparam'', ''SYS_sched_setscheduler'', ''SYS_sched_yield'', ''SYS_seccomp'',
     ''SYS_semctl'', ''SYS_semget'', ''SYS_semop'', ''SYS_semtimedop'', ''SYS_sendfile'',
     ''SYS_sendmmsg'', ''SYS_sendmsg'', ''SYS_sendto'', ''SYS_set_mempolicy'',
     ''SYS_set_robust_list'', ''SYS_set_tid_address'', ''SYS_setdomainname'', ''SYS_setfsgid'',
     ''SYS_setfsuid'', ''SYS_setgid'', ''SYS_setgroups'', ''SYS_sethostname'', ''SYS_setitimer'',
     ''SYS_setns'', ''SYS_setpgid'', ''SYS_setpriority'', ''SYS_setregid'', ''SYS_setresgid'',
     ''SYS_setresuid'', ''SYS_setreuid'', ''SYS_setrlimit'', ''SYS_setsid'', ''SYS_setsockopt'',
     ''SYS_settimeofday'', ''SYS_setuid'', ''SYS_setxattr'', ''SYS_shmat'', ''SYS_shmctl'',
     ''SYS_shmdt'', ''SYS_shmget'', ''SYS_shutdown'', ''SYS_sigaltstack'', ''SYS_signalfd4'',
     ''SYS_socket'', ''SYS_socketpair'', ''SYS_splice'', ''SYS_statfs'', ''SYS_statx'',
     ''SYS_swapoff'', ''SYS_swapon'', ''SYS_symlinkat'', ''SYS_sync'', ''SYS_sync_file_range'',
     ''SYS_syncfs'', ''SYS_sysinfo'', ''SYS_syslog'', ''SYS_tee'', ''SYS_tgkill'',
     ''SYS_timer_create'', ''SYS_timer_delete'', ''SYS_timer_getoverrun'', ''SYS_timer_gettime'',
     ''SYS_timer_settime'', ''SYS_timerfd_create'', ''SYS_timerfd_gettime'',
     ''SYS_timerfd_settime'', ''SYS_times'', ''SYS_tkill'', ''SYS_truncate'', ''SYS_umask'',
     ''SYS_umount2'', ''SYS_uname'', ''SYS_unlinkat'', ''SYS_unshare'', ''SYS_userfaultfd'',
     ''SYS_utimensat'', ''SYS_vhangup'', ''SYS_vmsplice'', ''SYS_wait4'', ''SYS_waitid'',
     ''SYS_write'', ''SYS_writev'']"

definition case_labels :: "arch \<Rightarrow> string list" where
  "case_labels a = (if a = X86_64 then x86_64_cases else []) @ common_cases_a @ common_cases_n"

section \<open>The numbers\<close>

type_synonym header = "string \<rightharpoonup> int"

definition x86_64_fallbacks :: "(string \<times> int) list" where
  "x86_64_fallbacks =
    [(''SYS_recvmmsg'', 299), (''SYS_fanotify_init'', 300), (''SYS_fanotify_mark'', 301),
     (''SYS_prlimit64'', 302), (''SYS_name_to_handle_at'', 303),
     (''SYS_open_by_handle_at'', 304), (''SYS_clock_adjtime'', 305), (''SYS_syncfs'', 306),
     (''SYS_sendmmsg'', 307), (''SYS_setns'', 308), (''SYS_getcpu'', 309),
     (''SYS_process_vm_readv'', 310), (''SYS_process_vm_writev'', 311), (''SYS_kcmp'', 312),
     (''SYS_finit_module'', 313), (''SYS_sched_setattr'', 314), (''SYS_sched_getattr'', 315),
     (''SYS_renameat2'', 316), (''SYS_seccomp'', 317), (''SYS_getrandom'', 318),
     (''SYS_memfd_create'', 319), (''SYS_kexec_file_load'', 320), (''SYS_bpf'', 321),
     (''SYS_execveat'', 322), (''SYS_userfaultfd'', 323), (''SYS_membarrier'', 324),
     (''SYS_mlock2'', 325), (''SYS_copy_file_range'', 326), (''SYS_preadv2'', 327),
     (''SYS_pwritev2'', 328), (''SYS_pkey_mprotect'', 329), (''SYS_pkey_alloc'', 330),
     (''SYS_pkey_free'', 331), (''SYS_statx'', 332)]"

definition aarch64_fallbacks :: "(string \<times> int) list" where
  "aarch64_fallbacks =
    [(''SYS_recvmmsg'', 243), (''SYS_fanotify_init'', 262), (''SYS_fanotify_mark'', 263),
     (''SYS_prlimit64'', 261), (''SYS_name_to_handle_at'', 264),
     (''SYS_open_by_handle_at'', 265), (''SYS_clock_adjtime'', 266), (''SYS_syncfs'', 267),
     (''SYS_sendmmsg'', 269), (''SYS_setns'', 268), (''SYS_getcpu'', 168),
     (''SYS_process_vm_readv'', 270), (''SYS_process_vm_writev'', 271), (''SYS_kcmp'', 272),
     (''SYS_finit_module'', 273), (''SYS_sched_setattr'', 274), (''SYS_sched_getattr'', 275),
     (''SYS_renameat2'', 275), (''SYS_seccomp'', 277), (''SYS_getrandom'', 278),
     (''SYS_memfd_create'', 279), (''SYS_bpf'', 280), (''SYS_execveat'', 281),
     (''SYS_userfaultfd'', 282), (''SYS_membarrier'', 283), (''SYS_mlock2'', 284),
     (''SYS_copy_file_range'', 285), (''SYS_preadv2'', 286), (''SYS_pwritev2'', 287),
     (''SYS_pkey_mprotect'', 288), (''SYS_pkey_alloc'', 289), (''SYS_pkey_free'', 290),
     (''SYS_statx'', 291)]"

definition fallbacks :: "arch \<Rightarrow> (string \<times> int) list" where
  "fallbacks a = (case a of X86_64 \<Rightarrow> x86_64_fallbacks | AArch64 \<Rightarrow> aarch64_fallbacks)"

text \<open>\<^verbatim>\<open>#ifndef\<close>: the header's number goes first.\<close>

definition SYS_number :: "arch \<Rightarrow> header \<Rightarrow> string \<Rightarrow> int option" where
  "SYS_number a hdr name = (case hdr name of Some n \<Rightarrow> Some n | None \<Rightarrow> map_of (fallbacks a) name)"

section \<open>The switch\<close>

definition switch_compiles :: "arch \<Rightarrow> header \<Rightarrow> bool" where
  "switch_compiles a hdr \<longleftrightarrow>
     (let labels = map (SYS_number a hdr) (case_labels a) in None \<notin> set labels \<and> distinct labels)"

text \<open>\<^verbatim>\<open>#x\<close> in the macro is the label as it is written.\<close>

definition StrSyscallName :: "arch \<Rightarrow> header \<Rightarrow> int \<Rightarrow> string" where
  "StrSyscallName a hdr syscall =
     (case find (\<lambda>name. SYS_number a hdr name = Some syscall) (case_labels a) of
        Some name \<Rightarrow> name
      | None \<Rightarrow> ''unknown'')"

section \<open>The labels are different names\<close>

text \<open>Both lists are sorted, so one pass over their merge shows that no name is there twice.\<close>

fun name_less :: "string \<Rightarrow> string \<Rightarrow> bool" where
  "name_less _ [] \<longleftrightarrow> False"
| "name_less [] (_ # _) \<longleftrightarrow> True"
| "name_less (c # cs) (d # ds) \<longleftrightarrow> (if c = d then name_less cs ds else (of_char c :: nat) < of_char d)"

lemma name_less_irrefl: "\<not> name_less s s"
  by (induction s) simp_all

lemma name_less_trans: "name_less s t \<Longrightarrow> name_less t u \<Longrightarrow> name_less s u"
proof (induction s t arbitrary: u rule: name_less.induct)
  case (2 d ds)
  then show ?case
    by (cases u) simp_all
next
  case (3 c cs d ds)
  then show ?case
    by (cases u) (auto split: if_splits)
qed simp

fun name_merge :: "string list \<Rightarrow> string list \<Rightarrow> string list" where
  "name_merge [] ys = ys"
| "name_merge (x # xs) [] = x # xs"
| "name_merge (x # xs) (y # ys) =
     (if name_less x y then x # name_merge xs (y # ys) else y # name_merge (x # xs) ys)"

fun ascending :: "string list \<Rightarrow> bool" where
  "ascending (x # y # xs) \<longleftrightarrow> name_less x y \<and> ascending (y # xs)"
| "ascending _ \<longleftrightarrow> True"

lemma mset_name_merge: "mset (name_merge xs ys) = mset xs + mset ys"
  by (induction xs ys rule: name_merge.induct) simp_all

lemma ascending_above: "ascending (x # xs) \<Longrightarrow> y \<in> set xs \<Longrightarrow> name_less x y"
proof (induction xs arbitrary: x)
  case (Cons z xs)
  then show ?case
    by (auto intro: name_less_trans)
qed simp

lemma ascending_distinct: "ascending xs \<Longrightarrow> distinct xs"
proof (induction xs rule: ascending.induct)
  case (1 x y xs)
  then show ?case
    using ascending_above [of x "y # xs"] name_less_irrefl by fastforce
qed simp_all

lemma cases_ascending: "ascending (name_merge x86_64_cases (common_cases_a @ common_cases_n))"
  by code_simp

lemma case_labels_distinct: "distinct (case_labels a)"
proof -
  let ?c = "common_cases_a @ common_cases_n"
  have "distinct (name_merge x86_64_cases ?c)"
    by (rule ascending_distinct [OF cases_ascending])
  moreover have "mset (name_merge x86_64_cases ?c) = mset (x86_64_cases @ ?c)"
    by (simp add: mset_name_merge)
  ultimately have "distinct (x86_64_cases @ ?c)"
    by (metis mset_eq_imp_distinct_iff)
  then show ?thesis
    by (simp add: case_labels_def)
qed

text \<open>No label is the answer for a number without a name.\<close>

lemma all_labels_SYS: "list_all (\<lambda>x. take 4 x = ''SYS_'') (x86_64_cases @ common_cases_a @ common_cases_n)"
  by code_simp

lemma unknown_no_label: "''unknown'' \<notin> set (case_labels a)"
proof
  assume "''unknown'' \<in> set (case_labels a)"
  then have "''unknown'' \<in> set (x86_64_cases @ common_cases_a @ common_cases_n)"
    by (auto simp: case_labels_def split: if_splits)
  then have "take 4 ''unknown'' = ''SYS_''"
    using all_labels_SYS unfolding list_all_iff by blast
  then show False
    by simp
qed

section \<open>Numbers and names\<close>

lemma switch_compiles_number:
  assumes "switch_compiles a hdr" "x \<in> set (case_labels a)"
  obtains n where "SYS_number a hdr x = Some n"
  using assms by (force simp: switch_compiles_def Let_def)

lemma switch_compiles_inj: "switch_compiles a hdr \<Longrightarrow> inj_on (SYS_number a hdr) (set (case_labels a))"
  by (simp add: switch_compiles_def Let_def distinct_map)

lemma StrSyscallName_number:
  assumes "switch_compiles a hdr" "x \<in> set (case_labels a)" "SYS_number a hdr x = Some n"
  shows "StrSyscallName a hdr n = x"
proof -
  let ?P = "\<lambda>name. SYS_number a hdr name = Some n"
  obtain y where y: "find ?P (case_labels a) = Some y"
    using assms(2,3) by (cases "find ?P (case_labels a)") (auto simp: find_None_iff)
  then have "?P y" "y \<in> set (case_labels a)"
    by (auto simp: find_Some_iff)
  then have "y = x"
    using switch_compiles_inj [OF assms(1)] assms(2,3) by (metis inj_onD)
  then show ?thesis
    using y by (simp add: StrSyscallName_def)
qed

lemma StrSyscallName_cases:
  obtains "StrSyscallName a hdr n = ''unknown''" "\<forall>x\<in>set (case_labels a). SYS_number a hdr x \<noteq> Some n"
  | x where "StrSyscallName a hdr n = x" "x \<in> set (case_labels a)" "SYS_number a hdr x = Some n"
  by (cases "find (\<lambda>name. SYS_number a hdr name = Some n) (case_labels a)")
    (auto simp: StrSyscallName_def find_None_iff find_Some_iff)

section \<open>Fallbacks\<close>

text \<open>
  The numbers of the kernel's interface for the names that have a fallback; they are those of the code
  but for one on aarch64.
\<close>

definition abi_number :: "arch \<Rightarrow> string \<Rightarrow> int option" where
  "abi_number a name =
     (if a = AArch64 \<and> name = ''SYS_renameat2'' then Some 276 else map_of (fallbacks a) name)"

definition fallback_names :: "arch \<Rightarrow> string list" where
  "fallback_names a = map fst (fallbacks a)"

lemma abi_distinct: "distinct (map (abi_number X86_64) (fallback_names X86_64))"
  "distinct (map (abi_number AArch64) (fallback_names AArch64))"
  by code_simp+

lemma abi_inj: "inj_on (abi_number a) (set (fallback_names a))"
  using abi_distinct by (cases a) (simp_all add: distinct_map)

lemma fallback_defined: "name \<in> set (fallback_names a) \<longleftrightarrow> map_of (fallbacks a) name \<noteq> None"
  by (simp add: fallback_names_def map_of_eq_None_iff)

lemma abi_defined: "name \<in> set (fallback_names a) \<longleftrightarrow> abi_number a name \<noteq> None"
proof -
  have "''SYS_renameat2'' \<in> set (fallback_names AArch64)"
    by code_simp
  then show ?thesis
    by (auto simp: abi_number_def fallback_defined)
qed

lemma colliding_fallbacks:
  "map_of (fallbacks AArch64) ''SYS_sched_getattr'' = Some 275"
  "map_of (fallbacks AArch64) ''SYS_renameat2'' = Some 275"
  "abi_number AArch64 ''SYS_sched_getattr'' = Some 275"
  by code_simp+

lemma colliding_labels: "''SYS_sched_getattr'' \<in> set common_cases_n" "''SYS_renameat2'' \<in> set common_cases_n"
  by code_simp+

text \<open>
  A header of a kernel: it numbers every label that has no fallback, no two of them alike and none as the
  interface numbers a name with a fallback, and where it defines a name with a fallback, it does so
  with the interface's number.
\<close>

definition kernel_header :: "arch \<Rightarrow> header \<Rightarrow> bool" where
  "kernel_header a hdr \<longleftrightarrow>
     (let own = {x \<in> set (case_labels a). x \<notin> set (fallback_names a)} in
       (\<forall>x\<in>own. hdr x \<noteq> None) \<and> inj_on hdr own \<and>
       (\<forall>x\<in>own. \<forall>y\<in>set (fallback_names a). hdr x \<noteq> abi_number a y) \<and>
       (\<forall>y\<in>set (fallback_names a). hdr y = None \<or> hdr y = abi_number a y))"

lemma kernel_header_number:
  assumes "kernel_header a hdr" "x \<in> set (case_labels a)" "a = AArch64 \<longrightarrow> hdr ''SYS_renameat2'' \<noteq> None"
  shows "SYS_number a hdr x = (if x \<in> set (fallback_names a) then abi_number a x else hdr x)"
proof (cases "x \<in> set (fallback_names a)")
  case True
  then have "hdr x = None \<or> hdr x = abi_number a x"
    using assms(1) by (simp add: kernel_header_def Let_def)
  then show ?thesis
    using True assms(3) by (cases "hdr x") (auto simp: SYS_number_def abi_number_def split: option.splits)
next
  case False
  then have "hdr x \<noteq> None"
    using assms(1,2) by (simp add: kernel_header_def Let_def)
  then show ?thesis
    using False by (auto simp: SYS_number_def)
qed

lemma kernel_header_compiles:
  assumes h: "kernel_header a hdr" and r: "a = AArch64 \<longrightarrow> hdr ''SYS_renameat2'' \<noteq> None"
  shows "switch_compiles a hdr"
proof -
  let ?F = "set (fallback_names a)"
  note num = kernel_header_number [OF h _ r]
  have def: "hdr x \<noteq> None" "hdr x \<noteq> abi_number a y"
    if "x \<in> set (case_labels a)" "x \<notin> ?F" "y \<in> ?F" for x y
    using h that unfolding kernel_header_def Let_def by blast+
  have own: "inj_on hdr {x \<in> set (case_labels a). x \<notin> ?F}" and some: "\<forall>x\<in>set (case_labels a). x \<notin> ?F \<longrightarrow> hdr x \<noteq> None"
    using h unfolding kernel_header_def Let_def by blast+
  have "inj_on (SYS_number a hdr) (set (case_labels a))"
  proof (rule inj_onI)
    fix x y
    assume xy: "x \<in> set (case_labels a)" "y \<in> set (case_labels a)" and eq: "SYS_number a hdr x = SYS_number a hdr y"
    consider "x \<in> ?F" "y \<in> ?F" | "x \<in> ?F" "y \<notin> ?F" | "x \<notin> ?F" "y \<in> ?F" | "x \<notin> ?F" "y \<notin> ?F"
      by blast
    then show "x = y"
    proof cases
      case 1
      then show ?thesis
        using eq inj_onD [OF abi_inj, of a x y] by (simp add: num xy)
    next
      case 2
      then show ?thesis
        using eq def(2) [OF xy(2), of x] by (simp add: num xy)
    next
      case 3
      then show ?thesis
        using eq def(2) [OF xy(1), of y] by (simp add: num xy)
    next
      case 4
      then show ?thesis
        using eq inj_onD [OF own, of x y] by (simp add: num xy)
    qed
  qed
  moreover have "SYS_number a hdr x \<noteq> None" if "x \<in> set (case_labels a)" for x
    using some that abi_defined [of x a] by (simp add: num)
  ultimately show ?thesis
    by (force simp: switch_compiles_def Let_def distinct_map case_labels_distinct)
qed

lemma collision:
  assumes "kernel_header AArch64 hdr" "hdr ''SYS_renameat2'' = None"
  shows "\<not> switch_compiles AArch64 hdr"
proof
  assume c: "switch_compiles AArch64 hdr"
  have labels: "''SYS_sched_getattr'' \<in> set (case_labels AArch64)" "''SYS_renameat2'' \<in> set (case_labels AArch64)"
    using colliding_labels by (simp_all add: case_labels_def)
  have "''SYS_sched_getattr'' \<in> set (fallback_names AArch64)"
    by (simp add: fallback_defined colliding_fallbacks)
  moreover have "\<forall>y\<in>set (fallback_names AArch64). hdr y = None \<or> hdr y = abi_number AArch64 y"
    using assms(1) unfolding kernel_header_def Let_def by (elim conjE)
  ultimately have "hdr ''SYS_sched_getattr'' = None \<or> hdr ''SYS_sched_getattr'' = abi_number AArch64 ''SYS_sched_getattr''"
    by (rule bspec [rotated])
  then have "SYS_number AArch64 hdr ''SYS_sched_getattr'' = SYS_number AArch64 hdr ''SYS_renameat2''"
    using assms(2) unfolding SYS_number_def colliding_fallbacks by (elim disjE) (simp_all only: colliding_fallbacks option.case)
  then show False
    using inj_onD [OF switch_compiles_inj [OF c] _ labels] by simp
qed

section \<open>A header\<close>

text \<open>
  A header that numbers the labels without a fallback by their position and, if it is asked to, the others
  as the interface does.
\<close>

fun position :: "string \<Rightarrow> string list \<Rightarrow> int" where
  "position x [] = 0"
| "position x (y # ys) = (if x = y then -1 else position x ys - 1)"

definition sample_header :: "arch \<Rightarrow> bool \<Rightarrow> header" where
  "sample_header a recent x =
     (if x \<in> set (fallback_names a) then (if recent then abi_number a x else None)
      else Some (position x (case_labels a)))"

lemma position_neg: "x \<in> set xs \<Longrightarrow> position x xs < 0" and position_le: "position x xs \<le> 0"
  by (induction xs) auto

lemma position_inj: "x \<in> set xs \<Longrightarrow> y \<in> set xs \<Longrightarrow> position x xs = position y xs \<Longrightarrow> x = y"
proof (induction xs)
  case (Cons z zs)
  then show ?case
    using position_neg [of x zs] position_neg [of y zs] by (auto split: if_splits)
qed simp

lemma abi_positive: "list_all (\<lambda>x. 0 < the (abi_number X86_64 x)) (fallback_names X86_64)"
  "list_all (\<lambda>x. 0 < the (abi_number AArch64 x)) (fallback_names AArch64)"
  by code_simp+

lemma sample_header_kernel: "kernel_header a (sample_header a recent)"
proof -
  have pos: "0 < the (abi_number a y)" if "y \<in> set (fallback_names a)" for y
    using abi_positive that by (cases a) (simp_all add: list_all_iff)
  have "inj_on (sample_header a recent) {x \<in> set (case_labels a). x \<notin> set (fallback_names a)}"
    by (rule inj_onI) (auto simp: sample_header_def intro: position_inj)
  moreover have "sample_header a recent x \<noteq> abi_number a y"
    if "x \<in> set (case_labels a)" "x \<notin> set (fallback_names a)" "y \<in> set (fallback_names a)" for x y
    using pos [OF that(3)] position_neg [OF that(1)] that(2)
    by (cases "abi_number a y") (auto simp: sample_header_def)
  ultimately show ?thesis
    unfolding kernel_header_def Let_def by (auto simp: sample_header_def)
qed

end
