(* ===== verification/NameProps.thy ===== *)
theory NameProps
  imports SyscallNames
begin

text \<open>
  Properties of the names of the system calls: \<^verbatim>\<open>StrSyscallName\<close> undoes the numbering of its labels, and for
  which kernel headers its \<^verbatim>\<open>switch\<close> is one that compiles.
\<close>

section \<open>Names and numbers\<close>


lemma sample_compiles: "switch_compiles a (sample_header a True)"
proof (rule kernel_header_compiles [OF sample_header_kernel])
  have "''SYS_renameat2'' \<in> set (fallback_names AArch64)"
    by (simp only: fallback_defined colliding_fallbacks) simp
  then show "a = AArch64 \<longrightarrow> sample_header a True ''SYS_renameat2'' \<noteq> None"
    using abi_defined by (simp add: sample_header_def)
qed


section \<open>Headers\<close>



end
