(* ===== verification/Kernel.thy ===== *)
theory Kernel
  imports Progress Filtered
begin

text \<open>
  What the total stands for: a model of the kernel's side, in natural numbers, and the refinement of it by
  \<^verbatim>\<open>TContext\<close>. In the kernel a descriptor names an open file description with an offset; the file ends where it
  ended when it was opened, or where the highest byte was written through this description. The
  abstraction of a context is such a kernel state, and \<^verbatim>\<open>SyscallExit\<close> follows every call, by whatever
  process, that is described by the registers it sees.
\<close>

section \<open>The kernel\<close>

record ofd =
  Offset :: nat
  End :: nat
  Opened :: nat \<comment> \<open>the length of the file when it was opened\<close>

definition grown :: "ofd \<Rightarrow> nat" where
  "grown x = End x - Opened x"

record kernel =
  Owner :: "pid \<rightharpoonup> nat"
  Tables :: "nat \<Rightarrow> nat \<rightharpoonup> nat"
  Ofds :: "nat \<Rightarrow> ofd"
  Fresh :: nat
  Written :: nat \<comment> \<open>the bytes by which all files have grown\<close>

text \<open>
  The calls, with what the kernel made of them. Only descriptors that are open for writing are in a table.
  \<open>KAppend\<close> is a write in append mode; \<open>KResize\<close> moves the end of the file up to a position, if it is
  not beyond it already.
\<close>

datatype kcall =
    KWrite nat nat
  | KAppend nat nat
  | KPWrite nat nat nat
  | KResize nat nat
  | KSeek nat nat
  | KOpen nat nat bool
  | KClose nat
  | KDup nat nat
  | KOther

fun move :: "kcall \<Rightarrow> ofd \<Rightarrow> ofd" where
  "move (KWrite fd n) x = x\<lparr>Offset := Offset x + n, End := max (End x) (Offset x + n)\<rparr>"
| "move (KAppend fd n) x = x\<lparr>Offset := End x + n, End := End x + n\<rparr>"
| "move (KPWrite fd n off) x = x\<lparr>End := max (End x) (off + n)\<rparr>"
| "move (KResize fd n) x = x\<lparr>End := max (End x) n\<rparr>"
| "move (KSeek fd pos) x = x\<lparr>Offset := pos\<rparr>"
| "move _ x = x"

definition on_ofd :: "nat \<Rightarrow> nat \<Rightarrow> (ofd \<Rightarrow> ofd) \<Rightarrow> kernel \<Rightarrow> kernel" where
  "on_ofd p fd g k =
     (case Tables k p fd of
        None \<Rightarrow> k
      | Some a \<Rightarrow> k\<lparr>Ofds := (Ofds k)(a := g (Ofds k a)), Written := Written k + (grown (g (Ofds k a)) - grown (Ofds k a))\<rparr>)"

definition set_table :: "nat \<Rightarrow> nat \<Rightarrow> nat option \<Rightarrow> kernel \<Rightarrow> kernel" where
  "set_table p fd x k = k\<lparr>Tables := (Tables k)(p := (Tables k p)(fd := x))\<rparr>"

fun kstep :: "nat \<Rightarrow> kcall \<Rightarrow> kernel \<Rightarrow> kernel" where
  "kstep p (KOpen fd len app) k =
     (set_table p fd (Some (Fresh k)) k)\<lparr>
       Ofds := (Ofds k)(Fresh k := \<lparr>Offset = (if app then len else 0), End = len, Opened = len\<rparr>), Fresh := Suc (Fresh k)\<rparr>"
| "kstep p (KClose fd) k = set_table p fd None k"
| "kstep p (KDup old new) k = set_table p new (Tables k p old) k"
| "kstep p KOther k = k"
| "kstep p (KWrite fd n) k = on_ofd p fd (move (KWrite fd n)) k"
| "kstep p (KAppend fd n) k = on_ofd p fd (move (KAppend fd n)) k"
| "kstep p (KPWrite fd n off) k = on_ofd p fd (move (KPWrite fd n off)) k"
| "kstep p (KResize fd n) k = on_ofd p fd (move (KResize fd n)) k"
| "kstep p (KSeek fd pos) k = on_ofd p fd (move (KSeek fd pos)) k"

text \<open>A call by a process, which has a table.\<close>

definition kernel_step :: "pid \<Rightarrow> kcall \<Rightarrow> kernel \<Rightarrow> kernel" where
  "kernel_step pid call k = (case Owner k pid of None \<Rightarrow> k | Some p \<Rightarrow> kstep p call k)"

section \<open>What the registers say\<close>

definition handled :: "arch \<Rightarrow> u64 list" where
  "handled a = (if a = X86_64 then [SYS_creat, SYS_open, SYS_dup2] else []) @
     [SYS_write a, SYS_writev a, SYS_pwritev a, SYS_pwrite64 a, SYS_pwritev2 a, SYS_openat a, SYS_close a, SYS_fcntl a,
      SYS_dup a, SYS_dup3 a, SYS_fallocate a, SYS_ftruncate a, SYS_lseek a]"

definition for_writing :: "u64 \<Rightarrow> bool" where
  "for_writing flags \<longleftrightarrow> flags AND O_WRONLY \<noteq> 0 \<or> flags AND O_RDWR \<noteq> 0"

fun encodes :: "arch \<Rightarrow> os \<Rightarrow> pid \<Rightarrow> user_regs \<Rightarrow> kcall \<Rightarrow> bool" where
  "encodes a os pid regs (KWrite fd n) \<longleftrightarrow>
     SYSCALL_NR a regs \<in> {SYS_write a, SYS_writev a} \<and> 0 < as_ssize (SYSCALL_RETDATA a regs) \<and>
     unat (SYSCALL_ARG0 a regs) = fd \<and> unat (SYSCALL_RETDATA a regs) = n"
| "encodes a os pid regs (KAppend fd n) \<longleftrightarrow>
     SYSCALL_NR a regs \<in> {SYS_write a, SYS_writev a} \<and> 0 < as_ssize (SYSCALL_RETDATA a regs) \<and>
     unat (SYSCALL_ARG0 a regs) = fd \<and> unat (SYSCALL_RETDATA a regs) = n"
| "encodes a os pid regs (KPWrite fd n off) \<longleftrightarrow>
     SYSCALL_NR a regs \<in> {SYS_pwritev a, SYS_pwrite64 a, SYS_pwritev2 a} \<and> 0 < as_ssize (SYSCALL_RETDATA a regs) \<and>
     unat (SYSCALL_ARG0 a regs) = fd \<and> unat (SYSCALL_RETDATA a regs) = n \<and> unat (SYSCALL_ARG3 a regs) = off"
| "encodes a os pid regs (KResize fd n) \<longleftrightarrow>
     0 \<le> as_int (SYSCALL_RETDATA a regs) \<and> unat (SYSCALL_ARG0 a regs) = fd \<and>
     (SYSCALL_NR a regs = SYS_ftruncate a \<and> unat (SYSCALL_ARG1 a regs) = n \<or>
      SYSCALL_NR a regs = SYS_fallocate a \<and> SYSCALL_ARG1 a regs = 0 \<and>
        unat (SYSCALL_ARG2 a regs) + unat (SYSCALL_ARG3 a regs) = n)"
| "encodes a os pid regs (KSeek fd pos) \<longleftrightarrow>
     SYSCALL_NR a regs = SYS_lseek a \<and> 0 \<le> as_int (SYSCALL_RETDATA a regs) \<and>
     unat (SYSCALL_ARG0 a regs) = fd \<and> unat (SYSCALL_RETDATA a regs) = pos"
| "encodes a os pid regs (KOpen fd len app) \<longleftrightarrow>
     0 \<le> as_int (SYSCALL_RETDATA a regs) \<and> unat (SYSCALL_RETDATA a regs) = fd \<and>
     (case LinkTarget os (''/proc/'' @ show_int pid @ ''/fd/'' @ show_nat fd) of
        None \<Rightarrow> False | Some name \<Rightarrow> unat (GetFileLength (Stat os) name) = len) \<and>
     (a = X86_64 \<and> SYSCALL_NR a regs = SYS_creat \<and> len = 0 \<and> \<not> app \<or>
      a = X86_64 \<and> SYSCALL_NR a regs = SYS_open \<and> for_writing (SYSCALL_ARG1 a regs) \<and>
        app = (SYSCALL_ARG1 a regs AND O_APPEND \<noteq> 0) \<or>
      SYSCALL_NR a regs = SYS_openat a \<and> for_writing (SYSCALL_ARG2 a regs) \<and>
        app = (SYSCALL_ARG2 a regs AND O_APPEND \<noteq> 0))"
| "encodes a os pid regs (KClose fd) \<longleftrightarrow>
     SYSCALL_NR a regs = SYS_close a \<and> unat (SYSCALL_ARG0 a regs) = fd"
| "encodes a os pid regs (KDup old new) \<longleftrightarrow>
     0 \<le> as_int (SYSCALL_RETDATA a regs) \<and> unat (SYSCALL_ARG0 a regs) = old \<and> new < 2 ^ 31 \<and>
     (SYSCALL_NR a regs = SYS_dup a \<and> unat (SYSCALL_RETDATA a regs) = new \<or>
      a = X86_64 \<and> SYSCALL_NR a regs = SYS_dup2 \<and> unat (SYSCALL_ARG1 a regs) = new \<or>
      SYSCALL_NR a regs = SYS_dup3 a \<and> unat (SYSCALL_ARG1 a regs) = new \<or>
      SYSCALL_NR a regs = SYS_fcntl a \<and> SYSCALL_ARG1 a regs \<in> {F_DUPFD, F_DUPFD_CLOEXEC} \<and>
        unat (SYSCALL_RETDATA a regs) = new)"
| "encodes a os pid regs KOther \<longleftrightarrow>
     SYSCALL_NR a regs \<notin> set (handled a) \<or>
     SYSCALL_NR a regs \<noteq> SYS_close a \<and> - 4095 \<le> sint (SYSCALL_RETDATA a regs) \<and> sint (SYSCALL_RETDATA a regs) < 0 \<or>
     a = X86_64 \<and> SYSCALL_NR a regs = SYS_open \<and> \<not> for_writing (SYSCALL_ARG1 a regs) \<or>
     SYSCALL_NR a regs = SYS_openat a \<and> \<not> for_writing (SYSCALL_ARG2 a regs) \<or>
     SYSCALL_NR a regs = SYS_fcntl a \<and> SYSCALL_ARG1 a regs \<notin> {F_DUPFD, F_DUPFD_CLOEXEC} \<or>
     SYSCALL_NR a regs \<in> {SYS_write a, SYS_writev a, SYS_pwritev a, SYS_pwrite64 a, SYS_pwritev2 a} \<and>
       SYSCALL_RETDATA a regs = 0"

text \<open>
  What the tracer relies on: the kernel gives a new descriptor a free number, and who writes in append mode
  does nothing else that moves the offset away from the end. Positions and the total stay below \<open>2 ^ 64\<close>.
\<close>

fun tracked :: "nat \<Rightarrow> kcall \<Rightarrow> kernel \<Rightarrow> bool" where
  "tracked p (KAppend fd n) k \<longleftrightarrow>
     (case Tables k p fd of None \<Rightarrow> True | Some a \<Rightarrow> Offset (Ofds k a) = End (Ofds k a))"
| "tracked p (KOpen fd len app) k \<longleftrightarrow> Tables k p fd = None"
| "tracked p _ k \<longleftrightarrow> True"

definition in_range :: "nat \<Rightarrow> kcall \<Rightarrow> kernel \<Rightarrow> bool" where
  "in_range p call k \<longleftrightarrow>
     (let k' = kstep p call k in
       Written k' < 2 ^ 64 \<and> (\<forall>a\<in>ran (Tables k p). Offset (Ofds k' a) < 2 ^ 64 \<and> End (Ofds k' a) < 2 ^ 64))"

section \<open>The abstraction\<close>

definition abs_ofd :: "file_state \<Rightarrow> ofd" where
  "abs_ofd s = \<lparr>Offset = unat (CurrPos s), End = max (unat (MaxPos s)) (unat (InitSize s)), Opened = unat (InitSize s)\<rparr>"

definition abs_kernel :: "tcontext \<Rightarrow> kernel" where
  "abs_kernel c =
     \<lparr>Owner = map_of (ProcMap c), Tables = (\<lambda>p. slot (fds_of c p)), Ofds = (\<lambda>a. abs_ofd (Files c a)),
      Fresh = NextFile c, Written = unat (accounted c)\<rparr>"

lemma abs_kernel_simps [simp]:
  "Owner (abs_kernel c) = map_of (ProcMap c)" "Tables (abs_kernel c) p = slot (fds_of c p)"
  "Ofds (abs_kernel c) a = abs_ofd (Files c a)" "Fresh (abs_kernel c) = NextFile c"
  "Written (abs_kernel c) = unat (accounted c)"
  by (simp_all add: abs_kernel_def)

lemma grown_abs: "grown (abs_ofd s) = unat (GetOutputSize s)"
  by (simp add: grown_def abs_ofd_def unat_GetOutputSize)

lemma kernel_eqI:
  assumes "Owner k = Owner k'" "\<And>p. Tables k p = Tables k' p" "\<And>a. Ofds k a = Ofds k' a" "Fresh k = Fresh k'"
    "Written k = Written k'"
  shows "k = (k' :: kernel)"
  using assms by (cases k; cases k') (simp add: fun_eq_iff)

lemma set_table_simps [simp]:
  "Owner (set_table p fd x k) = Owner k" "Ofds (set_table p fd x k) = Ofds k" "Fresh (set_table p fd x k) = Fresh k"
  "Written (set_table p fd x k) = Written k"
  "Tables (set_table p fd x k) q = (if q = p then (Tables k p)(fd := x) else Tables k q)"
  by (simp_all add: set_table_def)

section \<open>The operations follow\<close>

lemma abs_upd_file:
  assumes p: "map_of (ProcMap c) pid = Some p" and a: "slot (fds_of c p) fd = Some a"
    and g: "abs_ofd (f (Files c a)) = g (abs_ofd (Files c a))" "grown (abs_ofd (Files c a)) \<le> grown (g (abs_ofd (Files c a)))"
    and fits: "Written (on_ofd p fd g (abs_kernel c)) < 2 ^ 64"
  shows "abs_kernel (upd_file a f c) = on_ofd p fd g (abs_kernel c)"
proof -
  let ?x = "GetOutputSize (Files c a)" and ?y = "GetOutputSize (f (Files c a))"
  have le: "unat ?x \<le> unat ?y" and w: "unat (accounted c) + (unat ?y - unat ?x) < 2 ^ 64"
    using a g fits by (simp_all add: on_ofd_def grown_abs flip: g(1))
  have "accounted (upd_file a f c) = accounted c + (?y - ?x)"
    using accounted_upd_file [OF slot_live_file [OF p a], of f] by simp
  moreover have "unat (?y - ?x) = unat ?y - unat ?x"
    using le by (simp add: unat_sub word_le_nat_alt)
  ultimately have "unat (accounted (upd_file a f c)) = unat (accounted c) + (unat ?y - unat ?x)"
    using unat_add_fits w by simp
  then show ?thesis
    using a g by (intro kernel_eqI) (auto simp: on_ofd_def grown_abs simp flip: g(1))
qed

lemma on_fd_follows:
  assumes p: "map_of (ProcMap c) pid = Some p"
    and g: "\<And>a. slot (fds_of c p) (unat fd) = Some a \<Longrightarrow>
      abs_ofd (f (Files c a)) = g (abs_ofd (Files c a)) \<and> grown (abs_ofd (Files c a)) \<le> grown (g (abs_ofd (Files c a)))"
    and fits: "Written (on_ofd p (unat fd) g (abs_kernel c)) < 2 ^ 64"
  shows "\<exists>c'. on_fd pid fd f c = Inr c' \<and> abs_kernel c' = on_ofd p (unat fd) g (abs_kernel c)"
proof (cases "slot (fds_of c p) (unat fd)")
  case None
  then show ?thesis
    using p by (simp add: on_fd_def GetProcState_def on_ofd_def)
next
  case (Some a)
  then show ?thesis
    using p abs_upd_file [OF p Some _ _ fits] g by (simp add: on_fd_def GetProcState_def)
qed

lemma move_grows: "grown x \<le> grown (move call x)"
  by (cases call) (simp_all add: grown_def)

text \<open>The moves of one file state.\<close>

lemma abs_ofd_moves:
  "unat (CurrPos s) + unat n < 2 ^ 64 \<Longrightarrow> abs_ofd (Enroll n s) = move (KWrite fd (unat n)) (abs_ofd s)"
  "unat off + unat n < 2 ^ 64 \<Longrightarrow> abs_ofd (EnrollNoShift n off s) = move (KPWrite fd (unat n) (unat off)) (abs_ofd s)"
  "abs_ofd (EnrollNoShift n 0 s) = move (KResize fd (unat n)) (abs_ofd s)"
  "abs_ofd (SetCurrPos n s) = move (KSeek fd (unat n)) (abs_ofd s)"
  "abs_ofd (SetFlags fl s) = abs_ofd s" "abs_ofd (SetCloexecFlag b s) = abs_ofd s"
  by (simp_all add: abs_ofd_def Enroll_def EnrollNoShift_def SetCurrPos_def SetFlags_def SetCloexecFlag_def
      Let_def unat_add_fits word_less_nat_alt add.commute max_def)

lemma append_is_write:
  "Offset x = End x \<Longrightarrow> move (KAppend fd n) x = move (KWrite fd n) x"
  by simp

lemma on_fd_move_follows:
  assumes p: "map_of (ProcMap c) pid = Some p"
    and m: "\<And>a. slot (fds_of c p) (unat fd) = Some a \<Longrightarrow> abs_ofd (f (Files c a)) = move call (abs_ofd (Files c a))"
    and fits: "Written (on_ofd p (unat fd) (move call) (abs_kernel c)) < 2 ^ 64"
  shows "\<exists>c'. on_fd pid fd f c = Inr c' \<and> abs_kernel c' = on_ofd p (unat fd) (move call) (abs_kernel c)"
  by (rule on_fd_follows [OF p _ fits]) (simp add: m move_grows)

text \<open>An operation that only changes flags is not seen.\<close>

lemma on_ofd_id [simp]: "on_ofd p fd (\<lambda>x. x) k = k"
  by (simp add: on_ofd_def split: option.splits)

lemma on_fd_flags:
  assumes p: "map_of (ProcMap c) pid = Some p" and f: "\<And>s. abs_ofd (f s) = abs_ofd s"
  shows "\<exists>c'. on_fd pid fd f c = Inr c' \<and> abs_kernel c' = abs_kernel c"
proof -
  have "Written (on_ofd p (unat fd) (\<lambda>x. x) (abs_kernel c)) < 2 ^ 64"
    using unsigned_less [of "accounted c"] by simp
  from on_fd_follows [OF p _ this, of f] show ?thesis
    by (simp add: f)
qed

lemma abs_closed:
  assumes w: "wf_ctx c" and cap: "Capacity (FileStorage c) \<noteq> 0"
    and p: "map_of (ProcMap c) pid = Some p" and a: "slot (fds_of c p) i = Some a"
  shows "abs_kernel (closed p i a c) = set_table p i None (abs_kernel c)"
proof (rule kernel_eqI)
  show "Tables (abs_kernel (closed p i a c)) q = Tables (set_table p i None (abs_kernel c)) q" for q
    using slot_SomeD [OF a] by (auto simp: fun_eq_iff slot_update)
qed (simp_all add: closed_accounted [OF w map_of_live [OF p] a cap])

lemma set_table_same: "Tables k p fd = x \<Longrightarrow> set_table p fd x k = k"
  by (intro kernel_eqI) auto

lemma OpClose_follows:
  assumes w: "wf_ctx c" and cap: "Capacity (FileStorage c) \<noteq> 0" and p: "map_of (ProcMap c) pid = Some p"
  shows "\<exists>c'. OpClose pid fd c = Inr c' \<and> abs_kernel c' = set_table p (unat fd) None (abs_kernel c)"
  using abs_closed [OF w cap p, of "unat fd"] OpClose_eq [OF w p, of fd]
  by (cases "slot (fds_of c p) (unat fd)") (simp_all add: set_table_same)

lemma OpDup2_follows:
  assumes w: "wf_ctx c" and cap: "Capacity (FileStorage c) \<noteq> 0" and p: "map_of (ProcMap c) pid = Some p"
    and r: "OpDup2 pid oldfd newfd c = Inr (done, c')"
  shows "abs_kernel c' = set_table p (unat newfd) (slot (fds_of c p) (unat oldfd)) (abs_kernel c)"
  using w r
proof (cases rule: OpDup2_cases)
  case same
  then show ?thesis
    by (simp add: set_table_same)
next
  case (no_source c1)
  obtain c2 where c2: "OpClose pid newfd c = Inr c2" "abs_kernel c2 = set_table p (unat newfd) None (abs_kernel c)"
    using OpClose_follows [OF w cap p] by blast
  have "slot (fds_of c p) (unat oldfd) = None"
    by (rule no_source(5) [OF p])
  then show ?thesis
    using no_source(2,4) c2 by simp
next
  case (shared q a c1 v)
  have q: "q = p"
    using shared(4) p by simp
  obtain c2 where c2: "OpClose pid newfd c = Inr c2" "abs_kernel c2 = set_table p (unat newfd) None (abs_kernel c)"
    using OpClose_follows [OF w cap p] by blast
  have c1: "c2 = c1"
    using c2(1) shared(2) by simp
  have "held (set_fds p v c1) = held c1"
    using share_held [OF shared(6,7,9)] by (simp add: fun_eq_iff q)
  then have "accounted c' = accounted c1"
    by (simp add: shared(8) q set_fds_same_held)
  then have "abs_kernel c' = set_table p (unat newfd) (Some a) (abs_kernel c1)"
    using shared(9) by (intro kernel_eqI) (auto simp: shared(8) q fun_eq_iff)
  then show ?thesis
    using c2 shared(5) unfolding c1 q by (intro kernel_eqI) auto
qed

lemma abs_upd_flags:
  assumes "slot (fds_of c p) i = Some a" "map_of (ProcMap c) pid = Some p" "\<And>s. abs_ofd (f s) = abs_ofd s"
  shows "abs_kernel (upd_file a f c) = abs_kernel c"
proof -
  have "Written (on_ofd p i (\<lambda>x. x) (abs_kernel c)) < 2 ^ 64"
    using unsigned_less [of "accounted c"] by simp
  from abs_upd_file [OF assms(2,1) _ _ this, of f] show ?thesis
    by (simp add: assms(3))
qed

lemma OpDup3_follows:
  assumes w: "wf_ctx c" and cap: "Capacity (FileStorage c) \<noteq> 0" and p: "map_of (ProcMap c) pid = Some p"
    and r: "OpDup3 pid oldfd newfd flags c = Inr (done, c')"
  shows "abs_kernel c' = set_table p (unat newfd) (slot (fds_of c p) (unat oldfd)) (abs_kernel c)"
  using w r
proof (cases rule: OpDup3_effect)
  case 1
  then show ?thesis
    using OpDup2_follows [OF w cap p] by blast
next
  case (2 q a c1)
  then have "abs_kernel c' = abs_kernel c1"
    using abs_upd_flags [OF 2(4,3)] by (simp add: abs_ofd_moves)
  then show ?thesis
    using OpDup2_follows [OF w cap p 2(1)] by simp
qed

text \<open>The duplicating calls return.\<close>

lemma dup_follows:
  assumes w: "wf_ctx c" and cap: "Capacity (FileStorage c) \<noteq> 0" and p: "map_of (ProcMap c) pid = Some p"
    and new: "newfd \<noteq> - 1"
  shows "\<exists>c'. ignore_result (OpDup2 pid oldfd newfd c) = Inr c' \<and>
      abs_kernel c' = kstep p (KDup (unat oldfd) (unat newfd)) (abs_kernel c)"
    "\<exists>c'. ignore_result (OpDup3 pid oldfd newfd flags c) = Inr c' \<and>
      abs_kernel c' = kstep p (KDup (unat oldfd) (unat newfd)) (abs_kernel c)"
proof -
  have known: "map_of (ProcMap c) pid \<noteq> None"
    using p by simp
  obtain d c1 where "OpDup2 pid oldfd newfd c = Inr (d, c1)"
    using OpDup2_total [OF w known new, of oldfd] by auto
  then show "\<exists>c'. ignore_result (OpDup2 pid oldfd newfd c) = Inr c' \<and>
      abs_kernel c' = kstep p (KDup (unat oldfd) (unat newfd)) (abs_kernel c)"
    using OpDup2_follows [OF w cap p] by (simp add: ignore_result_def)
  obtain d c1 where "OpDup3 pid oldfd newfd flags c = Inr (d, c1)"
    using OpDup3_total [OF w known new, of oldfd flags] by auto
  then show "\<exists>c'. ignore_result (OpDup3 pid oldfd newfd flags c) = Inr c' \<and>
      abs_kernel c' = kstep p (KDup (unat oldfd) (unat newfd)) (abs_kernel c)"
    using OpDup3_follows [OF w cap p] by (simp add: ignore_result_def)
qed

lemma abs_new_file:
  "abs_ofd (NewFileState stat name flags) =
    (let len = unat (GetFileLength stat name)
     in \<lparr>Offset = (if flags AND O_APPEND \<noteq> 0 then len else 0), End = len, Opened = len\<rparr>)"
  by (simp add: abs_ofd_def NewFileState_def IsAppendSet_def Let_def)

lemma open_follows:
  assumes w: "wf_ctx c" and p: "map_of (ProcMap c) pid = Some p"
    and link: "LinkTarget os (''/proc/'' @ show_int pid @ ''/fd/'' @ show_nat (unat fd)) = Some name"
    and free: "slot (fds_of c p) (unat fd) = None" and fd: "fd \<noteq> - 1"
    and len: "unat (GetFileLength (Stat os) name) = len" and app: "len = 0 \<or> app = (flags AND O_APPEND \<noteq> 0)"
  shows "\<exists>c'. OpOpenWriteFile os pid fd flags c = Inr c' \<and> abs_kernel c' = kstep p (KOpen (unat fd) len app) (abs_kernel c)"
proof -
  obtain c' where c': "OpOpenWriteFile os pid fd flags c = Inr c'"
    using OpOpenWriteFile_returns [of c pid fd os flags] p fd unfolding link by auto
  have "accounted c' = accounted c"
    by (rule OpOpenWriteFile_accounted [OF w c']) (use p free in simp)
  with c' show ?thesis
  proof (cases rule: OpOpenWriteFile_cases)
    case (1 q filename ks v)
    have "q = p" "filename = name"
      using 1(1,2) p link by simp_all
    note eqs = this
    have "abs_kernel c' = kstep p (KOpen (unat fd) len app) (abs_kernel c)"
    proof (rule kernel_eqI)
      show "Ofds (abs_kernel c') a = Ofds (kstep p (KOpen (unat fd) len app) (abs_kernel c)) a" for a
        using len app by (auto simp: 1(3) eqs abs_new_file Let_def)
      show "Tables (abs_kernel c') r = Tables (kstep p (KOpen (unat fd) len app) (abs_kernel c)) r" for r
        using 1(4) by (auto simp: 1(3) eqs fun_eq_iff)
    qed (simp_all add: 1(3) eqs \<open>accounted c' = accounted c\<close> [unfolded 1(3) eqs])
    with c' show ?thesis
      by blast
  qed
qed

section \<open>Every call follows\<close>

text \<open>Which operation a system call reaches. The numbers are all different.\<close>

lemma SyscallExit_writes:
  assumes "0 < as_ssize (SYSCALL_RETDATA a regs)"
  shows "SYSCALL_NR a regs \<in> {SYS_write a, SYS_writev a} \<Longrightarrow>
      SyscallExit a os pid regs c = on_fd pid (SYSCALL_ARG0 a regs) (Enroll (SYSCALL_RETDATA a regs)) c"
    "SYSCALL_NR a regs \<in> {SYS_pwritev a, SYS_pwrite64 a, SYS_pwritev2 a} \<Longrightarrow>
      SyscallExit a os pid regs c =
        on_fd pid (SYSCALL_ARG0 a regs) (EnrollNoShift (SYSCALL_RETDATA a regs) (SYSCALL_ARG3 a regs)) c"
  using assms by (cases a; auto simp: SyscallExit_def Let_def sysno_defs OpWriteChangeOffset_def OpWriteNoOffsetChange_def; fail)+

lemma SyscallExit_moves:
  assumes "0 \<le> as_int (SYSCALL_RETDATA a regs)"
  shows "SYSCALL_NR a regs = SYS_ftruncate a \<Longrightarrow>
      SyscallExit a os pid regs c = on_fd pid (SYSCALL_ARG0 a regs) (EnrollNoShift (SYSCALL_ARG1 a regs) 0) c"
    "SYSCALL_NR a regs = SYS_fallocate a \<Longrightarrow>
      SyscallExit a os pid regs c =
        on_fd pid (SYSCALL_ARG0 a regs) (EnrollNoShift (SYSCALL_ARG2 a regs + SYSCALL_ARG3 a regs) 0) c"
    "SYSCALL_NR a regs = SYS_lseek a \<Longrightarrow>
      SyscallExit a os pid regs c = on_fd pid (SYSCALL_ARG0 a regs) (SetCurrPos (SYSCALL_RETDATA a regs)) c"
  using assms by (cases a; simp add: SyscallExit_def Let_def sysno_defs OpResize_def OpSeek_def; fail)+

lemma SyscallExit_opens:
  assumes "0 \<le> as_int (SYSCALL_RETDATA a regs)"
  shows "a = X86_64 \<Longrightarrow> SYSCALL_NR a regs = SYS_creat \<Longrightarrow>
      SyscallExit a os pid regs c = OpOpenWriteFile os pid (SYSCALL_RETDATA a regs) (SYSCALL_ARG1 a regs) c"
    "a = X86_64 \<Longrightarrow> SYSCALL_NR a regs = SYS_open \<Longrightarrow> for_writing (SYSCALL_ARG1 a regs) \<Longrightarrow>
      SyscallExit a os pid regs c = OpOpenWriteFile os pid (SYSCALL_RETDATA a regs) (SYSCALL_ARG1 a regs) c"
    "SYSCALL_NR a regs = SYS_openat a \<Longrightarrow> for_writing (SYSCALL_ARG2 a regs) \<Longrightarrow>
      SyscallExit a os pid regs c = OpOpenWriteFile os pid (SYSCALL_RETDATA a regs) (SYSCALL_ARG2 a regs) c"
  using assms by (cases a; simp add: SyscallExit_def Let_def sysno_defs OpOpenFile_def for_writing_def; fail)+

lemma SyscallExit_close:
  "SYSCALL_NR a regs = SYS_close a \<Longrightarrow> SyscallExit a os pid regs c = OpClose pid (SYSCALL_ARG0 a regs) c"
  by (cases a) (simp_all add: SyscallExit_def Let_def sysno_defs)

lemma SyscallExit_dups:
  assumes "0 \<le> as_int (SYSCALL_RETDATA a regs)"
  shows "SYSCALL_NR a regs = SYS_dup a \<Longrightarrow>
      SyscallExit a os pid regs c = ignore_result (OpDup2 pid (SYSCALL_ARG0 a regs) (SYSCALL_RETDATA a regs) c)"
    "a = X86_64 \<Longrightarrow> SYSCALL_NR a regs = SYS_dup2 \<Longrightarrow>
      SyscallExit a os pid regs c = ignore_result (OpDup2 pid (SYSCALL_ARG0 a regs) (SYSCALL_ARG1 a regs) c)"
    "SYSCALL_NR a regs = SYS_dup3 a \<Longrightarrow>
      SyscallExit a os pid regs c =
        ignore_result (OpDup3 pid (SYSCALL_ARG0 a regs) (SYSCALL_ARG1 a regs) (SYSCALL_ARG2 a regs) c)"
    "SYSCALL_NR a regs = SYS_fcntl a \<Longrightarrow> SYSCALL_ARG1 a regs = F_DUPFD \<Longrightarrow>
      SyscallExit a os pid regs c = ignore_result (OpDup2 pid (SYSCALL_ARG0 a regs) (SYSCALL_RETDATA a regs) c)"
    "SYSCALL_NR a regs = SYS_fcntl a \<Longrightarrow> SYSCALL_ARG1 a regs = F_DUPFD_CLOEXEC \<Longrightarrow>
      SyscallExit a os pid regs c = ignore_result (OpDup3 pid (SYSCALL_ARG0 a regs) (SYSCALL_RETDATA a regs) O_CLOEXEC c)"
  using assms by (cases a; simp add: SyscallExit_def Let_def sysno_defs OpDup_def FcntlExit_def fcntl_defs; fail)+

lemma SyscallExit_unhandled: "SYSCALL_NR a regs \<notin> set (handled a) \<Longrightarrow> SyscallExit a os pid regs c = Inr c"
  by (cases a) (simp_all add: SyscallExit_def Let_def handled_def)

lemma SyscallExit_reads:
  "a = X86_64 \<Longrightarrow> SYSCALL_NR a regs = SYS_open \<Longrightarrow> \<not> for_writing (SYSCALL_ARG1 a regs) \<Longrightarrow>
    SyscallExit a os pid regs c = Inr c"
  "SYSCALL_NR a regs = SYS_openat a \<Longrightarrow> \<not> for_writing (SYSCALL_ARG2 a regs) \<Longrightarrow> SyscallExit a os pid regs c = Inr c"
  by (cases a; simp add: SyscallExit_def Let_def sysno_defs OpOpenFile_def for_writing_def; fail)+

lemma SyscallExit_writes_nothing:
  assumes "SYSCALL_NR a regs \<in> {SYS_write a, SYS_writev a, SYS_pwritev a, SYS_pwrite64 a, SYS_pwritev2 a}"
    and "\<not> 0 < as_ssize (SYSCALL_RETDATA a regs)"
  shows "SyscallExit a os pid regs c = Inr c"
  using assms by (cases a; auto simp: SyscallExit_def Let_def sysno_defs)

lemma fcntl_follows:
  assumes "map_of (ProcMap c) pid = Some p" "SYSCALL_NR a regs = SYS_fcntl a"
    and "SYSCALL_ARG1 a regs \<notin> {F_DUPFD, F_DUPFD_CLOEXEC}"
  shows "\<exists>c'. SyscallExit a os pid regs c = Inr c' \<and> abs_kernel c' = abs_kernel c"
proof -
  have "SyscallExit a os pid regs c =
    (if 0 \<le> as_int (SYSCALL_RETDATA a regs) \<and> (SYSCALL_ARG1 a regs = F_SETFL \<or> SYSCALL_ARG1 a regs = F_SETFD)
     then on_fd pid (SYSCALL_ARG0 a regs) (SetFlags (SYSCALL_ARG2 a regs)) c else Inr c)"
    using assms(2,3) by (cases a) (auto simp: SyscallExit_def Let_def sysno_defs FcntlExit_def OpSetFlag_def)
  then show ?thesis
    using on_fd_flags [OF assms(1), of "SetFlags (SYSCALL_ARG2 a regs)" "SYSCALL_ARG0 a regs"] by (simp add: abs_ofd_moves)
qed

lemma as_ssize_0: "\<not> 0 < as_ssize 0"
  by (simp add: as_ssize_def)

lemma other_follows:
  assumes "map_of (ProcMap c) pid = Some p" "encodes a os pid regs KOther"
  shows "\<exists>c'. SyscallExit a os pid regs c = Inr c' \<and> abs_kernel c' = abs_kernel c"
  using assms(2) as_ssize_0 fcntl_follows [OF assms(1), of a regs os] SyscallExit_unhandled [of a regs os pid c]
    SyscallExit_reads [of a regs os pid c] SyscallExit_writes_nothing [of a regs os pid c] failed_call_skips [of a regs os pid c]
  unfolding encodes.simps by (elim disjE conjE) (simp_all del: insert_iff)

lemma in_rangeD:
  assumes "in_range p call k" "kstep p call k = on_ofd p fd (move call) k"
  shows "Written (on_ofd p fd (move call) k) < 2 ^ 64"
    "Tables k p fd = Some a \<Longrightarrow> Offset (move call (Ofds k a)) < 2 ^ 64 \<and> End (move call (Ofds k a)) < 2 ^ 64"
  using assms by (auto simp: in_range_def Let_def on_ofd_def ran_def)

lemma move_follows:
  assumes p: "map_of (ProcMap c) pid = Some p"
    and call: "SyscallExit a os pid regs c = on_fd pid fd f c" "kstep p call (abs_kernel c) = on_ofd p (unat fd) (move call) (abs_kernel c)"
    and range: "in_range p call (abs_kernel c)"
    and m: "\<And>b. slot (fds_of c p) (unat fd) = Some b \<Longrightarrow> Offset (move call (abs_ofd (Files c b))) < 2 ^ 64 \<Longrightarrow>
      End (move call (abs_ofd (Files c b))) < 2 ^ 64 \<Longrightarrow> abs_ofd (f (Files c b)) = move call (abs_ofd (Files c b))"
  shows "\<exists>c'. SyscallExit a os pid regs c = Inr c' \<and> abs_kernel c' = kstep p call (abs_kernel c)"
  unfolding call
proof (rule on_fd_move_follows [OF p])
  fix b
  assume "slot (fds_of c p) (unat fd) = Some b"
  then show "abs_ofd (f (Files c b)) = move call (abs_ofd (Files c b))"
    using m [of b] in_rangeD(2) [OF range call(2), of b] by simp
qed (rule in_rangeD(1) [OF range call(2)])

lemma write_follows:
  assumes p: "map_of (ProcMap c) pid = Some p"
    and e: "encodes a os pid regs (KWrite fd n)"
    and r: "in_range p (KWrite fd n) (abs_kernel c)"
  shows "\<exists>c'. SyscallExit a os pid regs c = Inr c' \<and> abs_kernel c' = kstep p (KWrite fd n) (abs_kernel c)"
proof -
  have v: "unat (SYSCALL_ARG0 a regs) = fd" "unat (SYSCALL_RETDATA a regs) = n"
    "SyscallExit a os pid regs c = on_fd pid (SYSCALL_ARG0 a regs) (Enroll (SYSCALL_RETDATA a regs)) c"
    using e SyscallExit_writes(1) by simp_all
  have m: "abs_ofd (Enroll (SYSCALL_RETDATA a regs) x) = move (KWrite fd n) (abs_ofd x)" if "Offset (move (KWrite fd n) (abs_ofd x)) < 2 ^ 64" for x
    using that abs_ofd_moves(1) [of x "SYSCALL_RETDATA a regs" fd] v(2) by (simp add: abs_ofd_def)
  show ?thesis
    by (rule move_follows [OF p v(3) _ r m]) (simp_all add: v(1))
qed

lemma append_follows:
  assumes p: "map_of (ProcMap c) pid = Some p"
    and e: "encodes a os pid regs (KAppend fd n)"
    and t: "tracked p (KAppend fd n) (abs_kernel c)"
    and r: "in_range p (KAppend fd n) (abs_kernel c)"
  shows "\<exists>c'. SyscallExit a os pid regs c = Inr c' \<and> abs_kernel c' = kstep p (KAppend fd n) (abs_kernel c)"
proof -
  have v: "unat (SYSCALL_ARG0 a regs) = fd" "unat (SYSCALL_RETDATA a regs) = n"
    "SyscallExit a os pid regs c = on_fd pid (SYSCALL_ARG0 a regs) (Enroll (SYSCALL_RETDATA a regs)) c"
    using e SyscallExit_writes(1) by simp_all
  have m: "abs_ofd (Enroll (SYSCALL_RETDATA a regs) (Files c b)) = move (KAppend fd n) (abs_ofd (Files c b))"
    if "slot (fds_of c p) (unat (SYSCALL_ARG0 a regs)) = Some b" "Offset (move (KAppend fd n) (abs_ofd (Files c b))) < 2 ^ 64" for b
  proof -
    have "Offset (abs_ofd (Files c b)) = End (abs_ofd (Files c b))"
      using t that(1) by (simp add: v(1))
    then have "move (KAppend fd n) (abs_ofd (Files c b)) = move (KWrite fd n) (abs_ofd (Files c b))"
      by (rule append_is_write)
    then show ?thesis
      using that(2) abs_ofd_moves(1) [of "Files c b" "SYSCALL_RETDATA a regs" fd] v(2) by (simp add: abs_ofd_def)
  qed
  show ?thesis
    by (rule move_follows [OF p v(3) _ r m]) (simp_all add: v(1))
qed

lemma pwrite_follows:
  assumes p: "map_of (ProcMap c) pid = Some p"
    and e: "encodes a os pid regs (KPWrite fd n off)"
    and r: "in_range p (KPWrite fd n off) (abs_kernel c)"
  shows "\<exists>c'. SyscallExit a os pid regs c = Inr c' \<and> abs_kernel c' = kstep p (KPWrite fd n off) (abs_kernel c)"
proof -
  have v: "unat (SYSCALL_ARG0 a regs) = fd" "unat (SYSCALL_RETDATA a regs) = n" "unat (SYSCALL_ARG3 a regs) = off"
    "SyscallExit a os pid regs c =
      on_fd pid (SYSCALL_ARG0 a regs) (EnrollNoShift (SYSCALL_RETDATA a regs) (SYSCALL_ARG3 a regs)) c"
    using e SyscallExit_writes(2) by simp_all
  have m: "abs_ofd (EnrollNoShift (SYSCALL_RETDATA a regs) (SYSCALL_ARG3 a regs) x) = move (KPWrite fd n off) (abs_ofd x)"
    if "End (move (KPWrite fd n off) (abs_ofd x)) < 2 ^ 64" for x
    using that abs_ofd_moves(2) [of "SYSCALL_ARG3 a regs" "SYSCALL_RETDATA a regs" x fd] v(2,3) by simp
  show ?thesis
    by (rule move_follows [OF p v(4) _ r m]) (simp_all add: v(1))
qed

lemma resize_follows:
  assumes p: "map_of (ProcMap c) pid = Some p"
    and e: "encodes a os pid regs (KResize fd n)"
    and r: "in_range p (KResize fd n) (abs_kernel c)"
  shows "\<exists>c'. SyscallExit a os pid regs c = Inr c' \<and> abs_kernel c' = kstep p (KResize fd n) (abs_kernel c)"
proof -
  have ret: "0 \<le> as_int (SYSCALL_RETDATA a regs)" and fd: "unat (SYSCALL_ARG0 a regs) = fd"
    using e by simp_all
  note moves = SyscallExit_moves [OF ret, of os pid c]
  obtain w where v: "SyscallExit a os pid regs c = on_fd pid (SYSCALL_ARG0 a regs) (EnrollNoShift w 0) c"
    "n < 2 ^ 64 \<longrightarrow> unat w = n"
  proof (cases "SYSCALL_NR a regs = SYS_ftruncate a \<and> unat (SYSCALL_ARG1 a regs) = n")
    case True
    then show ?thesis
      using moves(1) by (intro that [of "SYSCALL_ARG1 a regs"]) simp_all
  next
    case False
    then have f: "SYSCALL_NR a regs = SYS_fallocate a" "unat (SYSCALL_ARG2 a regs) + unat (SYSCALL_ARG3 a regs) = n"
      using e by auto
    show ?thesis
      using moves(2) [OF f(1)] unat_add_fits [of "SYSCALL_ARG2 a regs" "SYSCALL_ARG3 a regs"] f(2)
      by (intro that [of "SYSCALL_ARG2 a regs + SYSCALL_ARG3 a regs"]) simp_all
  qed
  have m: "abs_ofd (EnrollNoShift w 0 x) = move (KResize fd n) (abs_ofd x)" if "End (move (KResize fd n) (abs_ofd x)) < 2 ^ 64" for x
    using that abs_ofd_moves(3) [of w x fd] v(2) by simp
  show ?thesis
    by (rule move_follows [OF p v(1) _ r m]) (simp_all add: fd)
qed

lemma seek_follows:
  assumes p: "map_of (ProcMap c) pid = Some p"
    and e: "encodes a os pid regs (KSeek fd pos)"
    and r: "in_range p (KSeek fd pos) (abs_kernel c)"
  shows "\<exists>c'. SyscallExit a os pid regs c = Inr c' \<and> abs_kernel c' = kstep p (KSeek fd pos) (abs_kernel c)"
proof -
  have v: "unat (SYSCALL_ARG0 a regs) = fd" "unat (SYSCALL_RETDATA a regs) = pos"
    "SyscallExit a os pid regs c = on_fd pid (SYSCALL_ARG0 a regs) (SetCurrPos (SYSCALL_RETDATA a regs)) c"
    using e SyscallExit_moves(3) by simp_all
  show ?thesis
    by (rule move_follows [OF p v(3) _ r]) (simp_all add: v abs_ofd_moves(4) [where fd = fd] del: move.simps)
qed

lemma open_call_follows:
  assumes w: "wf_ctx c"
    and p: "map_of (ProcMap c) pid = Some p"
    and e: "encodes a os pid regs (KOpen fd len app)"
    and t: "tracked p (KOpen fd len app) (abs_kernel c)"
  shows "\<exists>c'. SyscallExit a os pid regs c = Inr c' \<and> abs_kernel c' = kstep p (KOpen fd len app) (abs_kernel c)"
proof -
  let ?w = "SYSCALL_RETDATA a regs"
  have ret: "0 \<le> as_int ?w" and fd: "unat ?w = fd" and free: "slot (fds_of c p) (unat ?w) = None"
    using e t by auto
  obtain name where name: "LinkTarget os (''/proc/'' @ show_int pid @ ''/fd/'' @ show_nat (unat ?w)) = Some name"
    "unat (GetFileLength (Stat os) name) = len"
    using e unfolding encodes.simps fd by (auto split: option.splits)
  obtain flags where "SyscallExit a os pid regs c = OpOpenWriteFile os pid ?w flags c" "len = 0 \<or> app = (flags AND O_APPEND \<noteq> 0)"
    using e SyscallExit_opens [OF ret, of os pid c] unfolding encodes.simps by (elim conjE disjE) blast+
  then show ?thesis
    using open_follows [OF w p name(1) free as_int_not_last [OF ret] name(2)] by (simp add: fd)
qed

lemma dup_call_follows:
  assumes w: "wf_ctx c"
    and cap: "Capacity (FileStorage c) \<noteq> 0"
    and p: "map_of (ProcMap c) pid = Some p"
    and e: "encodes a os pid regs (KDup old new)"
  shows "\<exists>c'. SyscallExit a os pid regs c = Inr c' \<and> abs_kernel c' = kstep p (KDup old new) (abs_kernel c)"
proof -
  have ret: "0 \<le> as_int (SYSCALL_RETDATA a regs)" and old: "unat (SYSCALL_ARG0 a regs) = old" and new: "new < 2 ^ 31"
    using e by simp_all
  obtain w flags where v: "unat w = new"
    "SyscallExit a os pid regs c \<in> {ignore_result (OpDup2 pid (SYSCALL_ARG0 a regs) w c),
      ignore_result (OpDup3 pid (SYSCALL_ARG0 a regs) w flags c)}"
    using e SyscallExit_dups [OF ret, of os pid c] unfolding encodes.simps by (elim conjE disjE) blast+
  have "unat (- 1 :: u64) = 2 ^ 64 - 1"
    by (simp add: unsigned_minus_1_eq_mask mask_eq_exp_minus_1)
  then have "w \<noteq> - 1"
    using v(1) new by auto
  then show ?thesis
    using dup_follows [OF w cap p] v old by auto
qed

lemma call_follows:
  assumes w: "wf_ctx c" and cap: "Capacity (FileStorage c) \<noteq> 0" and p: "map_of (ProcMap c) pid = Some p"
    and e: "encodes a os pid regs call" and t: "tracked p call (abs_kernel c)" and r: "in_range p call (abs_kernel c)"
  shows "\<exists>c'. SyscallExit a os pid regs c = Inr c' \<and> abs_kernel c' = kstep p call (abs_kernel c)"
proof (cases call)
  case (KClose fd)
  then show ?thesis
    using e SyscallExit_close OpClose_follows [OF w cap p] by auto
qed (use e t r write_follows [OF p] append_follows [OF p] pwrite_follows [OF p] resize_follows [OF p] seek_follows [OF p]
    open_call_follows [OF w p] dup_call_follows [OF w cap p] other_follows [OF p] in \<open>simp_all only: kstep.simps\<close>)

section \<open>All calls of a run\<close>

text \<open>Finished calls, each with what the kernel made of it.\<close>

type_synonym run = "(finished_call \<times> kcall) list"

fun kernel_run :: "run \<Rightarrow> kernel \<Rightarrow> kernel" where
  "kernel_run [] k = k"
| "kernel_run ((f, call) # calls) k = kernel_run calls (kernel_step (Caller f) call k)"

fun described :: "arch \<Rightarrow> run \<Rightarrow> kernel \<Rightarrow> bool" where
  "described a [] k \<longleftrightarrow> True"
| "described a ((f, call) # calls) k \<longleftrightarrow>
     encodes a (AtExit f) (Caller f) (AfterRegs f) call \<and>
     (case Owner k (Caller f) of None \<Rightarrow> False | Some p \<Rightarrow> tracked p call k \<and> in_range p call k) \<and>
     described a calls (kernel_step (Caller f) call k)"

lemma run_follows:
  assumes "wf_ctx c" "Capacity (FileStorage c) \<noteq> 0" "described a calls (abs_kernel c)"
  shows "\<exists>c'. see_all a (map fst calls) c = Inr c' \<and> abs_kernel c' = kernel_run calls (abs_kernel c)"
  using assms
proof (induction calls arbitrary: c)
  case (Cons x calls)
  obtain f call where x: "x = (f, call)"
    by (cases x)
  have e: "encodes a (AtExit f) (Caller f) (AfterRegs f) call"
    using Cons.prems(3) by (simp add: x)
  obtain p where p: "map_of (ProcMap c) (Caller f) = Some p" and t: "tracked p call (abs_kernel c)" "in_range p call (abs_kernel c)"
    using Cons.prems(3) by (auto simp: x split: option.splits)
  obtain c1 where c1: "SyscallExit a (AtExit f) (Caller f) (AfterRegs f) c = Inr c1"
    "abs_kernel c1 = kstep p call (abs_kernel c)"
    using call_follows [OF Cons.prems(1,2) p e t] by blast
  have step: "abs_kernel c1 = kernel_step (Caller f) call (abs_kernel c)"
    using c1(2) p by (simp add: kernel_step_def)
  have "config c1 = config c"
    by (rule SyscallExit_config [OF Cons.prems(1) c1(1)])
  then have "Capacity (FileStorage c1) \<noteq> 0"
    using Cons.prems(2) by (simp add: config_def)
  moreover have "described a calls (abs_kernel c1)"
    using Cons.prems(3) by (simp add: x step)
  ultimately obtain c' where "see_all a (map fst calls) c1 = Inr c'" "abs_kernel c' = kernel_run calls (abs_kernel c1)"
    using Cons.IH SyscallExit_wf [OF Cons.prems(1) c1(1)] by blast
  then show ?case
    using c1(1) by (simp add: x step)
qed simp

text \<open>The invariants are kept along the calls, if every caller's table has a leader.\<close>

lemma see_all_keeps:
  assumes "wf_ctx c" "led c" "\<forall>f\<in>set fs. \<forall>p. map_of (ProcMap c) (Caller f) = Some p \<longrightarrow> has_leader c p"
    and "see_all a fs c = Inr c'"
  shows "wf_ctx c' \<and> led c' \<and> config c' = config c"
  using assms
proof (induction fs arbitrary: c)
  case (Cons f fs)
  obtain c1 where c1: "SyscallExit a (AtExit f) (Caller f) (AfterRegs f) c = Inr c1" "see_all a fs c1 = Inr c'"
    using Cons.prems(4) by (auto simp: bindR_eq_Inr_iff)
  have frame: "ProcMap c1 = ProcMap c" "GroupLeaders c1 = GroupLeaders c"
    using SyscallExit_frame [OF Cons.prems(1) c1(1)] by simp_all
  have "wf_ctx c1" "led c1" "config c1 = config c"
    using SyscallExit_wf [OF Cons.prems(1) c1(1)] SyscallExit_led [OF Cons.prems(1,2) c1(1)] Cons.prems(3)
      SyscallExit_config [OF Cons.prems(1) c1(1)] by simp_all
  moreover have "\<forall>f\<in>set fs. \<forall>p. map_of (ProcMap c1) (Caller f) = Some p \<longrightarrow> has_leader c1 p"
    using Cons.prems(3) frame by (simp add: has_leader_def)
  ultimately show ?case
    using Cons.IH [OF _ _ _ c1(2)] by simp
qed simp

end
