(* ===== verification/KernelProps.thy ===== *)
theory KernelProps
  imports Kernel ContextProps
begin

text \<open>
  What the total of the report stands for: the context refines the kernel's descriptors and files, call by call,
  and the report of a run without \<^verbatim>\<open>fork\<close> and \<^verbatim>\<open>execve\<close> shows by how much the files have grown.
\<close>

section \<open>A call\<close>


lemma demo_ofd: "abs_ofd demo_file = \<lparr>Offset = 10, End = 10, Opened = 4\<rparr>"
  by (simp add: abs_ofd_def demo_file_def)

lemma demo_ran: "ran (slot [None, Some (0 :: faddr), Some 0]) = {0}"
  by (auto simp: ran_def slot_def less_Suc_eq numeral_3_eq_3 split: if_splits)

lemma demo_in_range: "in_range 0 (KWrite 1 5) (abs_kernel demo)"
  by (simp add: in_range_def demo_ran on_ofd_def demo_ofd demo_accounted grown_def)

lemma demo_encodes: "encodes X86_64 link_os 7 (call_regs 1 5 1 0 5) (KWrite 1 5)"
  by (simp add: sysno_defs as_ssize_def)


section \<open>A run\<close>


text \<open>A write of five bytes, which is seen, and an \<^verbatim>\<open>openat\<close> for reading, which is not.\<close>

definition demo_run :: run where
  "demo_run =
     [(\<lparr>Caller = 7, AfterRegs = call_regs 1 5 1 0 5, FilterData = call_data 1 0 5, AtExit = link_os\<rparr>, KWrite 1 5),
      (\<lparr>Caller = 7, AfterRegs = call_regs 257 3 0 0 64, FilterData = call_data 257 0 64, AtExit = link_os\<rparr>, KOther)]"


end
