(* ===== verification/Spec2Isabelle.thy ===== *)
theory Spec2Isabelle
  imports FileProps ContextProps RunProps LaunchProps NameProps KernelProps
begin

text \<open>
  \<^bold>\<open>optrace: a model of the tracer and what its report is worth\<close>

  optrace runs a program under \<^verbatim>\<open>ptrace\<close>, follows every thread and process that it starts, and
  reports the files they wrote, the largest first, with a total. The development models the C++ code
  under \<^verbatim>\<open>src/src\<close> and proves what the report can be relied on for, and where it cannot.

  \<^bold>\<open>The parts of the program and how they interact\<close>

  \<^item> \<^verbatim>\<open>main.cpp\<close> reads the command line into a \<^verbatim>\<open>TOptions\<close> and calls \<^verbatim>\<open>TraceProgram\<close> of
    \<^verbatim>\<open>optrace.cpp\<close>, which forks, attaches to the child, forwards signals, registers the tracee in a
    \<^verbatim>\<open>TContext\<close>, runs the loop \<^verbatim>\<open>RunTracer\<close> and at its end has the context print the report.
  \<^item> \<^verbatim>\<open>RunTracer\<close> keeps, for each thread, whether it is inside a system call
    (\<^verbatim>\<open>syscallStateMap\<close>) and the stops of threads that nobody has announced (\<^verbatim>\<open>suspendedThreads\<close>).
    Every turn takes one result of \<^verbatim>\<open>wait3\<close>, tells the context what happened (a child, an
    \<^verbatim>\<open>execve\<close>, a finished system call, an exit) and lets the thread go on.
  \<^item> \<^verbatim>\<open>TContext\<close> (\<^verbatim>\<open>context.cpp\<close>) keeps the descriptor table of every process as shared pointers to
    \<^verbatim>\<open>TFileState\<close> (\<^verbatim>\<open>types.cpp\<close>). When the last reference to a file state goes, its output goes to
    the \<^verbatim>\<open>TFileStorage\<close> (\<^verbatim>\<open>storage.cpp\<close>), a bounded priority queue with a running total.
  \<^item> With \<^verbatim>\<open>seccomp\<close> the filter of \<^verbatim>\<open>bpf_program.cpp\<close> decides in the kernel which system calls stop
    the tracee at all.

  \<^bold>\<open>The theories\<close>

  \<^item> \<^verbatim>\<open>Prelude\<close>: the machine integers (\<^verbatim>\<open>size_t\<close> is \<open>64 word\<close>, the casts to \<^verbatim>\<open>int\<close> and
    \<^verbatim>\<open>ssize_t\<close>), the ways the code stops (\<open>failure\<close>: a failed assertion, a call of \<^verbatim>\<open>exit\<close>,
    undefined behaviour), their sequencing \<open>bindR\<close>, and descriptor tables as lists.
  \<^item> \<^verbatim>\<open>FileState\<close>: \<^verbatim>\<open>TFileState\<close>, and its refinement of a cursor, a pair of the offset and the
    highest position reached (\<open>file_run_refines\<close>).
  \<^item> \<^verbatim>\<open>PriorityQueue\<close>: \<^verbatim>\<open>std::priority_queue\<close> as the binary heap on a vector that it is; the contract
    that the storage needs is the locale \<open>min_queue\<close>, interpreted on the heap for every key.
  \<^item> \<^verbatim>\<open>Storage\<close>: \<^verbatim>\<open>TOutputFile\<close> and \<^verbatim>\<open>TFileStorage\<close>; the storage keeps the largest entries
    (\<open>holds_largest\<close>) and the total of all of them.
  \<^item> \<^verbatim>\<open>Utils\<close>: the strings and \<^verbatim>\<open>/proc\<close> readers of \<^verbatim>\<open>utils.cpp\<close>; \<^verbatim>\<open>Cores\<close>: \<^verbatim>\<open>cores.cpp\<close>;
    \<^verbatim>\<open>Options\<close>: \<^verbatim>\<open>TOptions\<close> and \<^verbatim>\<open>GetDefaults\<close>.
  \<^item> \<^verbatim>\<open>Registers\<close>: the register macros of \<^verbatim>\<open>syscall.h\<close> and \<^verbatim>\<open>regs.h\<close> for both machines,
    the numbers of the traced system calls, \<^verbatim>\<open>GetSyscallNumber\<close>; \<^verbatim>\<open>Ptrace\<close>: the wrappers of
    \<^verbatim>\<open>ptrace.cpp\<close>, \<^verbatim>\<open>GetCloneFlags\<close>, and the macros that read a wait status.
  \<^item> \<^verbatim>\<open>Context\<close>: the state and every operation of \<^verbatim>\<open>TContext\<close> up to \<^verbatim>\<open>SyscallExit\<close>. Shared
    pointers are addresses in two heaps (\<open>Files\<close>, \<open>Procs\<close>), \<open>use_count\<close> counts the slots
    of the tables of known processes. \<^verbatim>\<open>ContextInv\<close>, \<^verbatim>\<open>ContextOps\<close>, \<^verbatim>\<open>ContextReg\<close> and
    \<^verbatim>\<open>ContextRun\<close> prove the invariant \<open>wf_ctx\<close> (ids are known once, addresses are
    allocated, no file state is in two tables), \<open>led\<close> (a table with an open file has a leader that will record it),
    and what each operation does to the total \<open>accounted\<close>: everything recorded and still open.
  \<^item> \<^verbatim>\<open>Bpf\<close>: the filter program instruction by instruction, an interpreter of classic BPF, and the
    decision \<open>traced\<close> that it computes.
  \<^item> \<^verbatim>\<open>Report\<close>: \<^verbatim>\<open>HumanReadableSize\<close>, \<^verbatim>\<open>PrintReport\<close> with its padding, lines, legend and
    total, and \<^verbatim>\<open>PostProcess\<close>.
  \<^item> \<^verbatim>\<open>Tracer\<close>: one turn of \<^verbatim>\<open>RunTracer\<close> and the loop. \<^verbatim>\<open>TracerInv\<close> proves its invariant
    \<open>tracer_ok\<close>; \<^verbatim>\<open>TracerRun\<close> counts resumptions, states the documented order of the kernel's
    reports (\<open>orderly\<close>) and the reachable states (\<open>reach\<close>).
  \<^item> \<^verbatim>\<open>Progress\<close>: when a turn cannot fail. Each operation of the context is total on known processes
    (\<open>total_rules\<close>), and with a kernel that answers as documented (\<open>answered\<close>, \<open>announced\<close>) so is a turn
    (\<open>turn_total\<close>) and a run of turns (\<open>turns_total\<close>). \<^verbatim>\<open>TracerTypes\<close>: the ranges of what the loop
    keeps and returns, in whatever order the kernel reports.
  \<^item> \<^verbatim>\<open>Conserve\<close>: the contract of the operations that produce no output, the locales
    \<open>quiet_operation\<close> and \<open>quiet_pair\<close>, interpreted on the operations of the context.
    \<^verbatim>\<open>Filtered\<close>: the context behind the filter, \<open>see_traced\<close>, against one that sees every call,
    \<open>see_all\<close>. \<^verbatim>\<open>CoreSearch\<close>: the kernel's name of a core dump, and that the search of \<^verbatim>\<open>Cores\<close> finds it.
  \<^item> \<^verbatim>\<open>Kernel\<close>: the abstract specification of the accounting: descriptor tables, open file descriptions with natural
    numbers for offset and end, and the bytes by which files have grown. \<open>abs_kernel\<close> maps a context to such a
    state, \<open>encodes\<close> says which registers describe a call, and \<^verbatim>\<open>SyscallExit\<close> is a functional refinement of the
    kernel's step (\<open>call_follows\<close>, \<open>run_follows\<close>).
  \<^item> \<^verbatim>\<open>SyscallNames\<close>: \<^verbatim>\<open>StrSyscallName\<close> of \<^verbatim>\<open>syscall.cpp\<close> with its labels, and the fallback numbers of
    \<^verbatim>\<open>syscall_x86_64.h\<close> and \<^verbatim>\<open>syscall_aarch64.h\<close>.
  \<^item> \<^verbatim>\<open>CommandLine\<close>: the option tables, the option loop and the help of \<^verbatim>\<open>main.cpp\<close>. \<^verbatim>\<open>Tracee\<close>: the child's side
    of the \<^verbatim>\<open>fork\<close>, \<^verbatim>\<open>SetupTracee\<close>, \<^verbatim>\<open>RunTracee\<close> and \<^verbatim>\<open>InstallBpfProgram\<close>, as the log of its calls, and
    \<^verbatim>\<open>ForwardSignal\<close>. \<^verbatim>\<open>Launch\<close>: \<^verbatim>\<open>SetupTracer\<close>, \<^verbatim>\<open>SetupSignalForwarding\<close>, \<^verbatim>\<open>TraceProgram\<close> on both sides,
    \<^verbatim>\<open>TraceMe\<close> and \<^verbatim>\<open>main\<close>.
  \<^item> \<^verbatim>\<open>FileProps\<close>, \<^verbatim>\<open>ContextProps\<close>, \<^verbatim>\<open>RunProps\<close>, \<^verbatim>\<open>LaunchProps\<close>, \<^verbatim>\<open>NameProps\<close>, \<^verbatim>\<open>KernelProps\<close>: the properties, each
    with its claim id and, where it has hypotheses, an instance of them.
\<close>

text \<open>
  \<^bold>\<open>What the lemmas show\<close>

  \<^item> The whole run: with a kernel that reports in its documented order, the report's total counts every
    byte that was recorded or is still in an open file when the loop returns, whatever the interleaving
    of the tracees; the end of the run is total; the exit code is the tracee's. With a kernel that also
    answers as documented nothing aborts: every assertion of the code holds.
  \<^item> The meaning of the total: for system calls of any number of processes, in any order, that the registers
    describe, the printed number is the growth of the files in the kernel, also behind the filter. Calls outside
    \<open>encodes\<close> and \<open>tracked\<close> are those the code gets wrong: offsets above \<open>2 ^ 31\<close>, \<^verbatim>\<open>fallocate\<close> with a mode,
    \<^verbatim>\<open>pwritev2\<close> at \<open>-1\<close>, appending after a seek. \<^verbatim>\<open>fork\<close> and \<^verbatim>\<open>execve\<close>, which copy states that the kernel
    shares, are not part of this refinement.
  \<^item> The loop: the invariant of the maps of threads; every stop is answered by exactly one resumption;
    a child that stops before it is announced is released exactly once; entries and exits alternate.
  \<^item> The context: the total is kept by everything that produces no output, and grows by what a write
    adds; \<^verbatim>\<open>dup2\<close> shares, \<^verbatim>\<open>fork\<close> and \<^verbatim>\<open>execve\<close> copy, threads use one table.
  \<^item> The filter: it decides every call, and lets pass only calls that would not change the context, with
    one exception, so a run behind it ends with the same tables. The child's own calls pass.
  \<^item> The command line and the help: which settings it can express, and that they are read back; that the
    help and the tables agree. The names of the system calls: that \<^verbatim>\<open>StrSyscallName\<close> undoes the numbering,
    and for which headers it compiles.
  \<^item> The storage, the file states, the sizes for people, the search for core dumps: each against a direct
    specification (sorting, a cursor, the nearest tenth, the name that the kernel gives).
  \<^item> Where the code does not do what it means to, a theorem says so: offsets of \<^verbatim>\<open>lseek\<close> above
    \<open>2 ^ 31\<close>, \<^verbatim>\<open>F_SETFD\<close>, \<^verbatim>\<open>dup3\<close>, \<^verbatim>\<open>F_DUPFD\<close> under the filter, the buffers of
    \<^verbatim>\<open>HumanReadableSize\<close> and \<^verbatim>\<open>MyHighestFd\<close>, relative core patterns, \<^verbatim>\<open>--wait-daemons\<close>,
    the fallback for \<^verbatim>\<open>SYS_renameat2\<close> on aarch64, and the id that an \<^verbatim>\<open>execve\<close> of a thread leaves behind.

  \<^bold>\<open>What stands for the world\<close>

  The kernel and the file system are arguments. \<open>os\<close> holds what \<^verbatim>\<open>/proc\<close>, \<^verbatim>\<open>stat\<close>, \<^verbatim>\<open>readlink\<close>,
  \<^verbatim>\<open>fnmatch\<close> and \<^verbatim>\<open>fcntl\<close> say; each turn of the loop has its own. \<open>answers\<close> are the results
  of the \<^verbatim>\<open>ptrace\<close> requests of a turn, \<open>wait_result\<close> is what \<^verbatim>\<open>wait3\<close> returns; \<open>host\<close> is the
  rest of what \<^verbatim>\<open>TraceProgram\<close> asks the system for, \<open>child_errors\<close> says which calls of the child fail;
  \<open>header\<close> has the numbers that the system's headers define; \<open>report_env\<close> has the order in which a set of
  pointers is walked and the files that do not open. The requests that let a thread run are the output
  of the loop, a log. No property constrains these arguments except by hypotheses in its statement; the one
  about the kernel's order, \<open>orderly\<close>, says that a new child's id is not in use and that a group
  leader's exit is reported after its threads', as \<^verbatim>\<open>ptrace(2)\<close> documents. The first part also
  leaves out the reuse of an id that an \<^verbatim>\<open>execve\<close> left registered, which has a theorem of its own.
  That nothing aborts needs two more: \<open>answered\<close>, requests are answered or refused with \<^verbatim>\<open>ESRCH\<close>, links
  can be read, descriptors fit their width; and \<open>announced\<close>, only followed threads exit.

  \<^bold>\<open>Bounds and termination\<close>

  No definition uses fuel. \<open>sift_up\<close>, \<open>sift_down\<close>, \<open>bpf_exec\<close> and \<open>VanishAll\<close> end by a
  measure (the index, the distance to the end, the rest of the program, the number of known processes), all
  other recursions are structural. The loop of \<^verbatim>\<open>RunTracer\<close> need not end: \<open>turns\<close> runs it over a
  list of inputs of any length, and a list that ends leaves the tracer waiting (\<open>Again\<close>, or \<open>Waits\<close>
  for \<open>TraceProgram\<close>). \<^verbatim>\<open>size_t\<close> is a word of 64 bits and wraps; statements about sums of sizes bound
  them by \<open>2 ^ 64\<close> where they speak of numbers. The doubles of \<^verbatim>\<open>HumanReadableSize\<close> are exact below
  \<open>2 ^ 50 - 2\<close>; from there the rounding of \<^verbatim>\<open>log2\<close> and then the missing suffix leave the array,
  which is the outcome \<open>Undefined\<close>. \<^verbatim>\<open>log10\<close> is used only for the length of a descriptor number.

  \<^bold>\<open>What is not modelled\<close>

  \<^item> What goes to the standard error: the messages before an exit, and those of \<^verbatim>\<open>StrPtraceEventName\<close>'s
    callers.
  \<^item> \<^verbatim>\<open>getopt_long\<close>, whose results are the input of the option loop, and the state of the signal masks beyond
    whether \<^verbatim>\<open>sigprocmask\<close> succeeds.
  \<^item> The program that runs as the tracee, except for what the kernel reports of it.
\<close>

end
